theory Spec2Isabelle
  imports Main "HOL-Library.Word" "HOL-Library.Monad_Syntax"
begin

unbundle bit_operations_syntax

section \<open>Data model of the dbuf layer\<close>

text \<open>
  The model follows \<^verbatim>\<open>dbuf.c\<close>.  A C pointer is an option (\<open>None\<close> is
  \<^verbatim>\<open>NULL\<close>); a pointer to an ARC buffer is the buffer's address in an explicit
  store, a pointer to a dirty record is its position in the dbuf's list of dirty records.
  A function that can trip an \<^verbatim>\<open>ASSERT\<close>/\<^verbatim>\<open>VERIFY\<close> or dereference
  \<^verbatim>\<open>NULL\<close> returns an option, \<open>None\<close> being the panic.  Assertions about locks,
  reference tags and the dnode are outside the model.  The C type \<^verbatim>\<open>int\<close> of offsets
  and sizes inside a block is modelled by \<open>int\<close>: block sizes are far below \<open>2^31\<close>.
\<close>

type_synonym byte = "8 word"

text \<open>
  Modelled from the spec: the constants \<^verbatim>\<open>DB_UNCACHED\<close>, ... are declared in
  \<^verbatim>\<open>sys/dbuf.h\<close>, which is not among the sources.  The spec (4.3) says that the states
  are bit flags that can be combined, and the code tests and sets them with \<^verbatim>\<open>&\<close>,
  \<^verbatim>\<open>|=\<close> and \<^verbatim>\<open>&= ~\<close>.  A value of \<^verbatim>\<open>db_state\<close> is the set of its bits.
\<close>

datatype dbuf_states = DB_UNCACHED | DB_FILL | DB_NOFILL | DB_READ | DB_CACHED
  | DB_EVICTING | DB_PARTIAL

text \<open>\<^verbatim>\<open>dbuf_dirty_range_t\<close>; the fields \<^verbatim>\<open>start\<close>, \<^verbatim>\<open>size\<close>, \<^verbatim>\<open>end\<close>.\<close>

record dbuf_dirty_range =
  range_start :: int
  range_size :: int
  range_end :: int

text \<open>\<^verbatim>\<open>arc_buf_t\<close>: the data area and whether the buffer is frozen.\<close>

record arc_buf =
  b_data :: "byte list"
  b_frozen :: bool

datatype override_states = DR_NOT_OVERRIDDEN | DR_IN_DMU_SYNC | DR_OVERRIDDEN

text \<open>
  \<^verbatim>\<open>dbuf_dirty_record_t\<close> of a leaf: \<^verbatim>\<open>dt.dl.dr_data\<close>,
  \<^verbatim>\<open>dt.dl.write_ranges\<close> and \<^verbatim>\<open>dt.dl.dr_override_state\<close>, the syncer's
  deferred write zio and the deferred override zio.  A zio is named by a number.
\<close>

record dbuf_dirty_record =
  dr_txg :: nat
  dr_zio :: "nat option"
  dr_override_zio :: "nat option"
  dr_data :: "nat option"
  write_ranges :: "dbuf_dirty_range list"
  dr_override_state :: override_states

text \<open>
  \<^verbatim>\<open>dmu_buf_impl_t\<close>.  \<^verbatim>\<open>db_dirty_records\<close> has the newest record at its
  head.  \<^verbatim>\<open>db_data_pending\<close> points to a record of that list, which the model names
  by its transaction group: the records of a dbuf have distinct transaction groups.
  \<^verbatim>\<open>db_data\<close> is \<^verbatim>\<open>db.db_data\<close>, the address of the buffer whose data area it
  points to.
\<close>

record dmu_buf_impl =
  db_object :: nat
  db_size :: nat
  db_level :: nat
  db_blkid :: nat
  db_state :: "dbuf_states set"
  db_holds :: nat
  db_buf :: "nat option"
  db_data :: "nat option"
  db_dirty_records :: "dbuf_dirty_record list"
  db_data_pending :: "nat option"
  db_dirtycnt :: nat
  db_freed_in_flight :: bool
  db_user :: "nat option"
  db_immediate_evict :: bool

section \<open>Write ranges of a dirty record\<close>

text \<open>
  \<^verbatim>\<open>dbuf_dirty_record_check_ranges\<close>: the assertions of the loop, for each range
  \<^verbatim>\<open>cur->start > prev->end\<close> and \<^verbatim>\<open>cur->end < next->start\<close>.
\<close>

fun dbuf_dirty_record_check_ranges :: "dbuf_dirty_range list \<Rightarrow> bool" where
  "dbuf_dirty_record_check_ranges [] = True"
| "dbuf_dirty_record_check_ranges [cur] = True"
| "dbuf_dirty_record_check_ranges (cur # nxt # rs) =
     (range_end cur < range_start nxt \<and> dbuf_dirty_record_check_ranges (nxt # rs))"

text \<open>
  The accumulator loop of \<^verbatim>\<open>dbuf_dirty_record_add_range\<close>.  It walks the list from
  its head while \<^verbatim>\<open>old_range->start <= range->end\<close>; a range that touches the new
  one absorbs it, leaves the list and becomes the new one.  The result is the final
  \<^verbatim>\<open>range\<close>, the ranges that stay in front of the cursor and the ranges from the
  cursor \<^verbatim>\<open>old_range\<close> on.
\<close>

fun add_range_loop ::
  "dbuf_dirty_range \<Rightarrow> dbuf_dirty_range list \<Rightarrow>
     dbuf_dirty_range \<times> dbuf_dirty_range list \<times> dbuf_dirty_range list" where
  "add_range_loop rng [] = (rng, [], [])"
| "add_range_loop rng (old_range # next_range) =
     (if range_start old_range \<le> range_end rng then
        (if range_start rng \<le> range_end old_range \<and> range_end rng \<ge> range_start old_range
         then
           (let s = min (range_start rng) (range_start old_range);
                e = max (range_end rng) (range_end old_range)
            in add_range_loop
                 (old_range\<lparr>range_start := s, range_end := e, range_size := e - s\<rparr>) next_range)
         else
           (case add_range_loop rng next_range of
              (r, kept, rest) \<Rightarrow> (r, old_range # kept, rest)))
      else (rng, [], old_range # next_range))"

text \<open>
  The loop of \<^verbatim>\<open>dbuf_dirty_record_cleanup_ranges\<close>: it removes the head of the list
  until the list is empty.
\<close>

fun cleanup_ranges_loop :: "dbuf_dirty_range list \<Rightarrow> dbuf_dirty_range list" where
  "cleanup_ranges_loop [] = []"
| "cleanup_ranges_loop (rng # rs) = cleanup_ranges_loop rs"

text \<open>
  \<^verbatim>\<open>dbuf_dirty_record_cleanup_ranges\<close>: nothing is done for an indirect block.
\<close>

definition dbuf_dirty_record_cleanup_ranges ::
  "dmu_buf_impl \<Rightarrow> dbuf_dirty_record \<Rightarrow> dbuf_dirty_record" where
  "dbuf_dirty_record_cleanup_ranges db dr =
     (if db_level db \<noteq> 0 then dr
      else dr\<lparr>write_ranges := cleanup_ranges_loop (write_ranges dr)\<rparr>)"

text \<open>
  What \<^verbatim>\<open>dbuf_dirty_record_add_range\<close> does to the list of ranges of a dbuf of size
  \<open>dbsize\<close>: the early exit for a range that fills the block, the loop, and the
  insertion of the accumulated range in front of the cursor unless it fills the block.
\<close>

definition add_range_list :: "nat \<Rightarrow> dbuf_dirty_range list \<Rightarrow> int \<Rightarrow> int \<Rightarrow> dbuf_dirty_range list"
  where
  "add_range_list dbsize rs offset sz =
     (if offset = 0 \<and> sz = int dbsize then cleanup_ranges_loop rs
      else
        (case add_range_loop \<lparr>range_start = offset, range_size = sz, range_end = offset + sz\<rparr> rs of
           (rng, kept, rest) \<Rightarrow>
             if range_start rng = 0 \<and> range_size rng = int dbsize then kept @ rest
             else kept @ rng # rest))"

text \<open>
  \<^verbatim>\<open>dbuf_dirty_record_add_range\<close> for the dirty record at position \<open>dr\<close> of the
  dbuf's list.  A range that does not fill the block goes through
  \<^verbatim>\<open>dbuf_dirty_record_check_ranges\<close>.  At the label \<^verbatim>\<open>out\<close> a dbuf with
  \<^verbatim>\<open>DB_READ\<close> or \<^verbatim>\<open>DB_PARTIAL\<close> set and no range left goes to
  \<^verbatim>\<open>DB_FILL\<close>.
\<close>

definition dbuf_dirty_record_add_range ::
  "dmu_buf_impl \<Rightarrow> nat \<Rightarrow> int \<Rightarrow> int \<Rightarrow> dmu_buf_impl option" where
  "dbuf_dirty_record_add_range db dr offset sz =
     (if dr \<ge> length (db_dirty_records db) \<or> db_level db \<noteq> 0 then None
      else
        (let dl = db_dirty_records db ! dr;
             rs = add_range_list (db_size db) (write_ranges dl) offset sz
         in if \<not> (offset = 0 \<and> sz = int (db_size db)) \<and> \<not> dbuf_dirty_record_check_ranges rs
            then None
            else
              (let db1 = db\<lparr>db_dirty_records := (db_dirty_records db)[dr := dl\<lparr>write_ranges := rs\<rparr>]\<rparr>
               in Some (if db_state db1 \<inter> {DB_READ, DB_PARTIAL} \<noteq> {} \<and> rs = []
                        then db1\<lparr>db_state := {DB_FILL}\<rparr> else db1))))"

text \<open>
  \<^verbatim>\<open>dbuf_dirty_record_truncate_ranges\<close> on the list of ranges.  The loop takes the
  tail of the list; \<^verbatim>\<open>list_tail\<close> of an empty list is \<^verbatim>\<open>NULL\<close> and the loop
  dereferences it.
\<close>

function truncate_ranges_loop :: "dbuf_dirty_range list \<Rightarrow> int \<Rightarrow> dbuf_dirty_range list option"
  where
  "truncate_ranges_loop rs new_size =
     (if rs = [] then None
      else
        (let rng = last rs in
         if range_start rng \<ge> new_size then truncate_ranges_loop (butlast rs) new_size
         else
           (let e = min new_size (range_end rng)
            in Some (butlast rs @ [rng\<lparr>range_end := e, range_size := e - range_size rng\<rparr>]))))"
  by pat_completeness auto
termination
  by (relation "measure (\<lambda>(rs, n). length rs)") auto


text \<open>
  \<^verbatim>\<open>dbuf_dirty_record_truncate_ranges\<close> for the dirty record at position \<open>dr\<close>:
  nothing is done for an indirect block.
\<close>

definition dbuf_dirty_record_truncate_ranges ::
  "dmu_buf_impl \<Rightarrow> nat \<Rightarrow> int \<Rightarrow> dmu_buf_impl option" where
  "dbuf_dirty_record_truncate_ranges db dr new_size =
     (if dr \<ge> length (db_dirty_records db) then None
      else if db_level db \<noteq> 0 then Some db
      else
        (let dl = db_dirty_records db ! dr in
         case truncate_ranges_loop (write_ranges dl) new_size of
           None \<Rightarrow> None
         | Some rs \<Rightarrow>
             Some (db\<lparr>db_dirty_records := (db_dirty_records db)[dr := dl\<lparr>write_ranges := rs\<rparr>]\<rparr>)))"

subsection \<open>The invariant of a list of write ranges\<close>

text \<open>
  A range is well formed when it lies at a non-negative offset, does not end before it
  starts and its size is the distance of its ends.
\<close>

definition range_wf :: "dbuf_dirty_range \<Rightarrow> bool" where
  "range_wf r =
     (0 \<le> range_start r \<and> range_start r \<le> range_end r \<and>
      range_size r = range_end r - range_start r)"

text \<open>The byte at offset \<open>i\<close> lies in one of the ranges.\<close>

definition in_ranges :: "dbuf_dirty_range list \<Rightarrow> int \<Rightarrow> bool" where
  "in_ranges rs i = list_ex (\<lambda>r. range_start r \<le> i \<and> i < range_end r) rs"

text \<open>
  The ranges of a dirty record of a dbuf of size \<open>dbsize\<close>: well formed, inside the
  block, and accepted by \<^verbatim>\<open>dbuf_dirty_record_check_ranges\<close>.
\<close>

definition ranges_inv :: "nat \<Rightarrow> dbuf_dirty_range list \<Rightarrow> bool" where
  "ranges_inv dbsize rs =
     (list_all (\<lambda>r. range_wf r \<and> range_end r \<le> int dbsize) rs \<and>
      dbuf_dirty_record_check_ranges rs)"

section \<open>The user of a dbuf\<close>

text \<open>
  \<^verbatim>\<open>dbuf_verify_user\<close>, as compiled with \<^verbatim>\<open>ZFS_DEBUG\<close>: the result tells
  whether every assertion holds.
\<close>

definition dbuf_verify_user :: "dmu_buf_impl \<Rightarrow> bool \<Rightarrow> bool" where
  "dbuf_verify_user db evicting =
     ((db_level db = 0 \<or> db_user db = None) \<and>
      (if db_user db = None then True
       else (db_data db \<noteq> None \<and> db_state db = {DB_CACHED}) \<and>
            (if \<not> evicting
             then (if db_immediate_evict db then db_holds db > db_dirtycnt db
                   else db_holds db > 0)
             else True)))"

text \<open>
  \<^verbatim>\<open>dmu_buf_replace_user\<close>: the returned pointer and the dbuf afterwards.
\<close>

definition dmu_buf_replace_user ::
  "dmu_buf_impl \<Rightarrow> nat option \<Rightarrow> nat option \<Rightarrow> (nat option \<times> dmu_buf_impl) option" where
  "dmu_buf_replace_user db old_user new_user =
     (if \<not> dbuf_verify_user db False then None
      else
        (let (old_user', db') =
               (if db_user db = old_user then (old_user, db\<lparr>db_user := new_user\<rparr>)
                else (db_user db, db))
         in if \<not> dbuf_verify_user db' False then None else Some (old_user', db')))"

definition dmu_buf_set_user ::
  "dmu_buf_impl \<Rightarrow> nat option \<Rightarrow> (nat option \<times> dmu_buf_impl) option" where
  "dmu_buf_set_user db user = dmu_buf_replace_user db None user"

definition dmu_buf_remove_user ::
  "dmu_buf_impl \<Rightarrow> nat option \<Rightarrow> (nat option \<times> dmu_buf_impl) option" where
  "dmu_buf_remove_user db user = dmu_buf_replace_user db user None"

definition dmu_buf_get_user :: "dmu_buf_impl \<Rightarrow> nat option option" where
  "dmu_buf_get_user db = (if \<not> dbuf_verify_user db False then None else Some (db_user db))"

section \<open>The block size of a spill block\<close>

text \<open>
  Modelled from the spec: \<^verbatim>\<open>DMU_BONUS_BLKID\<close> and \<^verbatim>\<open>DMU_SPILL_BLKID\<close> are
  declared in \<^verbatim>\<open>sys/dmu.h\<close>, which is not among the sources.  The spec (3) calls them
  two reserved block ids; they are taken to be the two largest 64-bit values.
\<close>

definition DMU_BONUS_BLKID :: nat where
  "DMU_BONUS_BLKID = 2 ^ 64 - 1"

definition DMU_SPILL_BLKID :: nat where
  "DMU_SPILL_BLKID = 2 ^ 64 - 2"

text \<open>
  Modelled from the spec: \<^verbatim>\<open>P2ROUNDUP\<close> is a macro of \<^verbatim>\<open>sys/sysmacros.h\<close>,
  which is not among the sources.  It rounds its first argument up to a multiple of the
  second, a power of two, by the two's complement expression
  \<^verbatim>\<open>-(-(x) & -(align))\<close>.
\<close>

definition P2ROUNDUP :: "64 word \<Rightarrow> 64 word \<Rightarrow> 64 word" where
  "P2ROUNDUP x align = - ((- x) AND (- align))"

datatype errno = EIO | ENOENT | ENOTSUP

text \<open>
  \<^verbatim>\<open>dbuf_spill_set_blksz\<close>.  The constants \<^verbatim>\<open>SPA_MINBLOCKSIZE\<close> and
  \<^verbatim>\<open>SPA_MAXBLOCKSIZE\<close> of \<^verbatim>\<open>sys/spa.h\<close> are not among the sources and are the
  parameters \<open>minblocksize\<close> and \<open>maxblocksize\<close>.  The result \<open>Inl e\<close> is the
  return of the error \<open>e\<close>; \<open>Inr n\<close> is the call \<^verbatim>\<open>dbuf_new_size(db, n, tx)\<close>
  followed by the return of 0, where \<open>n\<close> is the 64-bit block size converted to the
  \<^verbatim>\<open>int\<close> parameter of \<^verbatim>\<open>dbuf_new_size\<close>.
\<close>

definition dbuf_spill_set_blksz ::
  "64 word \<Rightarrow> 64 word \<Rightarrow> dmu_buf_impl \<Rightarrow> 64 word \<Rightarrow> errno + int" where
  "dbuf_spill_set_blksz minblocksize maxblocksize db blksz =
     (if db_blkid db \<noteq> DMU_SPILL_BLKID then Inl ENOTSUP
      else
        (let blksz1 = (if blksz = 0 then minblocksize else blksz);
             blksz2 = (if blksz1 > maxblocksize then maxblocksize
                       else P2ROUNDUP blksz1 minblocksize)
         in Inr (sint (ucast blksz2 :: 32 word))))"

section \<open>The dbuf and its buffers\<close>

text \<open>
  What the dbuf layer does outside the dbuf is kept as a list of events: a zio handed
  to \<^verbatim>\<open>zio_nowait\<close>, a read handed to \<^verbatim>\<open>arc_read\<close> that completes later, a
  buffer given back with \<^verbatim>\<open>arc_discard_buf\<close> or \<^verbatim>\<open>arc_buf_remove_ref\<close>, and
  the destruction of the dbuf.
\<close>

datatype dbuf_event = Zio_nowait nat | Arc_read | Arc_discard_buf nat
  | Arc_buf_remove_ref nat | Dbuf_destroy

text \<open>
  The state: the dbuf, the ARC buffers by address, the next unused address, the
  content of memory that \<^verbatim>\<open>arc_buf_alloc\<close> hands out without initialising it, the
  events so far, and the counter \<^verbatim>\<open>dirty_writes_lost\<close>, which
  \<^verbatim>\<open>atomic_add_64\<close> increments modulo \<open>2^64\<close>.
\<close>

record dbuf_world =
  w_db :: dmu_buf_impl
  w_arc :: "nat \<Rightarrow> arc_buf"
  w_next :: nat
  w_junk :: "nat \<Rightarrow> nat \<Rightarrow> byte"
  w_events :: "dbuf_event list"
  dirty_writes_lost :: "64 word"

text \<open>
  The answers of the ARC and of the dnode that the dbuf layer asks for: whether the
  block is a hole (\<^verbatim>\<open>db_blkptr\<close> is \<^verbatim>\<open>NULL\<close> or a hole, or
  \<^verbatim>\<open>dnode_block_freed\<close>), the content of the block when the ARC has it cached,
  \<^verbatim>\<open>arc_released\<close> of the dbuf's buffer, and whether the dbuf is to be evicted at
  its last release (\<^verbatim>\<open>!DBUF_IS_CACHEABLE(db) || arc_buf_eviction_needed(buf)\<close>).  The
  bonus area of the dnode up to its length \<^verbatim>\<open>bonuslen\<close> and the constant
  \<^verbatim>\<open>DN_MAX_BONUSLEN\<close> of \<^verbatim>\<open>sys/dnode.h\<close> are here as well.
\<close>

record dbuf_env =
  e_is_hole :: bool
  e_arc_cached :: "byte list option"
  e_released :: bool
  e_evict :: bool
  e_bonus :: "byte list"
  e_max_bonuslen :: nat

definition db_update :: "(dmu_buf_impl \<Rightarrow> dmu_buf_impl) \<Rightarrow> dbuf_world \<Rightarrow> dbuf_world" where
  "db_update f w = w\<lparr>w_db := f (w_db w)\<rparr>"

definition dr_update ::
  "nat \<Rightarrow> (dbuf_dirty_record \<Rightarrow> dbuf_dirty_record) \<Rightarrow> dbuf_world \<Rightarrow> dbuf_world" where
  "dr_update dr f w =
     db_update (\<lambda>db. db\<lparr>db_dirty_records :=
       (db_dirty_records db)[dr := f (db_dirty_records db ! dr)]\<rparr>) w"

definition add_event :: "dbuf_event \<Rightarrow> dbuf_world \<Rightarrow> dbuf_world" where
  "add_event e w = w\<lparr>w_events := w_events w @ [e]\<rparr>"

definition arc_buf_size :: "dbuf_world \<Rightarrow> nat \<Rightarrow> int" where
  "arc_buf_size w buf = int (length (b_data (w_arc w buf)))"

definition set_b_data :: "nat \<Rightarrow> byte list \<Rightarrow> dbuf_world \<Rightarrow> dbuf_world" where
  "set_b_data buf d w = w\<lparr>w_arc := (w_arc w)(buf := (w_arc w buf)\<lparr>b_data := d\<rparr>)\<rparr>"

definition arc_buf_freeze :: "nat \<Rightarrow> dbuf_world \<Rightarrow> dbuf_world" where
  "arc_buf_freeze buf w = w\<lparr>w_arc := (w_arc w)(buf := (w_arc w buf)\<lparr>b_frozen := True\<rparr>)\<rparr>"

text \<open>
  \<^verbatim>\<open>arc_release\<close> and \<^verbatim>\<open>arc_buf_thaw\<close> leave a buffer that may be modified:
  \<^verbatim>\<open>dbuf_dirty_leaf_common\<close> asserts after them that the buffer is not frozen.
\<close>

definition arc_buf_thaw :: "nat \<Rightarrow> dbuf_world \<Rightarrow> dbuf_world" where
  "arc_buf_thaw buf w = w\<lparr>w_arc := (w_arc w)(buf := (w_arc w buf)\<lparr>b_frozen := False\<rparr>)\<rparr>"

definition arc_release :: "nat \<Rightarrow> dbuf_world \<Rightarrow> dbuf_world" where
  "arc_release buf w = arc_buf_thaw buf w"

text \<open>
  \<^verbatim>\<open>bzero(p, n)\<close> for a pointer \<open>p\<close> to the start of the data area of a buffer,
  \<^verbatim>\<open>bcopy(src, dst, n)\<close> between the starts of two data areas, and
  \<^verbatim>\<open>memcpy(dst, src, n)\<close> at an offset of two data areas.  A null pointer and a
  length that leaves the data area are the panic.
\<close>

definition bzero :: "nat option \<Rightarrow> int \<Rightarrow> dbuf_world \<Rightarrow> dbuf_world option" where
  "bzero p n w =
     (case p of
        None \<Rightarrow> None
      | Some buf \<Rightarrow>
          (let d = b_data (w_arc w buf) in
           if 0 \<le> n \<and> n \<le> int (length d)
           then Some (set_b_data buf (replicate (nat n) 0 @ drop (nat n) d) w)
           else None))"

definition bcopy :: "nat option \<Rightarrow> nat option \<Rightarrow> int \<Rightarrow> dbuf_world \<Rightarrow> dbuf_world option" where
  "bcopy src dst n w =
     (case (src, dst) of
        (Some sb, Some db) \<Rightarrow>
          (let s = b_data (w_arc w sb); d = b_data (w_arc w db) in
           if 0 \<le> n \<and> n \<le> int (length s) \<and> n \<le> int (length d)
           then Some (set_b_data db (take (nat n) s @ drop (nat n) d) w)
           else None)
      | _ \<Rightarrow> None)"

definition memcpy ::
  "nat \<times> int \<Rightarrow> nat \<times> int \<Rightarrow> int \<Rightarrow> dbuf_world \<Rightarrow> dbuf_world option" where
  "memcpy dst src n w =
     (let s = b_data (w_arc w (fst src)); d = b_data (w_arc w (fst dst)) in
      if 0 \<le> n \<and> 0 \<le> snd src \<and> 0 \<le> snd dst \<and>
         snd src + n \<le> int (length s) \<and> snd dst + n \<le> int (length d)
      then Some (set_b_data (fst dst)
             (take (nat (snd dst)) d @ take (nat n) (drop (nat (snd src)) s) @
              drop (nat (snd dst + n)) d) w)
      else None)"

text \<open>
  \<^verbatim>\<open>dbuf_alloc_arcbuf\<close>: a new buffer of the size of the dbuf, at an unused
  address, with whatever the memory holds.
\<close>

definition dbuf_alloc_arcbuf :: "dbuf_world \<Rightarrow> nat \<times> dbuf_world" where
  "dbuf_alloc_arcbuf w =
     (let buf = w_next w in
      (buf, w\<lparr>w_arc := (w_arc w)(buf :=
               \<lparr>b_data = map (w_junk w buf) [0..<db_size (w_db w)], b_frozen = False\<rparr>),
             w_next := Suc buf\<rparr>))"

text \<open>\<^verbatim>\<open>dbuf_set_data\<close>; the eviction callback of the buffer is outside the model.\<close>

definition dbuf_set_data :: "nat option \<Rightarrow> dbuf_world \<Rightarrow> dbuf_world option" where
  "dbuf_set_data buf w =
     (if buf = None then None
      else Some (db_update (\<lambda>db. db\<lparr>db_buf := buf, db_data := buf\<rparr>) w))"

text \<open>
  \<^verbatim>\<open>dbuf_evict_user\<close>: the user, when there is one, goes to the list of users to
  evict, which the caller processes.
\<close>

definition dbuf_evict_user :: "dbuf_world \<Rightarrow> dbuf_world option" where
  "dbuf_evict_user w =
     (if \<not> dbuf_verify_user (w_db w) True then None
      else Some (db_update (\<lambda>db. db\<lparr>db_user := None\<rparr>) w))"

definition dbuf_clear_data :: "dbuf_world \<Rightarrow> dbuf_world option" where
  "dbuf_clear_data w =
     do {
       w1 \<leftarrow> dbuf_evict_user w;
       Some (db_update (\<lambda>db. db\<lparr>db_buf := None, db_data := None,
           db_state := (if db_state db \<noteq> {DB_NOFILL} then {DB_UNCACHED} else db_state db)\<rparr>) w1)
     }"

text \<open>
  The position of the dirty record of a transaction group in the list: the record a
  pointer such as \<^verbatim>\<open>db_data_pending\<close> points to.
\<close>

fun find_dr :: "dbuf_dirty_record list \<Rightarrow> nat \<Rightarrow> nat option" where
  "find_dr [] txg = None"
| "find_dr (dr # drs) txg =
     (if dr_txg dr = txg then Some 0 else map_option Suc (find_dr drs txg))"

section \<open>Completion of a read\<close>

text \<open>
  \<^verbatim>\<open>dbuf_dirty_record_hole_t\<close>: the pointers \<^verbatim>\<open>src\<close> and \<^verbatim>\<open>dst\<close> are a buffer
  and an offset into its data area.
\<close>

record dbuf_dirty_record_hole =
  hole_src :: "nat \<times> int"
  hole_dst :: "nat \<times> int"
  hole_size :: int

text \<open>
  \<^verbatim>\<open>dbuf_dirty_record_hole_itr_t\<close>.  \<^verbatim>\<open>itr_range\<close> is the list of ranges from the
  current one on, empty for \<^verbatim>\<open>NULL\<close>; \<^verbatim>\<open>itr_dst\<close> is \<^verbatim>\<open>dl->dr_data\<close>.
\<close>

record dbuf_dirty_record_hole_itr =
  itr_src :: nat
  itr_dst :: nat
  itr_range :: "dbuf_dirty_range list"
  itr_max_offset :: int
  itr_hole_start :: int

definition dbuf_dirty_record_hole_itr_init ::
  "dbuf_world \<Rightarrow> dbuf_dirty_range list \<Rightarrow> nat \<Rightarrow> nat \<Rightarrow> dbuf_dirty_record_hole_itr" where
  "dbuf_dirty_record_hole_itr_init w ranges dst src_buf =
     (let max_offset = min (arc_buf_size w src_buf) (arc_buf_size w dst) in
      case ranges of
        [] \<Rightarrow> \<lparr>itr_src = src_buf, itr_dst = dst, itr_range = [],
               itr_max_offset = max_offset, itr_hole_start = max_offset\<rparr>
      | rng # rest \<Rightarrow>
          if range_start rng = 0
          then \<lparr>itr_src = src_buf, itr_dst = dst, itr_range = rest,
                itr_max_offset = max_offset, itr_hole_start = range_size rng\<rparr>
          else \<lparr>itr_src = src_buf, itr_dst = dst, itr_range = rng # rest,
                itr_max_offset = max_offset, itr_hole_start = 0\<rparr>)"

definition dbuf_dirty_record_hole_itr_next ::
  "dbuf_dirty_record_hole_itr \<Rightarrow> dbuf_dirty_record_hole option \<times> dbuf_dirty_record_hole_itr"
  where
  "dbuf_dirty_record_hole_itr_next itr =
     (if itr_hole_start itr \<ge> itr_max_offset itr then (None, itr)
      else
        (case itr_range itr of
           rng # rest \<Rightarrow>
             (Some \<lparr>hole_src = (itr_src itr, itr_hole_start itr),
                    hole_dst = (itr_dst itr, itr_hole_start itr),
                    hole_size = min (itr_max_offset itr) (range_start rng) - itr_hole_start itr\<rparr>,
              itr\<lparr>itr_hole_start := range_end rng, itr_range := rest\<rparr>)
         | [] \<Rightarrow>
             (Some \<lparr>hole_src = (itr_src itr, itr_hole_start itr),
                    hole_dst = (itr_dst itr, itr_hole_start itr),
                    hole_size = itr_max_offset itr - itr_hole_start itr\<rparr>,
              itr\<lparr>itr_hole_start := itr_max_offset itr\<rparr>)))"

text \<open>The loop of \<^verbatim>\<open>dbuf_merge_write_ranges\<close>: a \<^verbatim>\<open>memcpy\<close> for every hole.\<close>

function merge_holes_loop ::
  "dbuf_world \<Rightarrow> dbuf_dirty_record_hole_itr \<Rightarrow> dbuf_world option" where
  "merge_holes_loop w itr =
     (case dbuf_dirty_record_hole_itr_next itr of
        (None, itr') \<Rightarrow> Some w
      | (Some hole, itr') \<Rightarrow>
          (case memcpy (hole_dst hole) (hole_src hole) (hole_size hole) w of
             None \<Rightarrow> None
           | Some w' \<Rightarrow> merge_holes_loop w' itr'))"
  by pat_completeness auto
termination
  by (relation "measure (\<lambda>(w, itr).
        length (itr_range itr) + (if itr_hole_start itr < itr_max_offset itr then 1 else 0))")
     (auto simp: dbuf_dirty_record_hole_itr_next_def split: if_splits list.splits)

declare merge_holes_loop.simps [simp del]

text \<open>
  \<^verbatim>\<open>dbuf_merge_write_ranges\<close> for the dirty record at position \<open>dr\<close> and the older
  buffer \<open>old_buf\<close>.
\<close>

definition dbuf_merge_write_ranges :: "nat \<Rightarrow> nat \<Rightarrow> dbuf_world \<Rightarrow> dbuf_world option" where
  "dbuf_merge_write_ranges dr old_buf w =
     (let dl = db_dirty_records (w_db w) ! dr in
      if write_ranges dl = [] then Some w
      else
        (case dr_data dl of
           None \<Rightarrow> None
         | Some dst \<Rightarrow>
             merge_holes_loop w
               (dbuf_dirty_record_hole_itr_init w (write_ranges dl) dst old_buf)))"

text \<open>
  \<^verbatim>\<open>dbuf_syncer_split\<close> for the dirty record that \<open>syncer_dr\<close> points to.
\<close>

definition dbuf_syncer_split :: "nat option \<Rightarrow> bool \<Rightarrow> dbuf_world \<Rightarrow> dbuf_world option" where
  "dbuf_syncer_split syncer_dr deferred_split w =
     (case syncer_dr of
        None \<Rightarrow> Some w
      | Some txg \<Rightarrow>
          (case find_dr (db_dirty_records (w_db w)) txg of
             None \<Rightarrow> None
           | Some dr \<Rightarrow>
               if DB_NOFILL \<notin> db_state (w_db w) \<and> db_holds (w_db w) > 1 \<and>
                  dr_data (db_dirty_records (w_db w) ! dr) = db_buf (w_db w)
               then
                 (case dbuf_alloc_arcbuf w of
                    (buf, w1) \<Rightarrow>
                      do {
                        w2 \<leftarrow> bcopy (db_data (w_db w1)) (Some buf) (int (db_size (w_db w1))) w1;
                        if deferred_split then dbuf_set_data (Some buf) w2
                        else Some (dr_update dr (\<lambda>r. r\<lparr>dr_data := Some buf\<rparr>) w2)
                      })
               else Some w))"

text \<open>
  The loop of \<^verbatim>\<open>dbuf_resolve_ranges\<close>.  It starts at the tail of the list, the oldest
  dirty record, and follows \<^verbatim>\<open>list_prev\<close>; \<open>n\<close> is the number of records still to
  resolve, so that the current record is at position \<open>n - 1\<close>.
\<close>

fun resolve_ranges_loop :: "nat \<Rightarrow> nat \<Rightarrow> dbuf_world \<Rightarrow> dbuf_world option" where
  "resolve_ranges_loop 0 old_buf w = Some w"
| "resolve_ranges_loop (Suc dr) old_buf w =
     (case dr_data (db_dirty_records (w_db w) ! dr) of
        None \<Rightarrow> None
      | Some data \<Rightarrow>
          do {
            w1 \<leftarrow> dbuf_merge_write_ranges dr old_buf w;
            let w2 = (if Some data \<noteq> db_buf (w_db w1) \<or> DB_FILL \<notin> db_state (w_db w1)
                      then arc_buf_freeze data w1 else w1);
            let w3 = dr_update dr (dbuf_dirty_record_cleanup_ranges (w_db w2)) w2;
            resolve_ranges_loop dr data w3
          })"

definition dbuf_resolve_ranges :: "nat \<Rightarrow> dbuf_world \<Rightarrow> dbuf_world option" where
  "dbuf_resolve_ranges buf w =
     (if db_level (w_db w) \<noteq> 0 then None
      else
        do {
          w1 \<leftarrow> resolve_ranges_loop (length (db_dirty_records (w_db w))) buf w;
          dbuf_syncer_split (db_data_pending (w_db w1)) True w1
        })"

text \<open>
  \<^verbatim>\<open>dbuf_process_buf_sets\<close>: the buffer sets that wait for the dbuf are outside the
  model, the assertion is not.
\<close>

definition dbuf_process_buf_sets :: "int \<Rightarrow> dbuf_world \<Rightarrow> dbuf_world option" where
  "dbuf_process_buf_sets err w =
     (if db_buf (w_db w) \<noteq> None \<or> err \<noteq> 0 then Some w else None)"

definition dbuf_dispatch_override_zio :: "nat option \<Rightarrow> dbuf_world \<Rightarrow> dbuf_world" where
  "dbuf_dispatch_override_zio dr w =
     (case dr of
        None \<Rightarrow> w
      | Some i \<Rightarrow>
          (case dr_override_zio (db_dirty_records (w_db w) ! i) of
             None \<Rightarrow> w
           | Some zio \<Rightarrow>
               dr_update i (\<lambda>r. r\<lparr>dr_override_zio := None\<rparr>) (add_event (Zio_nowait zio) w)))"

text \<open>
  \<^verbatim>\<open>dbuf_read_complete\<close>.  \<^verbatim>\<open>oldest_dr\<close> is the tail of the list of dirty
  records.
\<close>

definition dbuf_read_complete :: "nat \<Rightarrow> bool \<Rightarrow> dbuf_world \<Rightarrow> dbuf_world option" where
  "dbuf_read_complete buf is_hole_read w =
     (let drs = db_dirty_records (w_db w);
          oldest_dr = (if drs = [] then None else Some (length drs - 1)) in
      do {
        w' \<leftarrow>
          (if db_level (w_db w) = 0 \<and> oldest_dr \<noteq> None \<and> \<not> is_hole_read \<and>
              write_ranges (last drs) \<noteq> []
           then
             do {
               w1 \<leftarrow> dbuf_resolve_ranges buf w;
               w2 \<leftarrow>
                 (if db_state (w_db w1) = {DB_READ}
                  then Some (db_update (\<lambda>db. db\<lparr>db_state := {DB_CACHED}\<rparr>) w1)
                  else if DB_READ \<in> db_state (w_db w1)
                  then
                    (if db_state (w_db w1) = {DB_READ, DB_FILL}
                     then Some (db_update (\<lambda>db. db\<lparr>db_state := db_state db - {DB_READ}\<rparr>) w1)
                     else None)
                  else Some w1);
               let w3 = add_event (Arc_discard_buf buf) w2;
               w4 \<leftarrow>
                 (case dr_zio (last (db_dirty_records (w_db w3))) of
                    None \<Rightarrow> Some w3
                  | Some zio \<Rightarrow>
                      if db_data_pending (w_db w3) = Some (dr_txg (last (db_dirty_records (w_db w3))))
                      then Some (add_event (Zio_nowait zio) w3)
                      else None);
               Some (dbuf_dispatch_override_zio oldest_dr w4)
             }
           else if db_state (w_db w) = {DB_READ}
           then
             do {
               w1 \<leftarrow> dbuf_set_data (Some buf) w;
               Some (db_update (\<lambda>db. db\<lparr>db_state := {DB_CACHED}\<rparr>) w1)
             }
           else
             (if (db_state (w_db w) = {DB_CACHED} \<or> db_state (w_db w) = {DB_FILL}) \<and>
                 (db_state (w_db w) \<noteq> {DB_FILL} \<or> db_dirtycnt (w_db w) = 1) \<and>
                 db_buf (w_db w) \<noteq> None
              then Some (add_event (Arc_discard_buf buf) w)
              else None));
        dbuf_process_buf_sets 0 w'
      })"

section \<open>Release of a hold and eviction\<close>

text \<open>
  The assertions of \<^verbatim>\<open>dbuf_verify\<close> on the list of dirty records: the transaction
  groups decrease strictly from the head, and a pending record has no successor.
\<close>

fun dbuf_verify_records :: "nat option \<Rightarrow> dbuf_dirty_record list \<Rightarrow> bool" where
  "dbuf_verify_records pending [] = True"
| "dbuf_verify_records pending [dr] = True"
| "dbuf_verify_records pending (dr # dr_next # drs) =
     (dr_txg dr > dr_txg dr_next \<and> pending \<noteq> Some (dr_txg dr) \<and>
      dbuf_verify_records pending (dr_next # drs))"

text \<open>
  \<^verbatim>\<open>BITMASK_SET(val, bitmask, exceptions)\<close> of \<^verbatim>\<open>dbuf_verify\<close>: no bit of the
  mask is set, or no bit outside the mask and the exceptions.
\<close>

definition BITMASK_SET :: "dbuf_states set \<Rightarrow> dbuf_states set \<Rightarrow> dbuf_states set \<Rightarrow> bool" where
  "BITMASK_SET val bitmask exceptions =
     (val \<inter> bitmask = {} \<or> val - (bitmask \<union> exceptions) = {})"

text \<open>
  Modelled from the spec: \<^verbatim>\<open>DMU_META_DNODE_OBJECT\<close> is declared in
  \<^verbatim>\<open>sys/dmu.h\<close>, which is not among the sources; the spec calls it the meta-dnode
  object, and it is taken to be the object 0.
\<close>

definition DMU_META_DNODE_OBJECT :: nat where
  "DMU_META_DNODE_OBJECT = 0"

text \<open>
  \<^verbatim>\<open>dbuf_verify\<close>, with \<^verbatim>\<open>ZFS_DEBUG_DBUF_VERIFY\<close> set: the result tells whether
  every assertion on the dirty records and on the state holds.  Its assertions on the
  dnode, the parent and the block pointer are outside the model.
\<close>

definition dbuf_verify :: "dmu_buf_impl \<Rightarrow> bool" where
  "dbuf_verify db =
     (dbuf_verify_records (db_data_pending db) (db_dirty_records db) \<and>
      (case db_data_pending db of
         None \<Rightarrow> True
       | Some txg \<Rightarrow>
           (case find_dr (db_dirty_records db) txg of
              None \<Rightarrow> False
            | Some dr \<Rightarrow>
                \<not> (db_level db = 0 \<and> db_object db = DMU_META_DNODE_OBJECT) \<or>
                dr_data (db_dirty_records db ! dr) = db_buf db)) \<and>
      (DB_PARTIAL \<notin> db_state db \<or> db_dirtycnt db = 1) \<and>
      BITMASK_SET (db_state db) {DB_UNCACHED} {} \<and>
      BITMASK_SET (db_state db) {DB_NOFILL} {} \<and>
      BITMASK_SET (db_state db) {DB_CACHED} {} \<and>
      BITMASK_SET (db_state db) {DB_EVICTING} {} \<and>
      BITMASK_SET (db_state db) {DB_PARTIAL} {DB_FILL} \<and>
      BITMASK_SET (db_state db) {DB_READ} {DB_FILL} \<and>
      BITMASK_SET (db_state db) {DB_FILL} {DB_PARTIAL, DB_READ})"

text \<open>
  \<^verbatim>\<open>dbuf_clear\<close>; the dnode, the parent and the eviction of the buffer from the ARC
  are outside the model.
\<close>

definition dbuf_clear :: "dbuf_world \<Rightarrow> dbuf_world option" where
  "dbuf_clear w =
     (if db_holds (w_db w) \<noteq> 0 \<or> db_dirty_records (w_db w) \<noteq> [] then None
      else
        do {
          w1 \<leftarrow> dbuf_evict_user w;
          w2 \<leftarrow>
            (if db_state (w_db w1) = {DB_CACHED}
             then
               (if db_data (w_db w1) = None then None
                else Some (db_update (\<lambda>db. db\<lparr>db_data := None, db_state := {DB_UNCACHED}\<rparr>) w1))
             else Some w1);
          if (db_state (w_db w2) = {DB_UNCACHED} \<or> db_state (w_db w2) = {DB_NOFILL}) \<and>
             db_data_pending (w_db w2) = None
          then Some (db_update (\<lambda>db. db\<lparr>db_state := {DB_EVICTING}\<rparr>) w2)
          else None
        })"

definition dbuf_destroy :: "dbuf_world \<Rightarrow> dbuf_world option" where
  "dbuf_destroy w =
     (if db_holds (w_db w) \<noteq> 0 then None
      else
        (let w1 = db_update (\<lambda>db. db\<lparr>db_buf := None\<rparr>) w in
         if db_data (w_db w1) = None \<and> db_data_pending (w_db w1) = None
         then Some (add_event Dbuf_destroy w1)
         else None))"

definition dbuf_evict :: "dbuf_world \<Rightarrow> dbuf_world option" where
  "dbuf_evict w =
     (if db_buf (w_db w) \<noteq> None \<or> db_data_pending (w_db w) \<noteq> None then None
      else
        do {
          w1 \<leftarrow> dbuf_clear w;
          dbuf_destroy w1
        })"

text \<open>
  \<^verbatim>\<open>dbuf_rele_and_unlock\<close>.  The release of the hold of a bonus dbuf on its dnode
  is outside the model.
\<close>

definition dbuf_rele_and_unlock :: "dbuf_env \<Rightarrow> dbuf_world \<Rightarrow> dbuf_world option" where
  "dbuf_rele_and_unlock env w =
     (if \<not> dbuf_verify (w_db w) \<or> db_holds (w_db w) = 0 then None
      else
        (let holds = db_holds (w_db w) - 1;
             w1 = db_update (\<lambda>db. db\<lparr>db_holds := holds\<rparr>) w;
             w2 = (case db_buf (w_db w1) of
                     None \<Rightarrow> w1
                   | Some buf \<Rightarrow>
                       if db_state (w_db w1) = {DB_CACHED} \<and>
                          holds = (if db_level (w_db w1) = 0 then db_dirtycnt (w_db w1) else 0)
                       then arc_buf_freeze buf w1 else w1)
         in
         do {
           w3 \<leftarrow>
             (if holds = db_dirtycnt (w_db w2) \<and> db_level (w_db w2) = 0 \<and>
                 db_immediate_evict (w_db w2)
              then dbuf_evict_user w2 else Some w2);
           if holds = 0 then
             (if db_blkid (w_db w3) = DMU_BONUS_BLKID then Some w3
              else
                (case db_buf (w_db w3) of
                   None \<Rightarrow>
                     if db_state (w_db w3) = {DB_UNCACHED} \<or> db_state (w_db w3) = {DB_NOFILL}
                     then dbuf_evict w3 else None
                 | Some buf \<Rightarrow>
                     if e_released env then
                       do {
                         w4 \<leftarrow> dbuf_clear_data w3;
                         dbuf_evict (add_event (Arc_buf_remove_ref buf) w4)
                       }
                     else if e_evict env then dbuf_clear w3
                     else Some w3))
           else Some w3
         }))"

section \<open>The read callback\<close>

text \<open>
  \<^verbatim>\<open>dbuf_read_done\<close>.  The zio is \<open>None\<close> for \<^verbatim>\<open>NULL\<close> and \<open>Some e\<close> for a
  zio whose \<^verbatim>\<open>io_error\<close> is \<open>e\<close>.
\<close>

definition dbuf_read_done ::
  "dbuf_env \<Rightarrow> int option \<Rightarrow> nat \<Rightarrow> dbuf_world \<Rightarrow> dbuf_world option" where
  "dbuf_read_done env zio buf w =
     (if db_blkid (w_db w) = DMU_BONUS_BLKID \<or> db_holds (w_db w) = 0 then None
      else
        do {
          w' \<leftarrow>
            (case zio of
               None \<Rightarrow> dbuf_read_complete buf False w
             | Some io_error \<Rightarrow>
                 if io_error = 0 then dbuf_read_complete buf False w
                 else
                   do {
                     w3 \<leftarrow>
                       (if db_dirtycnt (w_db w) > 0 then
                          do {
                            w1 \<leftarrow> bzero (Some buf) (arc_buf_size w buf) w;
                            w2 \<leftarrow> dbuf_read_complete buf False (arc_buf_freeze buf w1);
                            Some (w2\<lparr>dirty_writes_lost := dirty_writes_lost w2 + 1\<rparr>)
                          }
                        else if db_buf (w_db w) \<noteq> None then None
                        else dbuf_process_buf_sets io_error
                               (db_update (\<lambda>db. db\<lparr>db_state := {DB_UNCACHED}\<rparr>) w));
                     Some (add_event (Arc_buf_remove_ref buf) w3)
                   });
          dbuf_rele_and_unlock env w'
        })"

section \<open>Reading a dbuf\<close>

text \<open>
  The flags of \<^verbatim>\<open>dbuf_read\<close> that the code uses; \<^verbatim>\<open>sys/dbuf.h\<close>, which
  defines them as bits of a word, is not among the sources.
\<close>

datatype dbuf_read_flag = DB_RF_MUST_SUCCEED | DB_RF_CANFAIL | DB_RF_HAVESTRUCT
  | DB_RF_NOPREFETCH | DB_RF_NEVERWAIT | DB_RF_CACHED | DB_RF_CACHED_ONLY

text \<open>\<^verbatim>\<open>dbuf_add_ref\<close>, with its assertion that the dbuf was held before.\<close>

definition dbuf_add_ref :: "dbuf_world \<Rightarrow> dbuf_world option" where
  "dbuf_add_ref w =
     (let holds = db_holds (w_db w) + 1 in
      if holds > 1 then Some (db_update (\<lambda>db. db\<lparr>db_holds := holds\<rparr>) w) else None)"

text \<open>
  \<^verbatim>\<open>zio_buf_alloc\<close>: memory of the given size, at an unused address, with whatever
  the memory holds.
\<close>

definition zio_buf_alloc :: "nat \<Rightarrow> dbuf_world \<Rightarrow> nat \<times> dbuf_world" where
  "zio_buf_alloc n w =
     (let buf = w_next w in
      (buf, w\<lparr>w_arc := (w_arc w)(buf :=
               \<lparr>b_data = map (w_junk w buf) [0..<n], b_frozen = False\<rparr>),
             w_next := Suc buf\<rparr>))"

text \<open>
  Modelled from the spec: \<^verbatim>\<open>arc_read\<close> belongs to the ARC, which is not among the
  sources.  The spec (ARC interface) says that the read may return synchronously on a
  cache hit: the callback \<open>done\<close> then runs before \<^verbatim>\<open>arc_read\<close> returns, with a
  frozen buffer that holds the block, and \<^verbatim>\<open>ARC_CACHED\<close> is set, which is the
  result \<open>True\<close>.  On a miss a read with \<^verbatim>\<open>ARC_CACHED_ONLY\<close> does nothing, and
  any other read is issued, the event \<open>Arc_read\<close>; its callback runs when the read
  completes.
\<close>

definition arc_read ::
  "dbuf_env \<Rightarrow> (nat \<Rightarrow> dbuf_world \<Rightarrow> dbuf_world option) \<Rightarrow> bool \<Rightarrow> dbuf_world \<Rightarrow>
     (bool \<times> dbuf_world) option" where
  "arc_read env done cached_only w =
     (case e_arc_cached env of
        Some d \<Rightarrow>
          (let buf = w_next w;
               w1 = w\<lparr>w_arc := (w_arc w)(buf := \<lparr>b_data = d, b_frozen = True\<rparr>),
                      w_next := Suc buf\<rparr>
           in map_option (Pair True) (done buf w1))
      | None \<Rightarrow> Some (False, if cached_only then w else add_event Arc_read w))"

text \<open>
  \<^verbatim>\<open>dbuf_read_bonus\<close>.  The bonus area of the dnode, \<^verbatim>\<open>DN_BONUS(dn->dn_phys)\<close>
  up to \<^verbatim>\<open>bonuslen\<close>, and the constant \<^verbatim>\<open>DN_MAX_BONUSLEN\<close> of
  \<^verbatim>\<open>sys/dnode.h\<close> come from the environment.
\<close>

definition dbuf_read_bonus :: "dbuf_env \<Rightarrow> dbuf_world \<Rightarrow> (bool \<times> dbuf_world) option" where
  "dbuf_read_bonus env w =
     (if db_blkid (w_db w) \<noteq> DMU_BONUS_BLKID then Some (False, w)
      else
        (let bonuslen = length (e_bonus env) in
         if \<not> bonuslen \<le> db_size (w_db w) then None
         else
           (case zio_buf_alloc (e_max_bonuslen env) w of
              (p, w1) \<Rightarrow>
                do {
                  let w2 = db_update (\<lambda>db. db\<lparr>db_data := Some p\<rparr>) w1;
                  w3 \<leftarrow> (if bonuslen < e_max_bonuslen env
                         then bzero (Some p) (int (e_max_bonuslen env)) w2 else Some w2);
                  w4 \<leftarrow> (if bonuslen \<noteq> 0
                         then (if bonuslen \<le> length (b_data (w_arc w3 p))
                               then Some (set_b_data p
                                      (e_bonus env @ drop bonuslen (b_data (w_arc w3 p))) w3)
                               else None)
                         else Some w3);
                  Some (True, db_update (\<lambda>db. db\<lparr>db_state := {DB_CACHED}\<rparr>) w4)
                })))"

text \<open>\<^verbatim>\<open>dbuf_read_hole\<close>.\<close>

definition dbuf_read_hole :: "dbuf_env \<Rightarrow> dbuf_world \<Rightarrow> (bool \<times> dbuf_world) option" where
  "dbuf_read_hole env w =
     (if db_state (w_db w) \<noteq> {DB_UNCACHED} then
        (if db_level (w_db w) = 0 \<and>
            db_state (w_db w) \<inter> {DB_PARTIAL, DB_FILL, DB_READ} \<noteq> {} \<and>
            db_dirtycnt (w_db w) > 0
         then Some (False, w) else None)
      else if e_is_hole env then
        (case dbuf_alloc_arcbuf w of
           (buf, w1) \<Rightarrow>
             do {
               w2 \<leftarrow> bzero (Some buf) (int (db_size (w_db w1))) w1;
               w3 \<leftarrow> dbuf_read_complete buf True
                      (db_update (\<lambda>db. db\<lparr>db_state := {DB_READ}\<rparr>) w2);
               Some (True, w3)
             })
      else Some (False, w))"

text \<open>
  \<^verbatim>\<open>dbuf_read_cached_done\<close>; of its assertion the part on the frozen buffer is in
  the model.
\<close>

definition dbuf_read_cached_done :: "nat option \<Rightarrow> dbuf_world \<Rightarrow> dbuf_world option" where
  "dbuf_read_cached_done buf w =
     (case buf of
        None \<Rightarrow> Some w
      | Some b \<Rightarrow>
          if \<not> b_frozen (w_arc w b) then None
          else dbuf_read_complete b False (db_update (\<lambda>db. db\<lparr>db_state := {DB_READ}\<rparr>) w))"

text \<open>
  \<^verbatim>\<open>dbuf_read_impl\<close>: the flags and the state afterwards.  The callback of the
  read is \<^verbatim>\<open>dbuf_read_done\<close>, which gets a null zio on a hit.
\<close>

definition dbuf_read_impl ::
  "dbuf_env \<Rightarrow> dbuf_read_flag set \<Rightarrow> dbuf_world \<Rightarrow> (dbuf_read_flag set \<times> dbuf_world) option"
  where
  "dbuf_read_impl env flags w =
     (if db_holds (w_db w) = 0 \<or>
         \<not> (db_state (w_db w) = {DB_UNCACHED} \<or> DB_PARTIAL \<in> db_state (w_db w))
      then None
      else
        do {
          (bonus, w1) \<leftarrow> dbuf_read_bonus env w;
          (done, w2) \<leftarrow> (if bonus then Some (True, w1) else dbuf_read_hole env w1);
          if done then Some (insert DB_RF_CACHED flags, w2)
          else if DB_RF_CACHED_ONLY \<in> flags then
            (if db_state (w_db w2) = {DB_UNCACHED} \<and> db_buf (w_db w2) = None \<and>
                db_dirtycnt (w_db w2) = 0
             then
               do {
                 (cached, w3) \<leftarrow> arc_read env (\<lambda>b. dbuf_read_cached_done (Some b)) True w2;
                 Some (if cached then insert DB_RF_CACHED flags else flags, w3)
               }
             else None)
          else
            do {
              w3 \<leftarrow> dbuf_add_ref (db_update (\<lambda>db. db\<lparr>db_state := {DB_READ}\<rparr>) w2);
              (cached, w4) \<leftarrow> arc_read env (dbuf_read_done env None) False w3;
              Some (if cached then insert DB_RF_CACHED flags else flags, w4)
            }
        })"

text \<open>\<^verbatim>\<open>dbuf_read_cached\<close>: whether the ARC had the block.\<close>

definition dbuf_read_cached :: "dbuf_env \<Rightarrow> dbuf_world \<Rightarrow> (bool \<times> dbuf_world) option" where
  "dbuf_read_cached env w =
     do {
       (rflags, w1) \<leftarrow> dbuf_read_impl env {DB_RF_CACHED_ONLY} w;
       Some (DB_RF_CACHED \<in> rflags, w1)
     }"

text \<open>
  \<^verbatim>\<open>dbuf_read\<close> for a caller that passes its own zio, as
  \<^verbatim>\<open>dbuf_transition_to_read\<close> does, so that \<^verbatim>\<open>dbuf_read\<close> does not wait for
  the zio.  The result is the error, \<open>None\<close> for 0, and the state.  A thread that
  waits on \<^verbatim>\<open>db_changed\<close> for a dbuf with \<^verbatim>\<open>DB_READ\<close> or \<^verbatim>\<open>DB_FILL\<close> set is
  not woken in this model of one thread, and the outcome is \<open>None\<close>.  The prefetch
  is outside the model.
\<close>

definition dbuf_read ::
  "dbuf_env \<Rightarrow> dbuf_read_flag set \<Rightarrow> dbuf_world \<Rightarrow> (errno option \<times> dbuf_world) option" where
  "dbuf_read env flags w =
     (if db_holds (w_db w) = 0 then None
      else if db_state (w_db w) = {DB_NOFILL} then Some (Some EIO, w)
      else if db_state (w_db w) = {DB_CACHED} then Some (None, w)
      else if db_state (w_db w) \<inter> {DB_UNCACHED, DB_PARTIAL} \<noteq> {} then
        do {
          (flags', w1) \<leftarrow> dbuf_read_impl env flags w;
          Some (None, w1)
        }
      else if DB_RF_NEVERWAIT \<in> flags then Some (None, w)
      else if db_state (w_db w) \<inter> {DB_READ, DB_FILL} \<noteq> {} then None
      else Some (if db_state (w_db w) = {DB_UNCACHED} then Some EIO else None, w))"

text \<open>
  \<^verbatim>\<open>dbuf_transition_to_read\<close>.  The flag \<^verbatim>\<open>DB_RF_HAVESTRUCT\<close>, which tells
  about a lock of the dnode, is left out; the root zio that collects the read is
  outside the model.
\<close>

definition dbuf_transition_to_read :: "dbuf_env \<Rightarrow> dbuf_world \<Rightarrow> dbuf_world option" where
  "dbuf_transition_to_read env w =
     (if db_state (w_db w) \<inter> {DB_PARTIAL, DB_UNCACHED} = {} then None
      else
        do {
          (err, w1) \<leftarrow> dbuf_read env {DB_RF_MUST_SUCCEED, DB_RF_NOPREFETCH, DB_RF_NEVERWAIT} w;
          Some w1
        })"

section \<open>Freeing a range of blocks\<close>

text \<open>
  Modelled from the spec: \<^verbatim>\<open>dbuf_get_dirty_record_for_txg\<close> is declared in
  \<^verbatim>\<open>sys/dbuf.h\<close>, which is not among the sources.  By its name and its use in
  \<^verbatim>\<open>dbuf_undirty\<close> it is the dirty record of the dbuf for the transaction group,
  and \<^verbatim>\<open>NULL\<close> when the dbuf is not dirty in it; the spec (2) keeps one dirty record
  for each transaction group.
\<close>

definition dbuf_get_dirty_record_for_txg :: "dmu_buf_impl \<Rightarrow> nat \<Rightarrow> nat option" where
  "dbuf_get_dirty_record_for_txg db txg = find_dr (db_dirty_records db) txg"

text \<open>
  \<^verbatim>\<open>dbuf_unoverride\<close> for a dirty record, which it returns updated; the caller
  puts it back when the record is on the list.  The block that \<^verbatim>\<open>zio_free\<close> frees
  is outside the model.
\<close>

definition dbuf_unoverride ::
  "dbuf_dirty_record \<Rightarrow> dbuf_world \<Rightarrow> (dbuf_dirty_record \<times> dbuf_world) option" where
  "dbuf_unoverride dr w =
     (if dr_override_state dr = DR_IN_DMU_SYNC \<or> db_level (w_db w) \<noteq> 0 then None
      else if db_blkid (w_db w) = DMU_BONUS_BLKID \<or> dr_override_state dr = DR_NOT_OVERRIDDEN
      then Some (dr, w)
      else if db_data_pending (w_db w) = Some (dr_txg dr) then None
      else
        (case dr_data dr of
           None \<Rightarrow> None
         | Some buf \<Rightarrow> Some (dr\<lparr>dr_override_state := DR_NOT_OVERRIDDEN\<rparr>, arc_release buf w)))"

text \<open>
  \<^verbatim>\<open>dbuf_undirty\<close>: whether the dbuf was evicted.  The lists of the parent and of
  the dnode that hold the dirty record are outside the model.
\<close>

definition dbuf_undirty :: "dbuf_env \<Rightarrow> nat \<Rightarrow> dbuf_world \<Rightarrow> (bool \<times> dbuf_world) option" where
  "dbuf_undirty env txg w =
     (if txg = 0 \<or> db_blkid (w_db w) = DMU_BONUS_BLKID \<or> db_level (w_db w) \<noteq> 0 then None
      else
        (case dbuf_get_dirty_record_for_txg (w_db w) txg of
           None \<Rightarrow> Some (False, w)
         | Some i \<Rightarrow>
             (let dr = db_dirty_records (w_db w) ! i in
              if dr_txg dr \<noteq> txg \<or> db_holds (w_db w) \<noteq> db_dirtycnt (w_db w) \<or>
                 db_size (w_db w) = 0
              then None
              else
                do {
                  let w1 = db_update (\<lambda>db. db\<lparr>db_dirty_records :=
                             take i (db_dirty_records db) @ drop (Suc i) (db_dirty_records db)\<rparr>) w;
                  w2 \<leftarrow>
                    (if db_state (w_db w1) \<noteq> {DB_NOFILL} then
                       do {
                         (dr', w') \<leftarrow> dbuf_unoverride dr w1;
                         if db_buf (w_db w') = None then None
                         else
                           (case dr_data dr' of
                              None \<Rightarrow> None
                            | Some d \<Rightarrow>
                                Some (if Some d \<noteq> db_buf (w_db w')
                                      then add_event (Arc_buf_remove_ref d) w' else w'))
                       }
                     else Some w1);
                  if db_dirtycnt (w_db w2) = 0 \<or> db_holds (w_db w2) = 0 then None
                  else
                    (let w3 = db_update (\<lambda>db. db\<lparr>db_dirtycnt := db_dirtycnt db - 1,
                                db_holds := db_holds db - 1\<rparr>) w2
                     in if db_holds (w_db w3) = 0 then
                          (let buf = db_buf (w_db w3) in
                           if \<not> (db_state (w_db w3) = {DB_NOFILL} \<or> e_released env) then None
                           else
                             do {
                               w4 \<leftarrow> dbuf_clear_data w3;
                               w5 \<leftarrow> (case buf of None \<Rightarrow> None
                                      | Some b \<Rightarrow> Some (add_event (Arc_buf_remove_ref b) w4));
                               w6 \<leftarrow> dbuf_evict w5;
                               Some (True, w6)
                             })
                        else Some (False, w3))
                })))"

text \<open>
  \<^verbatim>\<open>dbuf_free_range_disassociate_frontend\<close>; \<^verbatim>\<open>dn_maxblkid\<close> is outside the
  model.
\<close>

definition dbuf_free_range_disassociate_frontend ::
  "dbuf_env \<Rightarrow> nat \<Rightarrow> dbuf_world \<Rightarrow> dbuf_world option" where
  "dbuf_free_range_disassociate_frontend env txg w =
     (case db_dirty_records (w_db w) of
        [] \<Rightarrow> Some w
      | dr # older \<Rightarrow>
          if dr_txg dr = txg then
            do {
              (dr', w1) \<leftarrow> dbuf_unoverride dr w;
              Some (dr_update 0 (\<lambda>r. dbuf_dirty_record_cleanup_ranges (w_db w1) dr') w1)
            }
          else
            do {
              w1 \<leftarrow> (if DB_PARTIAL \<in> db_state (w_db w) then dbuf_transition_to_read env w
                     else Some w);
              if dr_data (hd (db_dirty_records (w_db w1))) = db_buf (w_db w1) then
                (case dbuf_alloc_arcbuf w1 of
                   (buf, w2) \<Rightarrow>
                     if db_holds (w_db w2) > db_dirtycnt (w_db w2) then
                       (if db_data_pending (w_db w2) = Some (dr_txg dr) then None
                        else if DB_READ \<in> db_state (w_db w2) then dbuf_set_data (Some buf) w2
                        else
                          do {
                            w3 \<leftarrow> bcopy (db_data (w_db w2)) (Some buf)
                                   (int (db_size (w_db w2))) w2;
                            Some (dr_update 0 (\<lambda>r. r\<lparr>dr_data := Some buf\<rparr>) w3)
                          })
                     else dbuf_set_data (Some buf) w2)
              else Some w1
            })"

text \<open>
  \<^verbatim>\<open>dbuf_free_range_already_freed\<close>, \<^verbatim>\<open>dbuf_free_range_filler_will_free\<close> and
  \<^verbatim>\<open>dbuf_clear_successful\<close>: whether the dbuf is done with.
\<close>

definition dbuf_free_range_already_freed :: "dbuf_world \<Rightarrow> bool option" where
  "dbuf_free_range_already_freed w =
     (if db_state (w_db w) = {DB_UNCACHED} \<or> db_state (w_db w) = {DB_NOFILL} \<or>
         db_state (w_db w) = {DB_EVICTING}
      then (if db_data (w_db w) = None then Some True else None)
      else Some False)"

definition dbuf_free_range_filler_will_free :: "dbuf_world \<Rightarrow> bool \<times> dbuf_world" where
  "dbuf_free_range_filler_will_free w =
     (if DB_FILL \<in> db_state (w_db w)
      then (True, db_update (\<lambda>db. db\<lparr>db_freed_in_flight := True\<rparr>) w)
      else (False, w))"

definition dbuf_clear_successful :: "dbuf_world \<Rightarrow> (bool \<times> dbuf_world) option" where
  "dbuf_clear_successful w =
     (if db_holds (w_db w) = 0 then
        (if db_buf (w_db w) = None then None else map_option (Pair True) (dbuf_clear w))
      else Some (False, w))"

text \<open>
  The body of the loop of \<^verbatim>\<open>dbuf_free_range\<close> for a dbuf of level 0 whose block
  lies in the range that is freed, in the transaction group \<open>txg\<close> of
  \<^verbatim>\<open>tx\<close>: for such a dbuf \<^verbatim>\<open>dbuf_free_range_indirects\<close> returns
  \<^verbatim>\<open>B_FALSE\<close> and \<^verbatim>\<open>IN_RANGE\<close> holds, so that the body runs from
  \<^verbatim>\<open>dbuf_undirty\<close> on.
\<close>

definition dbuf_free_range_leaf :: "dbuf_env \<Rightarrow> nat \<Rightarrow> dbuf_world \<Rightarrow> dbuf_world option" where
  "dbuf_free_range_leaf env txg w =
     (if db_blkid (w_db w) = DMU_BONUS_BLKID then None
      else
        do {
          (evicted, w1) \<leftarrow> dbuf_undirty env txg w;
          if evicted then Some w1
          else
            (let dr = (case db_dirty_records (w_db w1) of
                         [] \<Rightarrow> None
                       | d # older \<Rightarrow> if dr_txg d \<noteq> txg then None else Some 0)
             in if \<not> dbuf_verify (w_db w1) then None
                else
                  do {
                    freed \<leftarrow> dbuf_free_range_already_freed w1;
                    if freed then Some w1
                    else
                      (case dbuf_free_range_filler_will_free w1 of
                         (will_free, w2) \<Rightarrow>
                           if will_free then Some w2
                           else
                             do {
                               (cleared, w3) \<leftarrow> dbuf_clear_successful w2;
                               if cleared then Some w3
                               else
                                 do {
                                   w4 \<leftarrow> dbuf_free_range_disassociate_frontend env txg w3;
                                   w5 \<leftarrow>
                                     (case db_buf (w_db w4) of
                                        None \<Rightarrow>
                                          if db_state (w_db w4) = {DB_READ}
                                          then (case dbuf_alloc_arcbuf w4 of
                                                  (buf, w') \<Rightarrow> dbuf_set_data (Some buf) w')
                                          else None
                                      | Some buf \<Rightarrow> Some (arc_release buf w4));
                                   w6 \<leftarrow> bzero (db_data (w_db w5)) (int (db_size (w_db w5))) w5;
                                   w7 \<leftarrow> (case db_buf (w_db w6) of
                                            None \<Rightarrow> None
                                          | Some buf \<Rightarrow> Some (arc_buf_freeze buf w6));
                                   dbuf_process_buf_sets 0
                                     (db_update (\<lambda>db. db\<lparr>db_state := {DB_CACHED}\<rparr>)
                                        (dbuf_dispatch_override_zio dr w7))
                                 }
                             })
                  })
        })"

section \<open>The end of a fill\<close>

text \<open>
  \<^verbatim>\<open>dbuf_fill_done\<close> in the transaction group \<open>txg\<close> of \<^verbatim>\<open>tx\<close>.  The
  pointer \<^verbatim>\<open>dr\<close> is the head of the list of dirty records.
\<close>

definition dbuf_fill_done :: "nat \<Rightarrow> dbuf_world \<Rightarrow> dbuf_world option" where
  "dbuf_fill_done txg w =
     (if \<not> dbuf_verify (w_db w) then None
      else if DB_FILL \<notin> db_state (w_db w) then Some w
      else
        (case db_dirty_records (w_db w) of
           [] \<Rightarrow> None
         | dr # older \<Rightarrow>
             if dr_txg dr \<noteq> txg \<or> db_data_pending (w_db w) = Some (dr_txg dr) then None
             else if db_freed_in_flight (w_db w) then
               (if db_level (w_db w) \<noteq> 0 \<or> db_blkid (w_db w) = DMU_BONUS_BLKID then None
                else
                  do {
                    w1 \<leftarrow> bzero (db_data (w_db w)) (int (db_size (w_db w))) w;
                    let w2 = db_update (\<lambda>db. db\<lparr>db_freed_in_flight := False\<rparr>) w1;
                    let w3 = dr_update 0 (dbuf_dirty_record_cleanup_ranges (w_db w2)) w2;
                    w4 \<leftarrow> dbuf_process_buf_sets 0
                           (db_update (\<lambda>db. db\<lparr>db_state := {DB_CACHED}\<rparr>) w3);
                    Some (dbuf_dispatch_override_zio (Some 0) w4)
                  })
             else if db_state (w_db w) = {DB_FILL} then
               do {
                 w1 \<leftarrow> dbuf_process_buf_sets 0
                        (db_update (\<lambda>db. db\<lparr>db_state := {DB_CACHED}\<rparr>) w);
                 Some (dbuf_dispatch_override_zio (Some 0) w1)
               }
             else
               (let w1 = db_update (\<lambda>db. db\<lparr>db_state := db_state db - {DB_FILL}\<rparr>) w in
                if db_state (w_db w1) \<inter> {DB_PARTIAL, DB_READ} \<noteq> {} then Some w1 else None)))"

section \<open>Dirtying a dbuf\<close>

text \<open>
  \<^verbatim>\<open>dbuf_dirty_state_t\<close>.  The transaction is its transaction group
  \<^verbatim>\<open>tx->tx_txg\<close>; the pointers \<^verbatim>\<open>insert_pt\<close> and \<^verbatim>\<open>txg_dr\<close> are positions
  in the list of dirty records of the dbuf.  The dnode, the free accounting and the list
  of users to evict are outside the model.
\<close>

record dbuf_dirty_state =
  dds_tx :: nat
  insert_pt :: "nat option"
  txg_dr :: "nat option"
  txg_already_dirty :: bool
  fill_buf :: "nat option"
  dds_offset :: int
  dds_size :: int

text \<open>
  Modelled from the spec: \<^verbatim>\<open>TXG_CONCURRENT_STATES\<close> is declared in
  \<^verbatim>\<open>sys/txg.h\<close>, which is not among the sources; the spec (2) gives the bound
  \<open>dirty_count \<le> TXG_CONCURRENT_STATES\<close>, typically 3.
\<close>

definition TXG_CONCURRENT_STATES :: nat where
  "TXG_CONCURRENT_STATES = 3"

text \<open>
  \<^verbatim>\<open>dbuf_dirty_record_create\<close>: the new record, zeroed by \<^verbatim>\<open>kmem_zalloc\<close> but
  for its transaction group, which is not on the list yet.  In the code
  \<^verbatim>\<open>txg_dr\<close> points to it from here on; in the model \<^verbatim>\<open>txg_dr\<close> is set when
  \<^verbatim>\<open>dbuf_dirty_record_register\<close> gives the record its position.  Of
  \<^verbatim>\<open>dbuf_new_dirty_record_accounting\<close> the assertion on the size of the dbuf is in
  the model.
\<close>

definition dbuf_dirty_record_create ::
  "dbuf_dirty_state \<Rightarrow> dbuf_world \<Rightarrow> dbuf_dirty_record option" where
  "dbuf_dirty_record_create dds w =
     (if \<not> (db_dirty_records (w_db w) = [] \<or>
             dr_txg (hd (db_dirty_records (w_db w))) \<noteq> dds_tx dds) \<or>
         db_size (w_db w) = 0 \<or> txg_dr dds \<noteq> None
      then None
      else Some \<lparr>dr_txg = dds_tx dds, dr_zio = None, dr_override_zio = None, dr_data = None,
                 write_ranges = [], dr_override_state = DR_NOT_OVERRIDDEN\<rparr>)"

text \<open>
  \<^verbatim>\<open>dbuf_dirty_record_register\<close> for the new record \<open>dr\<close>:
  \<^verbatim>\<open>list_insert_after\<close> puts it behind \<^verbatim>\<open>insert_pt\<close>, at the head of the list
  when \<^verbatim>\<open>insert_pt\<close> is \<^verbatim>\<open>NULL\<close>.
\<close>

definition dbuf_dirty_record_register ::
  "dbuf_dirty_state \<Rightarrow> dbuf_dirty_record \<Rightarrow> dbuf_world \<Rightarrow> (dbuf_dirty_state \<times> dbuf_world) option"
  where
  "dbuf_dirty_record_register dds dr w =
     (let pos = (case insert_pt dds of None \<Rightarrow> 0 | Some i \<Rightarrow> Suc i);
          w1 = db_update (\<lambda>db. db\<lparr>db_dirty_records :=
                 take pos (db_dirty_records db) @ dr # drop pos (db_dirty_records db)\<rparr>) w
      in
      do {
        w2 \<leftarrow> dbuf_add_ref w1;
        let w3 = db_update (\<lambda>db. db\<lparr>db_dirtycnt := db_dirtycnt db + 1\<rparr>) w2;
        if db_dirtycnt (w_db w3) \<le> TXG_CONCURRENT_STATES
        then Some (dds\<lparr>txg_dr := Some pos\<rparr>, w3) else None
      })"

definition dbuf_dirty_record_create_indirect ::
  "dbuf_dirty_state \<Rightarrow> dbuf_world \<Rightarrow> (dbuf_dirty_state \<times> dbuf_world) option" where
  "dbuf_dirty_record_create_indirect dds w =
     do {
       dr \<leftarrow> dbuf_dirty_record_create dds w;
       dbuf_dirty_record_register dds dr w
     }"

text \<open>\<^verbatim>\<open>dbuf_dirty_record_update_leaf\<close> for a dirty record, which it returns.\<close>

definition dbuf_dirty_record_update_leaf ::
  "dmu_buf_impl \<Rightarrow> dbuf_dirty_record \<Rightarrow> dbuf_dirty_record" where
  "dbuf_dirty_record_update_leaf db dr =
     (if db_blkid db = DMU_BONUS_BLKID then dr\<lparr>dr_data := db_data db\<rparr>
      else dr\<lparr>dr_data := db_buf db\<rparr>)"

definition dbuf_dirty_record_register_as_leaf ::
  "dbuf_dirty_state \<Rightarrow> dbuf_dirty_record \<Rightarrow> dbuf_world \<Rightarrow> (dbuf_dirty_state \<times> dbuf_world) option"
  where
  "dbuf_dirty_record_register_as_leaf dds dr w =
     dbuf_dirty_record_register dds
       ((dbuf_dirty_record_update_leaf (w_db w) dr)\<lparr>write_ranges := []\<rparr>) w"

definition dbuf_dirty_record_create_nofill ::
  "dbuf_dirty_state \<Rightarrow> dbuf_world \<Rightarrow> (dbuf_dirty_state \<times> dbuf_world) option" where
  "dbuf_dirty_record_create_nofill dds w =
     do {
       dr \<leftarrow> dbuf_dirty_record_create dds w;
       dbuf_dirty_record_register_as_leaf dds dr w
     }"

text \<open>
  \<^verbatim>\<open>dbuf_dirty_verify\<close>, as compiled with \<^verbatim>\<open>ZFS_DEBUG\<close>: whether its
  assertions on the transaction group, the holds and the newest dirty record hold.  Its
  assertions on the transaction and on the syncing context are outside the model.
\<close>

definition dbuf_dirty_verify :: "dmu_buf_impl \<Rightarrow> nat \<Rightarrow> bool" where
  "dbuf_dirty_verify db txg =
     (txg \<noteq> 0 \<and> db_holds db \<noteq> 0 \<and>
      (db_dirty_records db = [] \<or> dr_txg (hd (db_dirty_records db)) \<le> txg \<or>
       db_object db = DMU_META_DNODE_OBJECT))"

text \<open>\<^verbatim>\<open>dbuf_dirty_enter\<close>: the state, set to zero but for the transaction.\<close>

definition dbuf_dirty_enter :: "nat \<Rightarrow> dbuf_dirty_state" where
  "dbuf_dirty_enter txg =
     \<lparr>dds_tx = txg, insert_pt = None, txg_dr = None, txg_already_dirty = False,
      fill_buf = None, dds_offset = 0, dds_size = 0\<rparr>"

text \<open>
  The loop of \<^verbatim>\<open>dbuf_dirty_compute_state\<close> over the dirty records from the
  position \<open>i\<close> on: the final \<^verbatim>\<open>insert_pt\<close> and the final \<^verbatim>\<open>dr\<close>, the first
  record whose transaction group is not newer than the one of the transaction.
\<close>

fun insert_pt_loop ::
  "dbuf_dirty_record list \<Rightarrow> nat \<Rightarrow> nat \<Rightarrow> nat option \<Rightarrow> nat option \<times> nat option" where
  "insert_pt_loop [] txg i ip = (ip, None)"
| "insert_pt_loop (dr # drs) txg i ip =
     (if dr_txg dr > txg then insert_pt_loop drs txg (Suc i) (Some i) else (ip, Some i))"

text \<open>
  \<^verbatim>\<open>dbuf_dirty_compute_state\<close>.  A thread that finds \<^verbatim>\<open>DB_FILL\<close> set waits on
  \<^verbatim>\<open>db_changed\<close>; in this model of one thread it is not woken, and the outcome is
  \<open>None\<close>, as it is when an assertion fails.
\<close>

definition dbuf_dirty_compute_state ::
  "dbuf_dirty_state \<Rightarrow> dbuf_world \<Rightarrow> dbuf_dirty_state option" where
  "dbuf_dirty_compute_state dds w =
     (let db = w_db w; drs = db_dirty_records db in
      if DB_FILL \<in> db_state db then None
      else if \<not> dbuf_dirty_verify db (dds_tx dds) then None
      else if \<not> (drs = [] \<or> dr_txg (hd drs) \<le> dds_tx dds \<or>
                 db_object db = DMU_META_DNODE_OBJECT)
      then None
      else
        (case insert_pt_loop drs (dds_tx dds) 0 None of
           (ip, dr) \<Rightarrow>
             (let dds1 = dds\<lparr>insert_pt := ip\<rparr>;
                  dds2 = (case dr of
                            None \<Rightarrow> dds1
                          | Some i \<Rightarrow>
                              if dr_txg (drs ! i) = dds_tx dds then dds1\<lparr>txg_dr := Some i\<rparr>
                              else dds1)
              in Some (dds2\<lparr>txg_already_dirty := (txg_dr dds2 \<noteq> None)\<rparr>))))"

text \<open>
  \<^verbatim>\<open>dbuf_dirty_exit\<close>: its assertions.  The free accounting and the dirtying of
  the parent are outside the model.
\<close>

definition dbuf_dirty_exit :: "dbuf_dirty_state \<Rightarrow> dbuf_world \<Rightarrow> dbuf_world option" where
  "dbuf_dirty_exit dds w =
     (let db = w_db w;
          front = (if db_blkid db = DMU_BONUS_BLKID then db_data db else db_buf db) in
      case txg_dr dds of
        None \<Rightarrow> None
      | Some i \<Rightarrow>
          if i < length (db_dirty_records db) \<and>
             (db_level db \<noteq> 0 \<or> dr_data (db_dirty_records db ! i) = front) \<and>
             dr_txg (db_dirty_records db ! i) = dds_tx dds
          then Some w else None)"

text \<open>
  \<^verbatim>\<open>dbuf_unoverride\<close> for the dirty record at the position \<^verbatim>\<open>txg_dr\<close>.
\<close>

definition dbuf_unoverride_txg_dr :: "dbuf_dirty_state \<Rightarrow> dbuf_world \<Rightarrow> dbuf_world option" where
  "dbuf_unoverride_txg_dr dds w =
     (case txg_dr dds of
        None \<Rightarrow> None
      | Some i \<Rightarrow>
          do {
            (dr', w1) \<leftarrow> dbuf_unoverride (db_dirty_records (w_db w) ! i) w;
            Some (dr_update i (\<lambda>r. dr') w1)
          })"

text \<open>\<^verbatim>\<open>dbuf_dirty_nofill\<close>: the position of the dirty record and the state.\<close>

definition dbuf_dirty_nofill :: "nat \<Rightarrow> dbuf_world \<Rightarrow> (nat option \<times> dbuf_world) option" where
  "dbuf_dirty_nofill txg w =
     (if db_level (w_db w) \<noteq> 0 \<or> db_blkid (w_db w) = DMU_BONUS_BLKID \<or>
         db_state (w_db w) \<inter> {DB_UNCACHED, DB_NOFILL, DB_CACHED} = {}
      then None
      else
        do {
          let dds = dbuf_dirty_enter txg;
          w1 \<leftarrow> dbuf_clear_data (db_update (\<lambda>db. db\<lparr>db_state := {DB_NOFILL}\<rparr>) w);
          dds1 \<leftarrow> dbuf_dirty_compute_state dds w1;
          (dds2, w2) \<leftarrow>
            (if txg_already_dirty dds1
             then map_option (Pair dds1) (dbuf_unoverride_txg_dr dds1 w1)
             else dbuf_dirty_record_create_nofill dds1 w1);
          w3 \<leftarrow> dbuf_dirty_exit dds2 w2;
          Some (txg_dr dds2, w3)
        })"

text \<open>\<^verbatim>\<open>dbuf_dirty_indirect\<close>.\<close>

definition dbuf_dirty_indirect :: "nat \<Rightarrow> dbuf_world \<Rightarrow> (nat option \<times> dbuf_world) option" where
  "dbuf_dirty_indirect txg w =
     do {
       let dds = dbuf_dirty_enter txg;
       dds1 \<leftarrow> dbuf_dirty_compute_state dds w;
       (dds2, w2) \<leftarrow>
         (if \<not> txg_already_dirty dds1 then dbuf_dirty_record_create_indirect dds1 w
          else Some (dds1, w));
       w3 \<leftarrow> dbuf_dirty_exit dds2 w2;
       Some (txg_dr dds2, w3)
     }"

text \<open>\<^verbatim>\<open>dbuf_dirty_set_data\<close>.\<close>

definition dbuf_dirty_set_data :: "dbuf_dirty_state \<Rightarrow> dbuf_world \<Rightarrow> dbuf_world option" where
  "dbuf_dirty_set_data dds w =
     (case fill_buf dds of
        None \<Rightarrow> (case dbuf_alloc_arcbuf w of (buf, w1) \<Rightarrow> dbuf_set_data (Some buf) w1)
      | Some buf \<Rightarrow> dbuf_set_data (Some buf) w)"

text \<open>
  \<^verbatim>\<open>dbuf_dirty_leaf_with_existing_frontend\<close>, which is called with a frontend; its
  assertions on \<^verbatim>\<open>arc_released\<close> are outside the model.
\<close>

definition dbuf_dirty_leaf_with_existing_frontend ::
  "dbuf_dirty_state \<Rightarrow> dbuf_world \<Rightarrow> dbuf_world option" where
  "dbuf_dirty_leaf_with_existing_frontend dds w =
     (let db = w_db w;
          sz = int (db_size db);
          drs = db_dirty_records db;
          old_txg_is_frontend =
            (\<not> txg_already_dirty dds \<and> drs \<noteq> [] \<and> dr_data (hd drs) = db_buf db)
      in
      if \<not> (fill_buf dds = None \<or> fill_buf dds \<noteq> db_buf db) \<or>
         \<not> db_holds db > db_dirtycnt db
      then None
      else
        (case db_buf db of
           None \<Rightarrow> None
         | Some front \<Rightarrow>
             do {
               w1 \<leftarrow> (if txg_already_dirty dds then dbuf_unoverride_txg_dr dds w else Some w);
               if old_txg_is_frontend then
                 (if db_data_pending (w_db w1) = Some (dr_txg (hd drs)) then
                    (if db_state (w_db w1) \<inter> {DB_READ, DB_PARTIAL} \<noteq> {} \<and>
                        db_dirtycnt (w_db w1) = 1
                     then dbuf_dirty_set_data dds w1 else None)
                  else
                    (case dbuf_alloc_arcbuf w1 of
                       (buf, w2) \<Rightarrow>
                         do {
                           let w3 = dr_update 0 (\<lambda>r. r\<lparr>dr_data := Some buf\<rparr>) w2;
                           w4 \<leftarrow> bcopy (db_data (w_db w3)) (Some buf) sz w3;
                           let w5 = arc_release front w4;
                           (case fill_buf dds of
                              None \<Rightarrow> Some w5
                            | Some fb \<Rightarrow>
                                do {
                                  w6 \<leftarrow> bcopy (Some fb) (db_data (w_db w5)) sz w5;
                                  Some (add_event (Arc_buf_remove_ref fb) w6)
                                })
                         }))
               else
                 (case fill_buf dds of
                    Some fb \<Rightarrow>
                      do {
                        w2 \<leftarrow> bcopy (Some fb) (db_data (w_db w1)) sz (arc_release front w1);
                        Some (add_event (Arc_buf_remove_ref fb) w2)
                      }
                  | None \<Rightarrow>
                      if txg_already_dirty dds then Some (arc_buf_thaw front w1)
                      else Some (arc_release front w1))
             }))"

text \<open>\<^verbatim>\<open>dbuf_dirty_record_create_leaf\<close>; the dnode is outside the model.\<close>

definition dbuf_dirty_record_create_leaf ::
  "dbuf_dirty_state \<Rightarrow> dbuf_world \<Rightarrow> (dbuf_dirty_state \<times> dbuf_world) option" where
  "dbuf_dirty_record_create_leaf dds w =
     do {
       dr \<leftarrow> dbuf_dirty_record_create dds w;
       let w1 = (if db_blkid (w_db w) \<noteq> DMU_SPILL_BLKID
                 then db_update (\<lambda>db. db\<lparr>db_freed_in_flight := False\<rparr>) w else w);
       dbuf_dirty_record_register_as_leaf dds dr w1
     }"

text \<open>
  \<^verbatim>\<open>dbuf_dirty_leaf_common\<close>.  Of its assertion on the frontend the part that
  the buffer is not frozen is in the model.
\<close>

definition dbuf_dirty_leaf_common ::
  "dbuf_dirty_state \<Rightarrow> dbuf_world \<Rightarrow> (dbuf_dirty_state \<times> dbuf_world) option" where
  "dbuf_dirty_leaf_common dds w =
     do {
       w1 \<leftarrow> (if db_buf (w_db w) = None then dbuf_dirty_set_data dds w
              else dbuf_dirty_leaf_with_existing_frontend dds w);
       front \<leftarrow> db_buf (w_db w1);
       (dds2, w2) \<leftarrow>
         (if b_frozen (w_arc w1 front) then None
          else if \<not> txg_already_dirty dds then dbuf_dirty_record_create_leaf dds w1
          else
            (case txg_dr dds of
               None \<Rightarrow> None
             | Some i \<Rightarrow> Some (dds, dr_update i (dbuf_dirty_record_update_leaf (w_db w1)) w1)));
       if db_state (w_db w2) \<noteq> {DB_CACHED} then
         (case txg_dr dds2 of
            None \<Rightarrow> None
          | Some i \<Rightarrow>
              do {
                db' \<leftarrow> dbuf_dirty_record_add_range (w_db w2) i (dds_offset dds2) (dds_size dds2);
                Some (dds2, w2\<lparr>w_db := db'\<rparr>)
              })
       else Some (dds2, w2)
     }"

text \<open>
  \<^verbatim>\<open>dbuf_dirty_record_create_bonus\<close>; the buffers of a bonus dbuf come from
  \<^verbatim>\<open>zio_buf_alloc\<close>.
\<close>

definition dbuf_dirty_record_create_bonus ::
  "dbuf_env \<Rightarrow> dbuf_dirty_state \<Rightarrow> dbuf_world \<Rightarrow> (dbuf_dirty_state \<times> dbuf_world) option" where
  "dbuf_dirty_record_create_bonus env dds w =
     (let drs = db_dirty_records (w_db w);
          last_txg_is_frontend = (drs \<noteq> [] \<and> dr_data (hd drs) = db_data (w_db w)) in
      do {
        w1 \<leftarrow>
          (if last_txg_is_frontend then
             (case zio_buf_alloc (e_max_bonuslen env) w of
                (p, w') \<Rightarrow>
                  bcopy (db_data (w_db w')) (Some p) (int (e_max_bonuslen env))
                    (dr_update 0 (\<lambda>r. r\<lparr>dr_data := Some p\<rparr>) w'))
           else Some w);
        dr \<leftarrow> dbuf_dirty_record_create dds w1;
        dbuf_dirty_record_register_as_leaf dds dr w1
      })"

text \<open>\<^verbatim>\<open>dbuf_dirty_mdn_object\<close>.\<close>

definition dbuf_dirty_mdn_object :: "nat \<Rightarrow> dbuf_world \<Rightarrow> (nat option \<times> dbuf_world) option" where
  "dbuf_dirty_mdn_object txg w =
     (if db_level (w_db w) \<noteq> 0 \<or> db_blkid (w_db w) = DMU_BONUS_BLKID then None
      else
        do {
          let dds = dbuf_dirty_enter txg;
          dds1 \<leftarrow> dbuf_dirty_compute_state dds w;
          w1 \<leftarrow> (if db_buf (w_db w) = None
                 then (case dbuf_alloc_arcbuf w of (buf, w') \<Rightarrow> dbuf_set_data (Some buf) w')
                 else Some w);
          (dds2, w2) \<leftarrow>
            (if txg_already_dirty dds1
             then map_option (Pair dds1) (dbuf_unoverride_txg_dr dds1 w1)
             else dbuf_dirty_record_create_leaf dds1 w1);
          w3 \<leftarrow> dbuf_dirty_exit dds2 w2;
          Some (txg_dr dds2, w3)
        })"

text \<open>\<^verbatim>\<open>dbuf_dirty_bonus\<close>.\<close>

definition dbuf_dirty_bonus ::
  "dbuf_env \<Rightarrow> nat \<Rightarrow> dbuf_world \<Rightarrow> (nat option \<times> dbuf_world) option" where
  "dbuf_dirty_bonus env txg w =
     (if db_blkid (w_db w) \<noteq> DMU_BONUS_BLKID \<or> db_state (w_db w) \<noteq> {DB_CACHED} then None
      else
        do {
          let dds = dbuf_dirty_enter txg;
          dds1 \<leftarrow> dbuf_dirty_compute_state dds w;
          (dds2, w2) \<leftarrow>
            (if \<not> txg_already_dirty dds1 then dbuf_dirty_record_create_bonus env dds1 w
             else Some (dds1, w));
          w3 \<leftarrow> dbuf_dirty_exit dds2 w2;
          Some (txg_dr dds2, w3)
        })"

text \<open>
  \<^verbatim>\<open>dbuf_dirty_handle_fault\<close>.  The offset and the size are of the C type
  \<^verbatim>\<open>int\<close>; they are integers here, and their sum is taken not to overflow.
\<close>

definition dbuf_dirty_handle_fault ::
  "dbuf_env \<Rightarrow> dbuf_dirty_state \<Rightarrow> dbuf_world \<Rightarrow> dbuf_world option" where
  "dbuf_dirty_handle_fault env dds w =
     (if db_level (w_db w) \<noteq> 0 then None
      else if DB_PARTIAL \<in> db_state (w_db w) then
        (case db_dirty_records (w_db w) of
           [] \<Rightarrow> None
         | dr # older \<Rightarrow>
             if dr_txg dr \<noteq> dds_tx dds then dbuf_transition_to_read env w else Some w)
      else if db_state (w_db w) = {DB_UNCACHED} then
        (let write_end = dds_offset dds + dds_size dds in
         if dds_offset dds \<noteq> 0 \<and> write_end \<noteq> int (db_size (w_db w))
         then dbuf_transition_to_read env w
         else if dds_size dds \<noteq> int (db_size (w_db w))
         then map_option snd (dbuf_read_cached env w)
         else Some w)
      else Some w)"

text \<open>\<^verbatim>\<open>dbuf_dirty_leaf_enter\<close>.\<close>

definition dbuf_dirty_leaf_enter ::
  "dbuf_env \<Rightarrow> nat \<Rightarrow> int \<Rightarrow> int \<Rightarrow> dbuf_world \<Rightarrow> (dbuf_dirty_state \<times> dbuf_world) option" where
  "dbuf_dirty_leaf_enter env txg offset sz w =
     (let dds = (dbuf_dirty_enter txg)\<lparr>dds_offset := offset, dds_size := sz\<rparr> in
      do {
        w1 \<leftarrow> dbuf_dirty_handle_fault env dds w;
        dds1 \<leftarrow> dbuf_dirty_compute_state dds w1;
        Some (dds1, w1)
      })"

text \<open>\<^verbatim>\<open>dbuf_dirty_leaf\<close>: the position of the dirty record and the state.\<close>

definition dbuf_dirty_leaf ::
  "dbuf_env \<Rightarrow> nat \<Rightarrow> int \<Rightarrow> int \<Rightarrow> dbuf_world \<Rightarrow> (nat option \<times> dbuf_world) option" where
  "dbuf_dirty_leaf env txg offset sz w =
     (if db_object (w_db w) = DMU_META_DNODE_OBJECT \<or> db_blkid (w_db w) = DMU_BONUS_BLKID \<or>
         db_level (w_db w) \<noteq> 0
      then None
      else
        do {
          (dds, w1) \<leftarrow> dbuf_dirty_leaf_enter env txg offset sz w;
          let w2 = (if db_state (w_db w1) = {DB_UNCACHED}
                    then db_update (\<lambda>db. db\<lparr>db_state := {DB_PARTIAL, DB_FILL}\<rparr>) w1
                    else if db_state (w_db w1) \<inter> {DB_READ, DB_PARTIAL} \<noteq> {}
                    then db_update (\<lambda>db. db\<lparr>db_state := db_state db \<union> {DB_FILL}\<rparr>) w1
                    else w1);
          (dds3, w3) \<leftarrow> dbuf_dirty_leaf_common dds w2;
          w4 \<leftarrow> dbuf_dirty_exit dds3 w3;
          Some (txg_dr dds3, w4)
        })"

text \<open>\<^verbatim>\<open>dbuf_dirty_with_arcbuf\<close> for the filled buffer \<open>buf\<close>.\<close>

definition dbuf_dirty_with_arcbuf ::
  "dbuf_env \<Rightarrow> nat \<Rightarrow> nat \<Rightarrow> dbuf_world \<Rightarrow> (nat option \<times> dbuf_world) option" where
  "dbuf_dirty_with_arcbuf env txg buf w =
     (if db_level (w_db w) \<noteq> 0 then None
      else
        do {
          (dds, w1) \<leftarrow> dbuf_dirty_leaf_enter env txg 0 (int (db_size (w_db w))) w;
          let dds1 = dds\<lparr>fill_buf := Some buf\<rparr>;
          let w2 = (if db_state (w_db w1) \<noteq> {DB_CACHED}
                    then db_update (\<lambda>db. db\<lparr>db_state := {DB_FILL}\<rparr>) w1 else w1);
          (dds3, w3) \<leftarrow> dbuf_dirty_leaf_common dds1 w2;
          w4 \<leftarrow> dbuf_dirty_exit dds3 w3;
          Some (txg_dr dds3, w4)
        })"

text \<open>\<^verbatim>\<open>dbuf_dirty\<close>, the dispatcher.\<close>

definition dbuf_dirty :: "dbuf_env \<Rightarrow> nat \<Rightarrow> dbuf_world \<Rightarrow> (nat option \<times> dbuf_world) option" where
  "dbuf_dirty env txg w =
     (if db_blkid (w_db w) = DMU_BONUS_BLKID then dbuf_dirty_bonus env txg w
      else if db_level (w_db w) = 0 then
        (if db_object (w_db w) = DMU_META_DNODE_OBJECT then dbuf_dirty_mdn_object txg w
         else dbuf_dirty_leaf env txg 0 (int (db_size (w_db w))) w)
      else dbuf_dirty_indirect txg w)"

section \<open>What the resolve is to compute\<close>

text \<open>
  The inverse merge in the words of the spec: the bytes of the older buffer go to the
  holes of the newer buffer, the regions that its write ranges do not cover.  The copy
  ends where the shorter of the two buffers ends.
\<close>

definition inverse_merge ::
  "byte list \<Rightarrow> byte list \<Rightarrow> dbuf_dirty_range list \<Rightarrow> byte list" where
  "inverse_merge old new rs =
     map (\<lambda>i. if i < min (length old) (length new) \<and> \<not> in_ranges rs (int i)
               then old ! i else new ! i) [0..<length new]"

text \<open>
  The inverse merge as the code has it: a dirty record without write ranges has a
  buffer that is valid as a whole, and nothing is copied into it.
\<close>

definition fill_holes ::
  "byte list \<Rightarrow> byte list \<Rightarrow> dbuf_dirty_range list \<Rightarrow> byte list" where
  "fill_holes old new rs = (if rs = [] then new else inverse_merge old new rs)"

text \<open>
  The buffers of the dirty records after the resolve, newest first as in the list of
  the dbuf.  The oldest record is filled from the buffer that was read, every other
  record from the resolved buffer of the next older record.
\<close>

fun resolved :: "byte list \<Rightarrow> (byte list \<times> dbuf_dirty_range list) list \<Rightarrow> byte list list" where
  "resolved old [] = []"
| "resolved old (x # xs) =
     (let ys = resolved old xs
      in fill_holes (if xs = [] then old else hd ys) (fst x) (snd x) # ys)"

text \<open>The same with the inverse merge of the spec for every record.\<close>

fun resolved_as_claimed ::
  "byte list \<Rightarrow> (byte list \<times> dbuf_dirty_range list) list \<Rightarrow> byte list list" where
  "resolved_as_claimed old [] = []"
| "resolved_as_claimed old (x # xs) =
     (let ys = resolved_as_claimed old xs
      in inverse_merge (if xs = [] then old else hd ys) (fst x) (snd x) # ys)"

text \<open>
  A dirty record that the resolve can work on: it has a buffer and its write ranges
  are well formed and pass \<^verbatim>\<open>dbuf_dirty_record_check_ranges\<close>.
\<close>

definition dr_ok :: "dbuf_dirty_record \<Rightarrow> bool" where
  "dr_ok dr =
     (dr_data dr \<noteq> None \<and> list_all range_wf (write_ranges dr) \<and>
      dbuf_dirty_record_check_ranges (write_ranges dr))"

text \<open>The bytes of the buffer of a dirty record, and of all dirty records of the dbuf.\<close>

definition dr_content :: "dbuf_world \<Rightarrow> dbuf_dirty_record \<Rightarrow> byte list" where
  "dr_content w dr = b_data (w_arc w (the (dr_data dr)))"

definition dr_contents :: "dbuf_world \<Rightarrow> byte list list" where
  "dr_contents w = map (dr_content w) (db_dirty_records (w_db w))"

text \<open>
  The fields of a dbuf other than the list of dirty records, the state and the
  pointers to the frontend.
\<close>

definition db_frame :: "dmu_buf_impl \<Rightarrow> dmu_buf_impl" where
  "db_frame db = db\<lparr>db_dirty_records := [], db_state := {}, db_buf := None, db_data := None\<rparr>"

text \<open>
  The transaction groups of the dirty records of the dbuf, in the order of the list:
  the newest first.
\<close>

definition dirty_txgs :: "dbuf_world \<Rightarrow> nat list" where
  "dirty_txgs w = map dr_txg (db_dirty_records (w_db w))"

section \<open>Example states\<close>

text \<open>
  A leaf dbuf of 4096 bytes, dirty in transaction group 1, whose dirty record holds
  the write ranges [10, 20) and [30, 40).
\<close>

definition ex_partial_db :: dmu_buf_impl where
  "ex_partial_db =
     \<lparr>db_object = 42, db_size = 4096, db_level = 0, db_blkid = 7,
      db_state = {DB_PARTIAL, DB_FILL}, db_holds = 2, db_buf = Some 1, db_data = Some 1,
      db_dirty_records =
        [\<lparr>dr_txg = 1, dr_zio = None, dr_override_zio = None, dr_data = Some 1,
          write_ranges = [\<lparr>range_start = 10, range_size = 10, range_end = 20\<rparr>,
                          \<lparr>range_start = 30, range_size = 10, range_end = 40\<rparr>],
          dr_override_state = DR_NOT_OVERRIDDEN\<rparr>],
      db_data_pending = None, db_dirtycnt = 1, db_freed_in_flight = False,
      db_user = None, db_immediate_evict = False\<rparr>"

text \<open>A cached leaf dbuf that is held once and has no user.\<close>

definition ex_cached_db :: dmu_buf_impl where
  "ex_cached_db =
     \<lparr>db_object = 42, db_size = 4096, db_level = 0, db_blkid = 7,
      db_state = {DB_CACHED}, db_holds = 1, db_buf = Some 1, db_data = Some 1,
      db_dirty_records = [], db_data_pending = None, db_dirtycnt = 0,
      db_freed_in_flight = False, db_user = None, db_immediate_evict = False\<rparr>"

text \<open>
  A leaf dbuf of 8 bytes for which a read is in flight.  It is dirty in the transaction
  groups 2 and 1.  The record of group 1, which the syncer has taken with a deferred
  write zio 5 and which has the deferred override zio 6, holds the bytes [2, 4) in the
  buffer 1; the record of group 2 holds the bytes [0, 1) and [5, 6) in the buffer 2,
  the frontend.  The buffer 3 is the one that is read.
\<close>

definition ex_read_world :: dbuf_world where
  "ex_read_world =
     \<lparr>w_db =
        \<lparr>db_object = 42, db_size = 8, db_level = 0, db_blkid = 7,
         db_state = {DB_READ}, db_holds = 3, db_buf = Some 2, db_data = Some 2,
         db_dirty_records =
           [\<lparr>dr_txg = 2, dr_zio = None, dr_override_zio = None, dr_data = Some 2,
             write_ranges = [\<lparr>range_start = 0, range_size = 1, range_end = 1\<rparr>,
                             \<lparr>range_start = 5, range_size = 1, range_end = 6\<rparr>],
             dr_override_state = DR_NOT_OVERRIDDEN\<rparr>,
            \<lparr>dr_txg = 1, dr_zio = Some 5, dr_override_zio = Some 6, dr_data = Some 1,
             write_ranges = [\<lparr>range_start = 2, range_size = 2, range_end = 4\<rparr>],
             dr_override_state = DR_NOT_OVERRIDDEN\<rparr>],
         db_data_pending = Some 1, db_dirtycnt = 2, db_freed_in_flight = False,
         db_user = None, db_immediate_evict = False\<rparr>,
      w_arc = (\<lambda>a. \<lparr>b_data = [], b_frozen = False\<rparr>)
        (1 := \<lparr>b_data = [1, 1, 1, 1, 1, 1, 1, 1], b_frozen = False\<rparr>,
         2 := \<lparr>b_data = [2, 2, 2, 2, 2, 2, 2, 2], b_frozen = False\<rparr>,
         3 := \<lparr>b_data = [9, 9, 9, 9, 9, 9, 9, 9], b_frozen = True\<rparr>),
      w_next = 4, w_junk = (\<lambda>a i. 0), w_events = [], dirty_writes_lost = 0\<rparr>"

text \<open>The same with a record of group 2 that has no write range: a full overwrite.\<close>

definition ex_read_world_full :: dbuf_world where
  "ex_read_world_full =
     dr_update 0 (\<lambda>dr. dr\<lparr>write_ranges := []\<rparr>) ex_read_world"

text \<open>The same with a filler at work on the frontend.\<close>

definition ex_read_world_fill :: dbuf_world where
  "ex_read_world_fill =
     db_update (\<lambda>db. db\<lparr>db_state := {DB_READ, DB_FILL}\<rparr>) ex_read_world"

text \<open>
  A leaf dbuf of 8 bytes that a filler holds and fills in the transaction group 5: the
  dirty record of this group, with the deferred override zio 9, has the write range
  [0, 4) in the buffer 1, the frontend.
\<close>

definition ex_fill_world :: dbuf_world where
  "ex_fill_world =
     \<lparr>w_db =
        \<lparr>db_object = 42, db_size = 8, db_level = 0, db_blkid = 7,
         db_state = {DB_PARTIAL, DB_FILL}, db_holds = 2, db_buf = Some 1, db_data = Some 1,
         db_dirty_records =
           [\<lparr>dr_txg = 5, dr_zio = None, dr_override_zio = Some 9, dr_data = Some 1,
             write_ranges = [\<lparr>range_start = 0, range_size = 4, range_end = 4\<rparr>],
             dr_override_state = DR_NOT_OVERRIDDEN\<rparr>],
         db_data_pending = None, db_dirtycnt = 1, db_freed_in_flight = False,
         db_user = None, db_immediate_evict = False\<rparr>,
      w_arc = (\<lambda>a. \<lparr>b_data = [], b_frozen = False\<rparr>)
        (1 := \<lparr>b_data = [7, 7, 7, 7, 3, 3, 3, 3], b_frozen = False\<rparr>),
      w_next = 2, w_junk = (\<lambda>a i. 0), w_events = [], dirty_writes_lost = 0\<rparr>"

text \<open>
  A leaf dbuf of 8 bytes that is held once and has neither a buffer nor a dirty record.
\<close>

definition ex_uncached_world :: dbuf_world where
  "ex_uncached_world =
     \<lparr>w_db =
        \<lparr>db_object = 42, db_size = 8, db_level = 0, db_blkid = 7,
         db_state = {DB_UNCACHED}, db_holds = 1, db_buf = None, db_data = None,
         db_dirty_records = [], db_data_pending = None, db_dirtycnt = 0,
         db_freed_in_flight = False, db_user = None, db_immediate_evict = False\<rparr>,
      w_arc = (\<lambda>a. \<lparr>b_data = [], b_frozen = False\<rparr>),
      w_next = 1, w_junk = (\<lambda>a i. 0), w_events = [], dirty_writes_lost = 0\<rparr>"

definition ex_env :: dbuf_env where
  "ex_env = \<lparr>e_is_hole = False, e_arc_cached = None, e_released = True, e_evict = False,
     e_bonus = [], e_max_bonuslen = 320\<rparr>"

section \<open>Properties of the write ranges\<close>

lemma cleanup_ranges_loop_Nil: "cleanup_ranges_loop rs = []"
  by (induction rs) simp_all

lemma check_ranges_sorted_wrt:
  "list_all range_wf rs \<Longrightarrow>
     dbuf_dirty_record_check_ranges rs = sorted_wrt (\<lambda>r s. range_end r < range_start s) rs"
proof (induction rs rule: dbuf_dirty_record_check_ranges.induct)
  case (3 cur nxt rs)
  then show ?case by (fastforce simp: range_wf_def list_all_iff)
qed simp_all

lemma sep_sorted_start:
  "list_all range_wf rs \<Longrightarrow> sorted_wrt (\<lambda>r s. range_end r < range_start s) rs \<Longrightarrow>
     sorted_wrt (<) (map range_start rs)"
  by (induction rs) (auto simp: range_wf_def list_all_iff)

text \<open>
  The loop keeps the ranges in front of the new one, merges every range that overlaps
  or touches it, and stops in front of the first range that starts after it.
\<close>

lemma add_range_loop_props:
  assumes "add_range_loop rng rs = (r, kept, rest)"
    and "range_wf rng" and "list_all range_wf rs"
    and "sorted_wrt (\<lambda>r s. range_end r < range_start s) rs"
  shows "range_wf r \<and> list_all range_wf kept \<and> list_all range_wf rest \<and>
     sorted_wrt (\<lambda>r s. range_end r < range_start s) (kept @ r # rest) \<and>
     range_start r \<le> range_start rng \<and> range_end rng \<le> range_end r \<and>
     set kept \<union> set rest \<subseteq> set rs \<and>
     range_start r \<in> insert (range_start rng) (range_start ` set rs) \<and>
     range_end r \<in> insert (range_end rng) (range_end ` set rs) \<and>
     (\<forall>i. in_ranges (kept @ r # rest) i =
        (in_ranges rs i \<or> (range_start rng \<le> i \<and> i < range_end rng)))"
  using assms
proof (induction rng rs arbitrary: r kept rest rule: add_range_loop.induct)
  case (1 rng)
  then show ?case by (auto simp: in_ranges_def)
next
  case (2 rng old_range next_range)
  let ?sep = "\<lambda>r s. range_end r < range_start s"
  have wfo: "range_wf old_range" and wfn: "list_all range_wf next_range"
    and so: "\<forall>x\<in>set next_range. range_end old_range < range_start x"
    and sn: "sorted_wrt ?sep next_range"
    using "2.prems" by auto
  show ?case
  proof (cases "range_start old_range \<le> range_end rng")
    case False
    then have eq: "r = rng" "kept = []" "rest = old_range # next_range"
      using "2.prems"(1) by auto
    have "\<forall>x\<in>set next_range. range_end rng < range_start x"
      using so wfo False by (auto simp: range_wf_def)
    then show ?thesis
      using False "2.prems" eq by (auto simp: in_ranges_def range_wf_def)
  next
    case le: True
    show ?thesis
    proof (cases "range_start rng \<le> range_end old_range \<and> range_end rng \<ge> range_start old_range")
      case True
      define m where "m = old_range\<lparr>range_start := min (range_start rng) (range_start old_range),
          range_end := max (range_end rng) (range_end old_range),
          range_size := max (range_end rng) (range_end old_range) -
            min (range_start rng) (range_start old_range)\<rparr>"
      have call: "add_range_loop m next_range = (r, kept, rest)"
        using "2.prems"(1) le True by (simp add: m_def Let_def)
      have wfm: "range_wf m"
        using wfo "2.prems"(2) by (auto simp: m_def range_wf_def)
      note IH = "2.IH"(1)[OF le True refl refl, folded m_def, OF call wfm wfn sn]
      have cov: "\<And>i. (range_start m \<le> i \<and> i < range_end m) =
          ((range_start old_range \<le> i \<and> i < range_end old_range) \<or>
           (range_start rng \<le> i \<and> i < range_end rng))"
        using True wfo "2.prems"(2) by (auto simp: m_def range_wf_def)
      show ?thesis using IH cov
        by (auto simp: in_ranges_def m_def)
    next
      case False
      obtain r' k' t' where call: "add_range_loop rng next_range = (r', k', t')"
        by (cases "add_range_loop rng next_range") auto
      then have eq: "r = r'" "kept = old_range # k'" "rest = t'"
        using "2.prems"(1) le False by auto
      note IH = "2.IH"(2)[OF le False call "2.prems"(2) wfn sn]
      have lt: "range_end old_range < range_start rng" using le False by auto
      show ?thesis using IH eq so wfo lt
        by (auto simp: in_ranges_def sorted_wrt_append)
    qed
  qed
qed

lemma add_range_list_inv:
  assumes inv: "ranges_inv dbsize rs"
    and off: "0 \<le> offset" and sz: "0 \<le> sz" and bound: "offset + sz \<le> int dbsize"
  shows "ranges_inv dbsize (add_range_list dbsize rs offset sz) \<and>
     sorted_wrt (<) (map range_start (add_range_list dbsize rs offset sz)) \<and>
     ((\<forall>i. in_ranges (add_range_list dbsize rs offset sz) i =
             (in_ranges rs i \<or> (offset \<le> i \<and> i < offset + sz))) \<or>
      (add_range_list dbsize rs offset sz = [] \<and>
       (\<forall>i. 0 \<le> i \<and> i < int dbsize \<longrightarrow>
            in_ranges rs i \<or> (offset \<le> i \<and> i < offset + sz))))"
proof (cases "offset = 0 \<and> sz = int dbsize")
  case True
  then show ?thesis
    by (simp add: add_range_list_def ranges_inv_def cleanup_ranges_loop_Nil)
next
  case False
  let ?new = "\<lparr>range_start = offset, range_size = sz, range_end = offset + sz\<rparr>"
  let ?sep = "\<lambda>r s. range_end r < range_start s"
  obtain r kept rest where call: "add_range_loop ?new rs = (r, kept, rest)"
    by (cases "add_range_loop ?new rs") auto
  have wfs: "list_all range_wf rs" and bnd: "\<forall>x\<in>set rs. range_end x \<le> int dbsize"
    using inv by (auto simp: ranges_inv_def list_all_iff)
  have srt: "sorted_wrt ?sep rs"
    using inv wfs by (simp add: ranges_inv_def check_ranges_sorted_wrt)
  have wfnew: "range_wf ?new" using off sz by (simp add: range_wf_def)
  note P = add_range_loop_props[OF call wfnew wfs srt]
  have wfr: "range_wf r" and wfk: "list_all range_wf kept" and wft: "list_all range_wf rest"
    and srt': "sorted_wrt ?sep (kept @ r # rest)"
    and sub: "set kept \<union> set rest \<subseteq> set rs"
    and cov: "\<And>i. in_ranges (kept @ r # rest) i =
        (in_ranges rs i \<or> (offset \<le> i \<and> i < offset + sz))"
    using P by auto
  have rend: "range_end r \<le> int dbsize" using P bnd bound by auto
  show ?thesis
  proof (cases "range_start r = 0 \<and> range_size r = int dbsize")
    case full: True
    then have re: "range_end r = int dbsize" using wfr by (simp add: range_wf_def)
    have "kept = []"
    proof (rule ccontr)
      assume "kept \<noteq> []"
      then obtain k where k: "k \<in> set kept" by (cases kept) auto
      then have "range_end k < range_start r" using srt' by (auto simp: sorted_wrt_append)
      moreover have "range_wf k" using wfk k by (simp add: list_all_iff)
      ultimately show False using full by (simp add: range_wf_def)
    qed
    moreover have "rest = []"
    proof (rule ccontr)
      assume "rest \<noteq> []"
      then obtain t where t: "t \<in> set rest" by (cases rest) auto
      then have "range_end r < range_start t" using srt' by (auto simp: sorted_wrt_append)
      moreover have "range_wf t" using wft t by (simp add: list_all_iff)
      moreover have "range_end t \<le> int dbsize" using t sub bnd by auto
      ultimately show False using re by (simp add: range_wf_def)
    qed
    ultimately have res: "add_range_list dbsize rs offset sz = []"
      using False call full by (simp add: add_range_list_def cleanup_ranges_loop_Nil)
    have "\<And>i. 0 \<le> i \<and> i < int dbsize \<Longrightarrow>
        in_ranges rs i \<or> (offset \<le> i \<and> i < offset + sz)"
      using cov[symmetric] \<open>kept = []\<close> \<open>rest = []\<close> full re by (simp add: in_ranges_def)
    then show ?thesis using res by (simp add: ranges_inv_def)
  next
    case nfull: False
    then have res: "add_range_list dbsize rs offset sz = kept @ r # rest"
      using False call by (auto simp: add_range_list_def)
    have wfall: "list_all range_wf (kept @ r # rest)" using wfr wfk wft by simp
    have "ranges_inv dbsize (kept @ r # rest)"
      using wfall srt' rend sub bnd
      by (auto simp: ranges_inv_def check_ranges_sorted_wrt list_all_iff)
    moreover have "sorted_wrt (<) (map range_start (kept @ r # rest))"
      by (rule sep_sorted_start[OF wfall srt'])
    ultimately show ?thesis using res cov by simp
  qed
qed


text \<open>
  Claim C7.  The write ranges of a level-0 dirty record are sorted by their start and
  every range ends strictly before the next one starts.
  \<^verbatim>\<open>dbuf_dirty_record_add_range\<close>, given such a list and a range inside the block,
  returns such a list again: every range that overlaps or touches the new one is merged
  with it into one range, so that the bytes covered afterwards are the bytes covered
  before together with the new range; when the merged range is the whole block the list
  is emptied instead.
\<close>

theorem add_range_keeps_ranges_sorted_disjoint:
  assumes "dr < length (db_dirty_records db)" and "db_level db = 0"
    and "ranges_inv (db_size db) (write_ranges (db_dirty_records db ! dr))"
    and "0 \<le> offset" and "0 \<le> sz" and "offset + sz \<le> int (db_size db)"
  shows "\<exists>db'. dbuf_dirty_record_add_range db dr offset sz = Some db' \<and>
     length (db_dirty_records db') = length (db_dirty_records db) \<and>
     ranges_inv (db_size db') (write_ranges (db_dirty_records db' ! dr)) \<and>
     sorted_wrt (<) (map range_start (write_ranges (db_dirty_records db' ! dr))) \<and>
     ((\<forall>i. in_ranges (write_ranges (db_dirty_records db' ! dr)) i =
          (in_ranges (write_ranges (db_dirty_records db ! dr)) i \<or>
           (offset \<le> i \<and> i < offset + sz))) \<or>
      (write_ranges (db_dirty_records db' ! dr) = [] \<and>
       (\<forall>i. 0 \<le> i \<and> i < int (db_size db) \<longrightarrow>
          in_ranges (write_ranges (db_dirty_records db ! dr)) i \<or>
          (offset \<le> i \<and> i < offset + sz))))"
proof -
  let ?rs = "write_ranges (db_dirty_records db ! dr)"
  let ?rs' = "add_range_list (db_size db) ?rs offset sz"
  note L = add_range_list_inv[OF assms(3-6)]
  have chk: "dbuf_dirty_record_check_ranges ?rs'" using L by (simp add: ranges_inv_def)
  show ?thesis
    using assms(1,2) chk L
    by (cases "?rs' = []") (simp_all add: dbuf_dirty_record_add_range_def Let_def)
qed

text \<open>
  The theorem at the example dbuf: the range [20, 30) touches both [10, 20) and
  [30, 40), and the three become the single range [10, 40).
\<close>

theorem add_range_keeps_ranges_sorted_disjoint_witness:
  "\<exists>db'. dbuf_dirty_record_add_range ex_partial_db 0 20 10 = Some db' \<and>
     write_ranges (db_dirty_records db' ! 0) =
       [\<lparr>range_start = 10, range_size = 30, range_end = 40\<rparr>] \<and>
     ranges_inv (db_size db') (write_ranges (db_dirty_records db' ! 0)) \<and>
     sorted_wrt (<) (map range_start (write_ranges (db_dirty_records db' ! 0)))"
  using add_range_keeps_ranges_sorted_disjoint[of 0 ex_partial_db 20 10]
  by (simp add: ex_partial_db_def ranges_inv_def range_wf_def
      dbuf_dirty_record_add_range_def add_range_list_def)

section \<open>Truncation of the write ranges\<close>

text \<open>
  Claim C2.  \<^verbatim>\<open>dbuf_dirty_record_truncate_ranges\<close> sets the end of the last remaining
  range to the minimum of the new size and the old end, but computes the size of that
  range as \<^verbatim>\<open>range->end - range->size\<close>.  On the example dbuf, truncated to 35
  bytes, the range [30, 40) of size 10 becomes the range [30, 35) with the size
  35 - 10 = 25, where the distance of its ends is 5.
\<close>

theorem truncate_ranges_size_is_end_minus_old_size:
  "dbuf_dirty_record_truncate_ranges ex_partial_db 0 35 =
     Some (ex_partial_db\<lparr>db_dirty_records :=
       [\<lparr>dr_txg = 1, dr_zio = None, dr_override_zio = None, dr_data = Some 1,
         write_ranges = [\<lparr>range_start = 10, range_size = 10, range_end = 20\<rparr>,
                         \<lparr>range_start = 30, range_size = 25, range_end = 35\<rparr>],
         dr_override_state = DR_NOT_OVERRIDDEN\<rparr>]\<rparr>)"
  by (simp add: dbuf_dirty_record_truncate_ranges_def ex_partial_db_def)

section \<open>Properties of the user of a dbuf\<close>

text \<open>
  The claim C3 as it is written fails: when the user of the dbuf is 2,
  \<^verbatim>\<open>dmu_buf_remove_user\<close> of the user 1 returns 2, not the null pointer.
\<close>

theorem remove_other_user_returns_current_user:
  "dmu_buf_remove_user (ex_cached_db\<lparr>db_user := Some 2\<rparr>) (Some 1) \<noteq>
     Some (None, ex_cached_db\<lparr>db_user := Some 2\<rparr>)"
  by (simp add: dmu_buf_remove_user_def dmu_buf_replace_user_def dbuf_verify_user_def
      ex_cached_db_def)

text \<open>
  Claim C3, amended.  On a dbuf without a user, to which a user may be attached (a
  level-0 dbuf that is cached and held), \<^verbatim>\<open>dmu_buf_set_user\<close> of \<open>x\<close> returns the
  null pointer, which is its success, and \<^verbatim>\<open>dmu_buf_get_user\<close> then returns \<open>x\<close>;
  \<^verbatim>\<open>dmu_buf_remove_user\<close> of \<open>x\<close> then returns \<open>x\<close> and leaves no user.  On a
  dbuf whose user is \<open>y\<close>, different from \<open>x\<close>, \<^verbatim>\<open>dmu_buf_remove_user\<close> of \<open>x\<close>
  returns \<open>y\<close> and leaves the user \<open>y\<close>.
\<close>

theorem user_set_get_remove:
  assumes "db_user db = None"
    and "db_level db = 0" and "db_data db \<noteq> None" and "db_state db = {DB_CACHED}"
    and "if db_immediate_evict db then db_holds db > db_dirtycnt db else db_holds db > 0"
    and "y \<noteq> x"
  shows "dmu_buf_set_user db x = Some (None, db\<lparr>db_user := x\<rparr>) \<and>
     dmu_buf_get_user (db\<lparr>db_user := x\<rparr>) = Some x \<and>
     dmu_buf_remove_user (db\<lparr>db_user := x\<rparr>) x = Some (x, db\<lparr>db_user := None\<rparr>) \<and>
     dmu_buf_remove_user (db\<lparr>db_user := y\<rparr>) x = Some (y, db\<lparr>db_user := y\<rparr>)"
  using assms
  by (auto simp: dmu_buf_set_user_def dmu_buf_remove_user_def dmu_buf_get_user_def
      dmu_buf_replace_user_def dbuf_verify_user_def)

theorem user_set_get_remove_witness:
  "dmu_buf_set_user ex_cached_db (Some 1) = Some (None, ex_cached_db\<lparr>db_user := Some 1\<rparr>) \<and>
   dmu_buf_get_user (ex_cached_db\<lparr>db_user := Some 1\<rparr>) = Some (Some 1) \<and>
   dmu_buf_remove_user (ex_cached_db\<lparr>db_user := Some 1\<rparr>) (Some 1) =
     Some (Some 1, ex_cached_db\<lparr>db_user := None\<rparr>) \<and>
   dmu_buf_remove_user (ex_cached_db\<lparr>db_user := Some 2\<rparr>) (Some 1) =
     Some (Some 2, ex_cached_db\<lparr>db_user := Some 2\<rparr>)"
  using user_set_get_remove[of ex_cached_db "Some 2" "Some 1"]
  by (simp add: ex_cached_db_def)

section \<open>Properties of the block size of a spill block\<close>

lemma and_not_mask_diff: "(y :: 'a::len word) AND NOT (mask k) = y - take_bit k y"
proof -
  have "y - take_bit k y = y AND NOT (take_bit k y)"
    by (rule disjunctive_diff) (simp add: bit_simps)
  also have "\<dots> = y AND NOT (mask k)"
    by (rule bit_eqI) (auto simp: bit_simps)
  finally show ?thesis by simp
qed

lemma P2ROUNDUP_eq: "P2ROUNDUP x (2 ^ k) = x + take_bit k (- x)"
  by (simp add: P2ROUNDUP_def minus_exp_eq_not_mask and_not_mask_diff)

lemma uint_take_bit_neg:
  assumes k: "k \<le> 64"
  shows "uint (take_bit k (- (x :: 64 word))) = (- uint x) mod 2 ^ k"
proof -
  have "uint (take_bit k (- x)) = take_bit k (uint (- x))"
    by (simp add: unsigned_take_bit_eq)
  also have "\<dots> = take_bit k (take_bit 64 (- uint x))"
    by (simp add: uint_word_arith_bintrs)
  also have "\<dots> = take_bit k (- uint x)"
    using k by (simp add: min_def)
  finally show ?thesis by (simp add: take_bit_eq_mod)
qed

lemma P2ROUNDUP_uint:
  assumes "k \<le> 64" and "uint x + (- uint x) mod 2 ^ k < 2 ^ 64"
  shows "uint (P2ROUNDUP x (2 ^ k)) = uint x + (- uint x) mod 2 ^ k"
proof -
  have "uint (P2ROUNDUP x (2 ^ k)) = (uint x + (- uint x) mod 2 ^ k) mod 2 ^ 64"
    by (simp add: P2ROUNDUP_eq uint_word_ariths uint_take_bit_neg[OF assms(1)])
  also have "\<dots> = uint x + (- uint x) mod 2 ^ k"
    using assms(2) by (simp add: mod_pos_pos_trivial)
  finally show ?thesis .
qed

lemma roundup_int_props:
  fixes a m :: int
  assumes "0 < m"
  shows "m dvd (a + (- a) mod m)" and "a \<le> a + (- a) mod m" and "a + (- a) mod m < a + m"
proof -
  have "(a + (- a) mod m) mod m = (a + - a) mod m" by (simp add: mod_add_right_eq)
  then show "m dvd (a + (- a) mod m)" by (simp add: dvd_eq_mod_eq_0)
  show "a \<le> a + (- a) mod m" using assms by simp
  show "a + (- a) mod m < a + m" using assms by simp
qed

lemma roundup_int_le:
  fixes a m b :: int
  assumes "0 < m" and "a \<le> b" and "m dvd b"
  shows "a + (- a) mod m \<le> b"
proof (rule ccontr)
  assume "\<not> ?thesis"
  then have lt: "b < a + (- a) mod m" by simp
  have d: "m dvd (a + (- a) mod m - b)"
    using roundup_int_props(1)[OF assms(1)] assms(3) by (simp add: dvd_diff)
  have "0 < a + (- a) mod m - b" using lt by simp
  then have "m \<le> a + (- a) mod m - b" using d assms(1) by (simp add: zdvd_imp_le)
  then show False using roundup_int_props(3)[OF assms(1), of a] assms(2) by simp
qed

lemma sint_ucast_small:
  fixes w :: "64 word" assumes "uint w < 2 ^ 31"
  shows "sint (ucast w :: 32 word) = uint w"
proof -
  have "uint (ucast w :: 32 word) = take_bit 32 (uint w)"
    by (simp add: unsigned_ucast_eq)
  also have "\<dots> = uint w"
    using assms by (intro take_bit_int_eq_self) simp_all
  finally have u: "uint (ucast w :: 32 word) = uint w" .
  have "sint (ucast w :: 32 word) = signed_take_bit 31 (uint (ucast w :: 32 word))"
    by (simp add: sint_uint)
  also have "\<dots> = uint w"
  proof -
    have "0 \<le> uint w" by simp
    moreover have "- (2 ^ 31) \<le> (0 :: int)" by simp
    ultimately have "- (2 ^ 31) \<le> uint w" by (rule order_trans[rotated])
    then show ?thesis unfolding u using assms by (intro signed_take_bit_int_eq_self) simp_all
  qed
  finally show ?thesis .
qed

text \<open>
  Claim C10.  For a spill dbuf, \<^verbatim>\<open>dbuf_spill_set_blksz\<close> passes a clamped size to
  \<^verbatim>\<open>dbuf_new_size\<close> and returns 0: the size 0 becomes \<^verbatim>\<open>SPA_MINBLOCKSIZE\<close>, a
  size above \<^verbatim>\<open>SPA_MAXBLOCKSIZE\<close> becomes \<^verbatim>\<open>SPA_MAXBLOCKSIZE\<close>, and any other
  size becomes the least multiple of \<^verbatim>\<open>SPA_MINBLOCKSIZE\<close> that is not below it.  The
  minimum is a power of two that divides the maximum, and the maximum fits the
  \<^verbatim>\<open>int\<close> parameter of \<^verbatim>\<open>dbuf_new_size\<close>.
\<close>

theorem spill_set_blksz_clamps:
  assumes spill: "db_blkid db = DMU_SPILL_BLKID"
    and pow: "minblocksize = 2 ^ k" and k: "k < 64"
    and dvd: "uint minblocksize dvd uint maxblocksize"
    and pos: "0 < maxblocksize"
    and small: "uint maxblocksize < 2 ^ 31"
  shows "\<exists>n. dbuf_spill_set_blksz minblocksize maxblocksize db blksz = Inr n \<and>
     (blksz = 0 \<longrightarrow> n = uint minblocksize) \<and>
     (blksz > maxblocksize \<longrightarrow> n = uint maxblocksize) \<and>
     (blksz \<noteq> 0 \<and> blksz \<le> maxblocksize \<longrightarrow>
        uint minblocksize dvd n \<and> uint blksz \<le> n \<and> n < uint blksz + uint minblocksize)"
proof -
  have um: "uint minblocksize = 2 ^ k"
  proof -
    have "(0 :: 64 word) < 2 ^ k" using k by (simp add: word_neq_0_conv[symmetric])
    then show ?thesis by (simp add: pow uint_2p)
  qed
  have mpos: "(0::int) < 2 ^ k" by simp
  have maxpos: "0 < uint maxblocksize" using pos by (simp add: word_less_def)
  have min_le_max: "minblocksize \<le> maxblocksize"
    using dvd maxpos by (simp add: word_le_def zdvd_imp_le)
  have R: "uint (P2ROUNDUP x minblocksize) = uint x + (- uint x) mod 2 ^ k \<and>
           uint (P2ROUNDUP x minblocksize) \<le> uint maxblocksize"
    if "x \<le> maxblocksize" for x
  proof -
    have le: "uint x + (- uint x) mod 2 ^ k \<le> uint maxblocksize"
      using that dvd by (intro roundup_int_le) (simp_all add: um word_le_def)
    then have "uint x + (- uint x) mod 2 ^ k < 2 ^ 64" using small by simp
    then have "uint (P2ROUNDUP x (2 ^ k)) = uint x + (- uint x) mod 2 ^ k"
      using k by (intro P2ROUNDUP_uint) simp_all
    then show ?thesis using le by (simp add: pow)
  qed
  show ?thesis
  proof (cases "blksz = 0")
    case True
    have "uint (P2ROUNDUP minblocksize minblocksize) = uint minblocksize"
      using R[OF min_le_max] by (simp add: um)
    moreover have "\<not> maxblocksize < minblocksize" using min_le_max by (simp add: not_less)
    ultimately show ?thesis
      using True spill small R[OF min_le_max]
      by (simp add: dbuf_spill_set_blksz_def sint_ucast_small)
  next
    case nz: False
    show ?thesis
    proof (cases "blksz > maxblocksize")
      case True
      then have "\<not> blksz \<le> maxblocksize" by (simp add: not_le)
      then show ?thesis using True nz spill small
        by (simp add: dbuf_spill_set_blksz_def sint_ucast_small)
    next
      case False
      then have le: "blksz \<le> maxblocksize" by simp
      note Rb = R[OF le]
      have "uint (P2ROUNDUP blksz minblocksize) < 2 ^ 31" using Rb small by simp
      then have "sint (ucast (P2ROUNDUP blksz minblocksize) :: 32 word) =
          uint blksz + (- uint blksz) mod 2 ^ k"
        using Rb by (simp add: sint_ucast_small)
      then show ?thesis
        using nz False le spill roundup_int_props[OF mpos, of "uint blksz"]
        by (simp add: dbuf_spill_set_blksz_def um)
    qed
  qed
qed

text \<open>The theorem with the block sizes 512 and 131072, at the sizes 0, 200000 and 513.\<close>

theorem spill_set_blksz_clamps_witness:
  "dbuf_spill_set_blksz 512 131072 (ex_cached_db\<lparr>db_blkid := DMU_SPILL_BLKID\<rparr>) 0 = Inr 512 \<and>
   dbuf_spill_set_blksz 512 131072 (ex_cached_db\<lparr>db_blkid := DMU_SPILL_BLKID\<rparr>) 200000 = Inr 131072 \<and>
   dbuf_spill_set_blksz 512 131072 (ex_cached_db\<lparr>db_blkid := DMU_SPILL_BLKID\<rparr>) 513 = Inr 1024"
  using spill_set_blksz_clamps[of "ex_cached_db\<lparr>db_blkid := DMU_SPILL_BLKID\<rparr>" 512 9 131072 0]
    spill_set_blksz_clamps[of "ex_cached_db\<lparr>db_blkid := DMU_SPILL_BLKID\<rparr>" 512 9 131072 200000]
    spill_set_blksz_clamps[of "ex_cached_db\<lparr>db_blkid := DMU_SPILL_BLKID\<rparr>" 512 9 131072 513]
  by (simp add: dbuf_spill_set_blksz_def P2ROUNDUP_def)


section \<open>Properties of the completion of a read\<close>

lemma w_db_set_b_data [simp]: "w_db (set_b_data a d w) = w_db w"
  and w_events_set_b_data [simp]: "w_events (set_b_data a d w) = w_events w"
  and w_next_set_b_data [simp]: "w_next (set_b_data a d w) = w_next w"
  and b_data_set_b_data [simp]:
    "b_data (w_arc (set_b_data a d w) b) = (if b = a then d else b_data (w_arc w b))"
  and b_frozen_set_b_data [simp]: "b_frozen (w_arc (set_b_data a d w) b) = b_frozen (w_arc w b)"
  by (simp_all add: set_b_data_def)

lemma set_b_data_same: "d = b_data (w_arc w a) \<Longrightarrow> set_b_data a d w = w"
  by (simp add: set_b_data_def)

lemma set_b_data_twice [simp]: "set_b_data a d (set_b_data a d' w) = set_b_data a d w"
  by (simp add: set_b_data_def)

lemma memcpy_nat_nth:
  fixes s d :: "'a list"
  assumes "hn + nn \<le> length s" and "hn + nn \<le> length d"
  shows "take hn d @ take nn (drop hn s) @ drop (hn + nn) d =
     map (\<lambda>i. if hn \<le> i \<and> i < hn + nn then s ! i else d ! i) [0..<length d]"
proof (rule nth_equalityI)
  show "length (take hn d @ take nn (drop hn s) @ drop (hn + nn) d) =
      length (map (\<lambda>i. if hn \<le> i \<and> i < hn + nn then s ! i else d ! i) [0..<length d])"
    using assms by simp
next
  fix i assume "i < length (take hn d @ take nn (drop hn s) @ drop (hn + nn) d)"
  then have i: "i < length d" using assms by simp
  have l1: "length (take hn d) = hn" using assms by simp
  have l2: "length (take nn (drop hn s)) = nn" using assms by simp
  consider "i < hn" | "hn \<le> i" "i < hn + nn" | "hn + nn \<le> i" by linarith
  then show "(take hn d @ take nn (drop hn s) @ drop (hn + nn) d) ! i =
      map (\<lambda>i. if hn \<le> i \<and> i < hn + nn then s ! i else d ! i) [0..<length d] ! i"
  proof cases
    case 1
    then show ?thesis using i l1 by (simp add: nth_append del: length_take)
  next
    case 2
    then have "(take hn d @ take nn (drop hn s) @ drop (hn + nn) d) ! i =
        take nn (drop hn s) ! (i - hn)"
      using l1 l2 by (simp add: nth_append del: length_take length_drop)
    also have "\<dots> = s ! i" using 2 assms by simp
    finally show ?thesis using i 2 by simp
  next
    case 3
    then have "(take hn d @ take nn (drop hn s) @ drop (hn + nn) d) ! i =
        drop (hn + nn) d ! (i - hn - nn)"
      using l1 l2 by (simp add: nth_append del: length_take length_drop)
    also have "\<dots> = d ! i" using 3 i by simp
    finally show ?thesis using i 3 by simp
  qed
qed

lemma memcpy_same_offset:
  assumes ne: "dst \<noteq> src" and h: "0 \<le> h" and n: "0 \<le> n"
    and ls: "h + n \<le> int (length (b_data (w_arc w src)))"
    and ld: "h + n \<le> int (length (b_data (w_arc w dst)))"
  shows "memcpy (dst, h) (src, h) n w =
     Some (set_b_data dst
       (map (\<lambda>i. if nat h \<le> i \<and> i < nat h + nat n then b_data (w_arc w src) ! i
                  else b_data (w_arc w dst) ! i) [0..<length (b_data (w_arc w dst))]) w)"
proof -
  let ?s = "b_data (w_arc w src)" and ?d = "b_data (w_arc w dst)"
  have a: "nat h + nat n \<le> length ?s" using h n ls by linarith
  have b: "nat h + nat n \<le> length ?d" using h n ld by linarith
  have c: "nat (h + n) = nat h + nat n" using h n by (simp add: nat_add_distrib)
  show ?thesis
    using h n ls ld by (simp add: memcpy_def Let_def c memcpy_nat_nth[OF a b])
qed

lemma arc_buf_size_set_b_data [simp]:
  "arc_buf_size (set_b_data a d w) b = (if b = a then int (length d) else arc_buf_size w b)"
  by (simp add: arc_buf_size_def)

lemma merge_holes_loop_spec:
  assumes "dst \<noteq> src" and "0 \<le> h" and "list_all range_wf rr"
    and "sorted_wrt (\<lambda>r s. range_end r < range_start s) rr"
    and "\<forall>r\<in>set rr. h < range_start r"
    and "M = min (arc_buf_size w src) (arc_buf_size w dst)"
  shows "merge_holes_loop w
       \<lparr>itr_src = src, itr_dst = dst, itr_range = rr, itr_max_offset = M, itr_hole_start = h\<rparr> =
     Some (set_b_data dst
       (map (\<lambda>i. if h \<le> int i \<and> int i < M \<and> \<not> in_ranges rr (int i)
                  then b_data (w_arc w src) ! i else b_data (w_arc w dst) ! i)
          [0..<length (b_data (w_arc w dst))]) w)"
  using assms
proof (induction rr arbitrary: w h)
  case Nil
  let ?s = "b_data (w_arc w src)" and ?d = "b_data (w_arc w dst)"
  show ?case
  proof (cases "h \<ge> M")
    case True
    then have "map (\<lambda>i. if h \<le> int i \<and> int i < M \<and> \<not> in_ranges [] (int i) then ?s ! i else ?d ! i)
        [0..<length ?d] = ?d"
      by (intro nth_equalityI) auto
    then show ?thesis using True
      by (simp add: merge_holes_loop.simps[of w] dbuf_dirty_record_hole_itr_next_def set_b_data_same)
  next
    case False
    then have lt: "h < M" by simp
    have Ms: "M \<le> int (length ?s)" and Md: "M \<le> int (length ?d)"
      using Nil.prems(6) by (simp_all add: arc_buf_size_def)
    have cp: "memcpy (dst, h) (src, h) (M - h) w = Some (set_b_data dst
       (map (\<lambda>i. if nat h \<le> i \<and> i < nat h + nat (M - h) then ?s ! i else ?d ! i) [0..<length ?d]) w)"
      using Nil.prems(1,2) lt Ms Md by (intro memcpy_same_offset) simp_all
    have eq: "map (\<lambda>i. if nat h \<le> i \<and> i < nat h + nat (M - h) then ?s ! i else ?d ! i) [0..<length ?d] =
        map (\<lambda>i. if h \<le> int i \<and> int i < M \<and> \<not> in_ranges [] (int i) then ?s ! i else ?d ! i) [0..<length ?d]"
      using Nil.prems(2) lt by (intro map_cong refl) (auto simp: in_ranges_def)
    show ?thesis using lt cp
      by (simp add: merge_holes_loop.simps[of w] merge_holes_loop.simps[of "set_b_data _ _ _"]
          dbuf_dirty_record_hole_itr_next_def eq)
  qed
next
  case (Cons r rest)
  let ?s = "b_data (w_arc w src)" and ?d = "b_data (w_arc w dst)"
  have wfr: "range_wf r" and wfrest: "list_all range_wf rest"
    and srt: "sorted_wrt (\<lambda>r s. range_end r < range_start s) rest"
    and after: "\<forall>x\<in>set rest. range_end r < range_start x"
    and hr: "h < range_start r"
    using Cons.prems by auto
  have Ms: "M \<le> int (length ?s)" and Md: "M \<le> int (length ?d)"
    using Cons.prems(6) by (simp_all add: arc_buf_size_def)
  show ?case
  proof (cases "h \<ge> M")
    case True
    then have "map (\<lambda>i. if h \<le> int i \<and> int i < M \<and> \<not> in_ranges (r # rest) (int i) then ?s ! i else ?d ! i)
        [0..<length ?d] = ?d"
      by (intro nth_equalityI) auto
    then show ?thesis using True
      by (simp add: merge_holes_loop.simps[of w] dbuf_dirty_record_hole_itr_next_def set_b_data_same)
  next
    case False
    then have lt: "h < M" by simp
    define n where "n = min M (range_start r) - h"
    have npos: "0 \<le> n" using lt hr by (simp add: n_def)
    have hn: "h + n \<le> M" by (simp add: n_def)
    define d' where "d' = map (\<lambda>i. if nat h \<le> i \<and> i < nat h + nat n then ?s ! i else ?d ! i) [0..<length ?d]"
    have cp: "memcpy (dst, h) (src, h) n w = Some (set_b_data dst d' w)"
      unfolding d'_def using Cons.prems(1,2) npos hn Ms Md by (intro memcpy_same_offset) simp_all
    let ?w' = "set_b_data dst d' w"
    have len: "length d' = length ?d" by (simp add: d'_def)
    have M': "M = min (arc_buf_size ?w' src) (arc_buf_size ?w' dst)"
      using Cons.prems(1,6) len by (simp add: arc_buf_size_def)
    have e0: "0 \<le> range_end r" using wfr by (simp add: range_wf_def)
    note IH = Cons.IH[OF Cons.prems(1) e0 wfrest srt after M']
    have src': "b_data (w_arc ?w' src) = ?s" using Cons.prems(1) by simp
    have eq: "map (\<lambda>i. if range_end r \<le> int i \<and> int i < M \<and> \<not> in_ranges rest (int i)
                  then ?s ! i else d' ! i) [0..<length ?d] =
        map (\<lambda>i. if h \<le> int i \<and> int i < M \<and> \<not> in_ranges (r # rest) (int i) then ?s ! i else ?d ! i)
          [0..<length ?d]"
    proof (intro map_cong refl)
      fix i assume "i \<in> set [0..<length ?d]"
      then have i: "i < length ?d" by simp
      have rest_gt: "in_ranges rest (int i) \<Longrightarrow> range_end r < int i"
        using after wfrest by (fastforce simp: in_ranges_def list_ex_iff)
      have d'i: "d' ! i = (if nat h \<le> i \<and> i < nat h + nat n then ?s ! i else ?d ! i)"
        using i by (simp add: d'_def)
      have c1: "(nat h \<le> i \<and> i < nat h + nat n) = (h \<le> int i \<and> int i < M \<and> int i < range_start r)"
        using Cons.prems(2) npos by (auto simp: n_def)
      have se: "range_start r \<le> range_end r" using wfr by (simp add: range_wf_def)
      show "(if range_end r \<le> int i \<and> int i < M \<and> \<not> in_ranges rest (int i) then ?s ! i else d' ! i) =
          (if h \<le> int i \<and> int i < M \<and> \<not> in_ranges (r # rest) (int i) then ?s ! i else ?d ! i)"
        unfolding d'i c1 using rest_gt hr se by (auto simp: in_ranges_def)
    qed
    have IH': "merge_holes_loop ?w'
         \<lparr>itr_src = src, itr_dst = dst, itr_range = rest, itr_max_offset = M,
            itr_hole_start = range_end r\<rparr> =
        Some (set_b_data dst
          (map (\<lambda>i. if range_end r \<le> int i \<and> int i < M \<and> \<not> in_ranges rest (int i)
                  then ?s ! i else d' ! i) [0..<length ?d]) w)"
      using IH Cons.prems(1) by (simp add: len cong: if_cong)
    show ?thesis
      using lt cp
      by (simp add: merge_holes_loop.simps[of w] dbuf_dirty_record_hole_itr_next_def
          n_def[symmetric] IH' eq)
  qed
qed

lemma length_fill_holes [simp]: "length (fill_holes old new rs) = length new"
  by (simp add: fill_holes_def inverse_merge_def)

lemma resolved_eq_Nil [simp]: "resolved old xs = [] \<longleftrightarrow> xs = []"
  by (cases xs) (simp_all add: Let_def)

lemma length_resolved [simp]: "length (resolved old xs) = length xs"
  by (induction xs) (simp_all add: Let_def)

lemma resolved_snoc:
  "resolved old (xs @ [x]) =
     resolved (fill_holes old (fst x) (snd x)) xs @ [fill_holes old (fst x) (snd x)]"
proof (induction xs)
  case Nil
  then show ?case by (simp add: Let_def)
next
  case (Cons y ys)
  then show ?case by (cases ys) (simp_all add: Let_def)
qed

lemma dbuf_merge_write_ranges_spec:
  assumes dst: "dr_data (db_dirty_records (w_db w) ! dr) = Some dst"
    and ne: "dst \<noteq> old_buf"
    and wf: "list_all range_wf (write_ranges (db_dirty_records (w_db w) ! dr))"
    and srt: "sorted_wrt (\<lambda>r s. range_end r < range_start s)
        (write_ranges (db_dirty_records (w_db w) ! dr))"
  shows "dbuf_merge_write_ranges dr old_buf w =
     Some (set_b_data dst
       (fill_holes (b_data (w_arc w old_buf)) (b_data (w_arc w dst))
          (write_ranges (db_dirty_records (w_db w) ! dr))) w)"
proof (cases "write_ranges (db_dirty_records (w_db w) ! dr)")
  case Nil
  then show ?thesis
    by (simp add: dbuf_merge_write_ranges_def fill_holes_def set_b_data_same)
next
  case (Cons r rest)
  let ?s = "b_data (w_arc w old_buf)" and ?d = "b_data (w_arc w dst)"
  define M where "M = min (arc_buf_size w old_buf) (arc_buf_size w dst)"
  have wfr: "range_wf r" and wfrest: "list_all range_wf rest"
    and srt': "sorted_wrt (\<lambda>r s. range_end r < range_start s) rest"
    and after: "\<forall>x\<in>set rest. range_end r < range_start x"
    using wf srt Cons by auto
  have Mi: "\<And>i. (int i < M) = (i < min (length ?s) (length ?d))"
    by (auto simp: M_def arc_buf_size_def)
  show ?thesis
  proof (cases "range_start r = 0")
    case True
    then have sz: "range_size r = range_end r" and e0: "0 \<le> range_end r"
      using wfr by (simp_all add: range_wf_def)
    note L = merge_holes_loop_spec[OF ne e0 wfrest srt' after M_def, of ]
    have eq: "map (\<lambda>i. if range_end r \<le> int i \<and> int i < M \<and> \<not> in_ranges rest (int i)
                  then ?s ! i else ?d ! i) [0..<length ?d] =
        fill_holes ?s ?d (r # rest)"
      unfolding fill_holes_def inverse_merge_def using True
      by (auto simp: Mi in_ranges_def intro!: map_cong)
    show ?thesis
      using True Cons dst L
      by (simp add: dbuf_merge_write_ranges_def dbuf_dirty_record_hole_itr_init_def sz eq
          M_def[symmetric])
  next
    case False
    then have s0: "0 < range_start r" using wfr by (simp add: range_wf_def)
    have all: "\<forall>x\<in>set (r # rest). 0 < range_start x"
      using s0 after wfr by (fastforce simp: range_wf_def)
    have wfall: "list_all range_wf (r # rest)" using wfr wfrest by simp
    have srtall: "sorted_wrt (\<lambda>r s. range_end r < range_start s) (r # rest)"
      using srt Cons by simp
    note L = merge_holes_loop_spec[OF ne order_refl wfall srtall all M_def]
    have eq: "map (\<lambda>i. if int i < M \<and> \<not> in_ranges (r # rest) (int i)
                  then ?s ! i else ?d ! i) [0..<length ?d] =
        fill_holes ?s ?d (r # rest)"
      unfolding fill_holes_def inverse_merge_def by (auto simp: Mi intro!: map_cong)
    show ?thesis
      using False Cons dst L
      by (simp add: dbuf_merge_write_ranges_def dbuf_dirty_record_hole_itr_init_def eq
          M_def[symmetric])
  qed
qed

lemma db_update_simps [simp]:
  "w_db (db_update f w) = f (w_db w)"
  "w_arc (db_update f w) = w_arc w"
  "w_next (db_update f w) = w_next w"
  "w_events (db_update f w) = w_events w"
  "dirty_writes_lost (db_update f w) = dirty_writes_lost w"
  by (simp_all add: db_update_def)

lemma dr_update_simps [simp]:
  "w_db (dr_update i f w) = (w_db w)\<lparr>db_dirty_records :=
      (db_dirty_records (w_db w))[i := f (db_dirty_records (w_db w) ! i)]\<rparr>"
  "w_arc (dr_update i f w) = w_arc w"
  "w_next (dr_update i f w) = w_next w"
  "w_events (dr_update i f w) = w_events w"
  "dirty_writes_lost (dr_update i f w) = dirty_writes_lost w"
  by (simp_all add: dr_update_def)

lemma add_event_simps [simp]:
  "w_db (add_event e w) = w_db w"
  "w_arc (add_event e w) = w_arc w"
  "w_next (add_event e w) = w_next w"
  "w_events (add_event e w) = w_events w @ [e]"
  "dirty_writes_lost (add_event e w) = dirty_writes_lost w"
  by (simp_all add: add_event_def)

lemma arc_buf_freeze_simps [simp]:
  "w_db (arc_buf_freeze a w) = w_db w"
  "b_data (w_arc (arc_buf_freeze a w) b) = b_data (w_arc w b)"
  "w_next (arc_buf_freeze a w) = w_next w"
  "w_events (arc_buf_freeze a w) = w_events w"
  "dirty_writes_lost (arc_buf_freeze a w) = dirty_writes_lost w"
  by (simp_all add: arc_buf_freeze_def)

lemma dirty_writes_lost_set_b_data [simp]:
  "dirty_writes_lost (set_b_data a d w) = dirty_writes_lost w"
  by (simp add: set_b_data_def)

lemma resolve_ranges_loop_spec:
  assumes "n \<le> length (db_dirty_records (w_db w))"
    and "list_all dr_ok (db_dirty_records (w_db w))"
    and "distinct (old_buf # map (\<lambda>dr. the (dr_data dr)) (take n (db_dirty_records (w_db w))))"
    and "db_level (w_db w) = 0"
  shows "\<exists>w'. resolve_ranges_loop n old_buf w = Some w' \<and>
     w_db w' = (w_db w)\<lparr>db_dirty_records :=
        map (\<lambda>dr. dr\<lparr>write_ranges := []\<rparr>) (take n (db_dirty_records (w_db w))) @
        drop n (db_dirty_records (w_db w))\<rparr> \<and>
     map (dr_content w') (take n (db_dirty_records (w_db w))) =
       resolved (b_data (w_arc w old_buf))
         (map (\<lambda>dr. (dr_content w dr, write_ranges dr)) (take n (db_dirty_records (w_db w)))) \<and>
     (\<forall>a. a \<notin> (\<lambda>dr. the (dr_data dr)) ` set (take n (db_dirty_records (w_db w))) \<longrightarrow>
          b_data (w_arc w' a) = b_data (w_arc w a)) \<and>
     (\<forall>a. length (b_data (w_arc w' a)) = length (b_data (w_arc w a))) \<and>
     w_events w' = w_events w \<and> w_next w' = w_next w \<and>
     dirty_writes_lost w' = dirty_writes_lost w \<and> w_junk w' = w_junk w"
  using assms
proof (induction n arbitrary: w old_buf)
  case 0
  then show ?case by simp
next
  case (Suc n)
  let ?drs = "db_dirty_records (w_db w)"
  let ?dl = "?drs ! n"
  have n: "n < length ?drs" using Suc.prems(1) by simp
  have ok: "dr_ok ?dl" using Suc.prems(2) n by (simp add: list_all_length)
  then obtain data where data: "dr_data ?dl = Some data" by (auto simp: dr_ok_def)
  have wfr: "list_all range_wf (write_ranges ?dl)"
    using ok by (simp add: dr_ok_def)
  have srt: "sorted_wrt (\<lambda>r s. range_end r < range_start s) (write_ranges ?dl)"
    using ok check_ranges_sorted_wrt[OF wfr] by (simp add: dr_ok_def)
  have tk: "take (Suc n) ?drs = take n ?drs @ [?dl]"
    using n by (simp add: take_Suc_conv_app_nth)
  have ne: "data \<noteq> old_buf" using Suc.prems(3) data by (auto simp: tk)
  define c' where "c' = fill_holes (b_data (w_arc w old_buf)) (b_data (w_arc w data)) (write_ranges ?dl)"
  define w1 where "w1 = set_b_data data c' w"
  have m: "dbuf_merge_write_ranges n old_buf w = Some w1"
    unfolding w1_def c'_def by (rule dbuf_merge_write_ranges_spec[OF data ne wfr srt])
  define w2 where "w2 = (if Some data \<noteq> db_buf (w_db w1) \<or> DB_FILL \<notin> db_state (w_db w1)
                      then arc_buf_freeze data w1 else w1)"
  define w3 where "w3 = dr_update n (dbuf_dirty_record_cleanup_ranges (w_db w2)) w2"
  have step: "resolve_ranges_loop (Suc n) old_buf w = resolve_ranges_loop n data w3"
    using data m by (simp add: w2_def w3_def Let_def)
  have db2: "w_db w2 = w_db w" by (simp add: w2_def w1_def)
  have bd2: "\<And>a. b_data (w_arc w2 a) = (if a = data then c' else b_data (w_arc w a))"
    by (simp add: w2_def w1_def)
  have drs3: "db_dirty_records (w_db w3) = ?drs[n := ?dl\<lparr>write_ranges := []\<rparr>]"
    using Suc.prems(4)
    by (simp add: w3_def db2 dbuf_dirty_record_cleanup_ranges_def cleanup_ranges_loop_Nil)
  have db3: "w_db w3 = (w_db w)\<lparr>db_dirty_records := ?drs[n := ?dl\<lparr>write_ranges := []\<rparr>]\<rparr>"
    using Suc.prems(4)
    by (simp add: w3_def db2 dbuf_dirty_record_cleanup_ranges_def cleanup_ranges_loop_Nil)
  have bd3: "\<And>a. b_data (w_arc w3 a) = (if a = data then c' else b_data (w_arc w a))"
    by (simp add: w3_def bd2)
  have tk3: "take n (db_dirty_records (w_db w3)) = take n ?drs" by (simp add: drs3)
  have p1: "n \<le> length (db_dirty_records (w_db w3))" using n by (simp add: drs3)
  have p2: "list_all dr_ok (db_dirty_records (w_db w3))"
    using Suc.prems(2) ok n
    by (auto simp: drs3 list_all_length nth_list_update dr_ok_def)
  have p3: "distinct (data # map (\<lambda>dr. the (dr_data dr)) (take n (db_dirty_records (w_db w3))))"
    using Suc.prems(3) data by (auto simp: tk tk3)
  have p4: "db_level (w_db w3) = 0" using Suc.prems(4) by (simp add: db3)
  from Suc.IH[OF p1 p2 p3 p4] obtain w' where
    r: "resolve_ranges_loop n data w3 = Some w'"
    and dbw': "w_db w' = (w_db w3)\<lparr>db_dirty_records :=
        map (\<lambda>dr. dr\<lparr>write_ranges := []\<rparr>) (take n (db_dirty_records (w_db w3))) @
        drop n (db_dirty_records (w_db w3))\<rparr>"
    and cont: "map (dr_content w') (take n (db_dirty_records (w_db w3))) =
       resolved (b_data (w_arc w3 data))
         (map (\<lambda>dr. (dr_content w3 dr, write_ranges dr)) (take n (db_dirty_records (w_db w3))))"
    and other: "\<forall>a. a \<notin> (\<lambda>dr. the (dr_data dr)) ` set (take n (db_dirty_records (w_db w3))) \<longrightarrow>
          b_data (w_arc w' a) = b_data (w_arc w3 a)"
    and lens: "\<forall>a. length (b_data (w_arc w' a)) = length (b_data (w_arc w3 a))"
    and rest: "w_events w' = w_events w3" "w_next w' = w_next w3"
      "dirty_writes_lost w' = dirty_writes_lost w3" "w_junk w' = w_junk w3"
    by blast
  have notin: "data \<notin> (\<lambda>dr. the (dr_data dr)) ` set (take n ?drs)"
    using p3 by (auto simp: tk3)
  have c1: "w_db w' = (w_db w)\<lparr>db_dirty_records :=
        map (\<lambda>dr. dr\<lparr>write_ranges := []\<rparr>) (take (Suc n) ?drs) @ drop (Suc n) ?drs\<rparr>"
    using n by (simp add: dbw' db3 tk drop_update_cancel[symmetric] upd_conv_take_nth_drop
        del: drop_update_cancel)
  have same_cont: "map (\<lambda>dr. (dr_content w3 dr, write_ranges dr)) (take n ?drs) =
      map (\<lambda>dr. (dr_content w dr, write_ranges dr)) (take n ?drs)"
    using notin by (auto simp: dr_content_def bd3)
  have cdata: "dr_content w' ?dl = c'"
    using other notin data by (simp add: dr_content_def tk3 bd3)
  have c2: "map (dr_content w') (take (Suc n) ?drs) =
       resolved (b_data (w_arc w old_buf))
         (map (\<lambda>dr. (dr_content w dr, write_ranges dr)) (take (Suc n) ?drs))"
  proof -
    have "map (dr_content w') (take (Suc n) ?drs) =
        map (dr_content w') (take n ?drs) @ [dr_content w' ?dl]"
      by (simp add: tk)
    also have "\<dots> = resolved (b_data (w_arc w3 data))
          (map (\<lambda>dr. (dr_content w3 dr, write_ranges dr)) (take n ?drs)) @ [c']"
      using cont by (simp only: tk3 cdata)
    also have "\<dots> = resolved c'
          (map (\<lambda>dr. (dr_content w dr, write_ranges dr)) (take n ?drs)) @ [c']"
      by (simp add: same_cont bd3)
    also have "\<dots> = resolved (b_data (w_arc w old_buf))
          (map (\<lambda>dr. (dr_content w dr, write_ranges dr)) (take n ?drs) @
           [(dr_content w ?dl, write_ranges ?dl)])"
      using data by (simp add: resolved_snoc c'_def dr_content_def)
    finally show ?thesis by (simp add: tk)
  qed
  have c3: "\<forall>a. a \<notin> (\<lambda>dr. the (dr_data dr)) ` set (take (Suc n) ?drs) \<longrightarrow>
          b_data (w_arc w' a) = b_data (w_arc w a)"
    using other data by (auto simp: tk tk3 bd3)
  have c4: "\<forall>a. length (b_data (w_arc w' a)) = length (b_data (w_arc w a))"
    using lens by (simp add: bd3 c'_def)
  have c5: "w_events w' = w_events w" "w_next w' = w_next w"
    "dirty_writes_lost w' = dirty_writes_lost w" "w_junk w' = w_junk w"
    using rest by (simp_all add: w3_def w2_def w1_def set_b_data_def arc_buf_freeze_def dr_update_def db_update_def)
  show ?case
    using step r c1 c2 c3 c4 c5 by simp
qed

lemma dbuf_alloc_arcbuf_simps:
  "fst (dbuf_alloc_arcbuf w) = w_next w"
  "w_db (snd (dbuf_alloc_arcbuf w)) = w_db w"
  "w_next (snd (dbuf_alloc_arcbuf w)) = Suc (w_next w)"
  "w_events (snd (dbuf_alloc_arcbuf w)) = w_events w"
  "dirty_writes_lost (snd (dbuf_alloc_arcbuf w)) = dirty_writes_lost w"
  "a \<noteq> w_next w \<Longrightarrow> w_arc (snd (dbuf_alloc_arcbuf w)) a = w_arc w a"
  "length (b_data (w_arc (snd (dbuf_alloc_arcbuf w)) (w_next w))) = db_size (w_db w)"
  by (simp_all add: dbuf_alloc_arcbuf_def Let_def)

lemma dbuf_syncer_split_deferred:
  assumes pend: "case p of None \<Rightarrow> True | Some t \<Rightarrow> find_dr (db_dirty_records (w_db w)) t \<noteq> None"
    and front: "db_data (w_db w) = Some f" "f < w_next w"
      "db_size (w_db w) \<le> length (b_data (w_arc w f))"
  shows "\<exists>w'. dbuf_syncer_split p True w = Some w' \<and>
     w_db w' = (w_db w)\<lparr>db_buf := db_buf (w_db w'), db_data := db_data (w_db w')\<rparr> \<and>
     (db_buf (w_db w) \<noteq> None \<longrightarrow> db_buf (w_db w') \<noteq> None) \<and>
     (\<forall>a. a < w_next w \<longrightarrow> w_arc w' a = w_arc w a) \<and>
     w_events w' = w_events w \<and> dirty_writes_lost w' = dirty_writes_lost w"
proof (cases p)
  case None
  then show ?thesis by (simp add: dbuf_syncer_split_def)
next
  case (Some t)
  then obtain dr where dr: "find_dr (db_dirty_records (w_db w)) t = Some dr"
    using pend by auto
  show ?thesis
  proof (cases "DB_NOFILL \<notin> db_state (w_db w) \<and> db_holds (w_db w) > 1 \<and>
                  dr_data (db_dirty_records (w_db w) ! dr) = db_buf (w_db w)")
    case False
    then show ?thesis using Some dr by (auto simp: dbuf_syncer_split_def)
  next
    case True
    obtain buf w1 where al: "dbuf_alloc_arcbuf w = (buf, w1)"
      by (cases "dbuf_alloc_arcbuf w") auto
    have buf: "buf = w_next w" and db1: "w_db w1 = w_db w"
      and ev1: "w_events w1 = w_events w" and l1: "dirty_writes_lost w1 = dirty_writes_lost w"
      and arc1: "\<And>a. a \<noteq> w_next w \<Longrightarrow> w_arc w1 a = w_arc w a"
      and len1: "length (b_data (w_arc w1 (w_next w))) = db_size (w_db w)"
      using dbuf_alloc_arcbuf_simps[where w=w] al by simp_all
    have fne: "f \<noteq> w_next w" using front(2) by simp
    have bc: "bcopy (Some f) (Some buf) (int (db_size (w_db w))) w1 =
        Some (set_b_data buf (take (db_size (w_db w)) (b_data (w_arc w1 f)) @
                drop (db_size (w_db w)) (b_data (w_arc w1 buf))) w1)"
      using front(3) len1 arc1[OF fne] by (simp add: bcopy_def buf)
    show ?thesis
      using Some dr True al bc front(1) db1 ev1 l1 arc1
      by (simp add: dbuf_syncer_split_def dbuf_set_data_def buf set_b_data_def)
  qed
qed

lemma find_dr_map:
  "(\<And>dr. dr_txg (g dr) = dr_txg dr) \<Longrightarrow> find_dr (map g drs) t = find_dr drs t"
  by (induction drs) simp_all

lemma find_dr_mem: "t \<in> dr_txg ` set drs \<Longrightarrow> find_dr drs t \<noteq> None"
  by (induction drs) auto

lemma last_map_clear:
  "drs \<noteq> [] \<Longrightarrow> last (map (\<lambda>dr. dr\<lparr>write_ranges := []\<rparr>) drs) = (last drs)\<lparr>write_ranges := []\<rparr>"
  by (simp add: last_map)

lemma dispatch_override_last:
  assumes rs: "db_dirty_records (w_db w) = rs" and ne: "rs \<noteq> []"
  shows "w_db (dbuf_dispatch_override_zio (Some (length rs - 1)) w) =
      (w_db w)\<lparr>db_dirty_records := butlast rs @ [(last rs)\<lparr>dr_override_zio := None\<rparr>]\<rparr>"
    and "w_events (dbuf_dispatch_override_zio (Some (length rs - 1)) w) =
      w_events w @ (case dr_override_zio (last rs) of None \<Rightarrow> [] | Some z \<Rightarrow> [Zio_nowait z])"
    and "w_arc (dbuf_dispatch_override_zio (Some (length rs - 1)) w) = w_arc w"
    and "dirty_writes_lost (dbuf_dispatch_override_zio (Some (length rs - 1)) w) =
      dirty_writes_lost w"
proof -
  have nth: "rs ! (length rs - 1) = last rs" using ne by (simp add: last_conv_nth)
  have upd: "\<And>x. rs[length rs - 1 := x] = butlast rs @ [x]"
    using ne by (simp add: upd_conv_take_nth_drop butlast_conv_take)
  have same: "butlast rs @ [(last rs)\<lparr>dr_override_zio := None\<rparr>] = rs"
    if "dr_override_zio (last rs) = None"
  proof -
    have "(last rs)\<lparr>dr_override_zio := dr_override_zio (last rs)\<rparr> = last rs" by simp
    then have "(last rs)\<lparr>dr_override_zio := None\<rparr> = last rs" using that by simp
    then show ?thesis using ne by simp
  qed
  show "w_db (dbuf_dispatch_override_zio (Some (length rs - 1)) w) =
      (w_db w)\<lparr>db_dirty_records := butlast rs @ [(last rs)\<lparr>dr_override_zio := None\<rparr>]\<rparr>"
  proof (cases "dr_override_zio (last rs)")
    case None
    then show ?thesis using same rs
      by (simp add: dbuf_dispatch_override_zio_def nth del: One_nat_def)
  next
    case (Some z)
    then show ?thesis using rs
      by (simp add: dbuf_dispatch_override_zio_def nth upd del: One_nat_def)
  qed
  show "w_events (dbuf_dispatch_override_zio (Some (length rs - 1)) w) =
      w_events w @ (case dr_override_zio (last rs) of None \<Rightarrow> [] | Some z \<Rightarrow> [Zio_nowait z])"
    using rs by (cases "dr_override_zio (last rs)")
      (simp_all add: dbuf_dispatch_override_zio_def nth del: One_nat_def)
  show "w_arc (dbuf_dispatch_override_zio (Some (length rs - 1)) w) = w_arc w"
    using rs by (cases "dr_override_zio (last rs)")
      (simp_all add: dbuf_dispatch_override_zio_def nth del: One_nat_def)
  show "dirty_writes_lost (dbuf_dispatch_override_zio (Some (length rs - 1)) w) =
      dirty_writes_lost w"
    using rs by (cases "dr_override_zio (last rs)")
      (simp_all add: dbuf_dispatch_override_zio_def nth del: One_nat_def)
qed

lemma db_frame_fields:
  assumes "db_frame db' = db_frame db"
  shows "db_object db' = db_object db" "db_size db' = db_size db" "db_level db' = db_level db"
    "db_blkid db' = db_blkid db" "db_holds db' = db_holds db"
    "db_data_pending db' = db_data_pending db" "db_dirtycnt db' = db_dirtycnt db"
    "db_freed_in_flight db' = db_freed_in_flight db" "db_user db' = db_user db"
    "db_immediate_evict db' = db_immediate_evict db"
proof -
  have *: "\<And>g. g (db_frame db') = g (db_frame db)" using assms by simp
  show "db_object db' = db_object db" using *[of db_object] by (simp add: db_frame_def)
  show "db_size db' = db_size db" using *[of db_size] by (simp add: db_frame_def)
  show "db_level db' = db_level db" using *[of db_level] by (simp add: db_frame_def)
  show "db_blkid db' = db_blkid db" using *[of db_blkid] by (simp add: db_frame_def)
  show "db_holds db' = db_holds db" using *[of db_holds] by (simp add: db_frame_def)
  show "db_data_pending db' = db_data_pending db"
    using *[of db_data_pending] by (simp add: db_frame_def)
  show "db_dirtycnt db' = db_dirtycnt db" using *[of db_dirtycnt] by (simp add: db_frame_def)
  show "db_freed_in_flight db' = db_freed_in_flight db"
    using *[of db_freed_in_flight] by (simp add: db_frame_def)
  show "db_user db' = db_user db" using *[of db_user] by (simp add: db_frame_def)
  show "db_immediate_evict db' = db_immediate_evict db"
    using *[of db_immediate_evict] by (simp add: db_frame_def)
qed


lemma read_complete_steps:
  assumes lvl: "db_level (w_db w) = 0"
    and ne: "db_dirty_records (w_db w) \<noteq> []"
    and rng: "write_ranges (last (db_dirty_records (w_db w))) \<noteq> []"
    and ok: "list_all dr_ok (db_dirty_records (w_db w))"
    and dist: "distinct (buf # map (\<lambda>dr. the (dr_data dr)) (db_dirty_records (w_db w)))"
    and alloc: "\<forall>dr\<in>set (db_dirty_records (w_db w)). the (dr_data dr) < w_next w"
    and front: "db_buf (w_db w) = Some f" "db_data (w_db w) = Some f" "f < w_next w"
      "db_size (w_db w) \<le> length (b_data (w_arc w f))"
    and st: "db_state (w_db w) = {DB_READ} \<or> db_state (w_db w) = {DB_READ, DB_FILL} \<or>
      DB_READ \<notin> db_state (w_db w)"
    and pend: "db_data_pending (w_db w) = Some (dr_txg (last (db_dirty_records (w_db w)))) \<or>
      (db_data_pending (w_db w) = None \<and> dr_zio (last (db_dirty_records (w_db w))) = None)"
  shows "\<exists>w'. dbuf_read_complete buf False w = Some w' \<and>
     db_dirty_records (w_db w') =
       butlast (map (\<lambda>dr. dr\<lparr>write_ranges := []\<rparr>) (db_dirty_records (w_db w))) @
       [(last (db_dirty_records (w_db w)))\<lparr>write_ranges := [], dr_override_zio := None\<rparr>] \<and>
     map (dr_content w') (db_dirty_records (w_db w)) =
       resolved (b_data (w_arc w buf))
         (map (\<lambda>dr. (dr_content w dr, write_ranges dr)) (db_dirty_records (w_db w))) \<and>
     w_events w' = w_events w @ [Arc_discard_buf buf] @
       (case dr_zio (last (db_dirty_records (w_db w))) of None \<Rightarrow> [] | Some z \<Rightarrow> [Zio_nowait z]) @
       (case dr_override_zio (last (db_dirty_records (w_db w))) of
          None \<Rightarrow> [] | Some z \<Rightarrow> [Zio_nowait z]) \<and>
     db_state (w_db w') =
       (if db_state (w_db w) = {DB_READ} then {DB_CACHED} else db_state (w_db w) - {DB_READ}) \<and>
     dirty_writes_lost w' = dirty_writes_lost w \<and>
     (\<exists>b. db_buf (w_db w') = Some b) \<and>
     db_frame (w_db w') = db_frame (w_db w)"
proof -
  let ?drs = "db_dirty_records (w_db w)"
  let ?clr = "map (\<lambda>dr. dr\<lparr>write_ranges := []\<rparr>) ?drs"
  have d1: "distinct (buf # map (\<lambda>dr. the (dr_data dr)) (take (length ?drs) ?drs))"
    using dist by simp
  from resolve_ranges_loop_spec[OF order_refl ok d1 lvl] obtain w1 where
    r1: "resolve_ranges_loop (length ?drs) buf w = Some w1"
    and db1: "w_db w1 = (w_db w)\<lparr>db_dirty_records := ?clr\<rparr>"
    and cont1: "map (dr_content w1) ?drs =
       resolved (b_data (w_arc w buf)) (map (\<lambda>dr. (dr_content w dr, write_ranges dr)) ?drs)"
    and len1: "\<forall>a. length (b_data (w_arc w1 a)) = length (b_data (w_arc w a))"
    and ev1: "w_events w1 = w_events w" and nx1: "w_next w1 = w_next w"
    and lost1: "dirty_writes_lost w1 = dirty_writes_lost w"
    by auto
  have lastin: "dr_txg (last ?drs) \<in> dr_txg ` set ?drs" using ne by simp
  have p2: "case db_data_pending (w_db w1) of None \<Rightarrow> True
      | Some t \<Rightarrow> find_dr (db_dirty_records (w_db w1)) t \<noteq> None"
    using pend find_dr_mem[OF lastin] by (auto simp: db1 find_dr_map)
  have f2: "db_data (w_db w1) = Some f" "f < w_next w1"
    "db_size (w_db w1) \<le> length (b_data (w_arc w1 f))"
    using front len1 by (simp_all add: db1 nx1)
  from dbuf_syncer_split_deferred[OF p2 f2] obtain w2 where
    s2: "dbuf_syncer_split (db_data_pending (w_db w1)) True w1 = Some w2"
    and db2: "w_db w2 = (w_db w1)\<lparr>db_buf := db_buf (w_db w2), db_data := db_data (w_db w2)\<rparr>"
    and buf2: "db_buf (w_db w2) \<noteq> None"
    and arc2: "\<forall>a. a < w_next w1 \<longrightarrow> w_arc w2 a = w_arc w1 a"
    and ev2: "w_events w2 = w_events w1" and lost2: "dirty_writes_lost w2 = dirty_writes_lost w1"
    using front(1) by (auto simp: db1)
  have res: "dbuf_resolve_ranges buf w = Some w2"
    using lvl r1 s2 by (simp add: dbuf_resolve_ranges_def)
  have drs2: "db_dirty_records (w_db w2) = ?clr"
    and st2: "db_state (w_db w2) = db_state (w_db w)"
    and pd2: "db_data_pending (w_db w2) = db_data_pending (w_db w)"
    by (subst db2, simp add: db1)+
  have cont2: "map (dr_content w2) ?drs = map (dr_content w1) ?drs"
    using alloc arc2 by (auto simp: dr_content_def nx1)
  define w3 where "w3 = db_update (\<lambda>db. db\<lparr>db_state :=
      (if db_state (w_db w) = {DB_READ} then {DB_CACHED} else db_state (w_db w) - {DB_READ})\<rparr>) w2"
  have stu: "(if db_state (w_db w2) = {DB_READ}
        then Some (db_update (\<lambda>db. db\<lparr>db_state := {DB_CACHED}\<rparr>) w2)
        else if DB_READ \<in> db_state (w_db w2)
        then (if db_state (w_db w2) = {DB_READ, DB_FILL}
              then Some (db_update (\<lambda>db. db\<lparr>db_state := db_state db - {DB_READ}\<rparr>) w2)
              else None)
        else Some w2) = Some w3"
  proof -
    consider (a) "db_state (w_db w) = {DB_READ}" | (b) "db_state (w_db w) = {DB_READ, DB_FILL}"
      | (c) "DB_READ \<notin> db_state (w_db w)" using st by blast
    then show ?thesis
    proof cases
      case a
      then show ?thesis by (simp add: st2 w3_def)
    next
      case b
      then have "db_state (w_db w) \<noteq> {DB_READ}" by auto
      then show ?thesis using b by (simp add: st2 w3_def db_update_def)
    next
      case c
      have a: "db_state (w_db w) \<noteq> {DB_READ}" using c by auto
      have b: "db_state (w_db w) - {DB_READ} = db_state (w_db w2)" using c st2 by auto
      have "w3 = w2" unfolding w3_def using a by (simp add: b db_update_def)
      moreover have "(if db_state (w_db w2) = {DB_READ}
        then Some (db_update (\<lambda>db. db\<lparr>db_state := {DB_CACHED}\<rparr>) w2)
        else if DB_READ \<in> db_state (w_db w2)
        then (if db_state (w_db w2) = {DB_READ, DB_FILL}
              then Some (db_update (\<lambda>db. db\<lparr>db_state := db_state db - {DB_READ}\<rparr>) w2)
              else None)
        else Some w2) = Some w2"
        using a c by (simp add: st2)
      ultimately show ?thesis by (simp only:)
    qed
  qed
  define w4 where "w4 = add_event (Arc_discard_buf buf) w3"
  have drs4: "db_dirty_records (w_db w4) = ?clr" by (simp add: w4_def w3_def drs2)
  have last4: "last (db_dirty_records (w_db w4)) = (last ?drs)\<lparr>write_ranges := []\<rparr>"
    using ne by (simp add: drs4 last_map)
  define w5 where "w5 = (case dr_zio (last ?drs) of None \<Rightarrow> w4 | Some z \<Rightarrow> add_event (Zio_nowait z) w4)"
  have zio: "(case dr_zio (last (db_dirty_records (w_db w4))) of
        None \<Rightarrow> Some w4
      | Some zio \<Rightarrow>
          if db_data_pending (w_db w4) = Some (dr_txg (last (db_dirty_records (w_db w4))))
          then Some (add_event (Zio_nowait zio) w4) else None) = Some w5"
  proof (cases "dr_zio (last ?drs)")
    case None
    then show ?thesis by (simp add: last4 w5_def)
  next
    case (Some z)
    then have "db_data_pending (w_db w) = Some (dr_txg (last ?drs))" using pend by auto
    moreover have "db_data_pending (w_db w4) = db_data_pending (w_db w)"
      by (simp add: w4_def w3_def pd2)
    ultimately show ?thesis using Some by (simp add: last4 w5_def)
  qed
  have drs5: "db_dirty_records (w_db w5) = ?clr"
    by (cases "dr_zio (last ?drs)") (simp_all add: w5_def drs4)
  have lenc: "length ?clr = length ?drs" by simp
  have nec: "?clr \<noteq> []" using ne by simp
  define w6 where "w6 = dbuf_dispatch_override_zio (Some (length ?drs - 1)) w5"
  note D = dispatch_override_last[OF drs5 nec, unfolded lenc, folded w6_def]
  have lastc: "last ?clr = (last ?drs)\<lparr>write_ranges := []\<rparr>" using ne by (simp add: last_map)
  have db6: "w_db w6 = (w_db w5)\<lparr>db_dirty_records :=
      butlast ?clr @ [(last ?drs)\<lparr>write_ranges := [], dr_override_zio := None\<rparr>]\<rparr>"
    using D(1) by (simp add: lastc)
  have drs6: "db_dirty_records (w_db w6) =
      butlast ?clr @ [(last ?drs)\<lparr>write_ranges := [], dr_override_zio := None\<rparr>]"
    by (simp add: db6)
  have db5: "w_db w5 = w_db w3"
    by (cases "dr_zio (last ?drs)") (simp_all add: w5_def w4_def)
  have ev5: "w_events w5 = w_events w @ [Arc_discard_buf buf] @
       (case dr_zio (last ?drs) of None \<Rightarrow> [] | Some z \<Rightarrow> [Zio_nowait z])"
    by (cases "dr_zio (last ?drs)") (simp_all add: w5_def w4_def w3_def ev2 ev1)
  have ev6: "w_events w6 = w_events w @ [Arc_discard_buf buf] @
       (case dr_zio (last ?drs) of None \<Rightarrow> [] | Some z \<Rightarrow> [Zio_nowait z]) @
       (case dr_override_zio (last ?drs) of None \<Rightarrow> [] | Some z \<Rightarrow> [Zio_nowait z])"
    using D(2) by (simp add: lastc ev5)
  have arc5: "w_arc w5 = w_arc w2"
    by (cases "dr_zio (last ?drs)") (simp_all add: w5_def w4_def w3_def)
  have arc6: "w_arc w6 = w_arc w2" using D(3) arc5 by simp
  have lost5: "dirty_writes_lost w5 = dirty_writes_lost w"
    by (cases "dr_zio (last ?drs)") (simp_all add: w5_def w4_def w3_def lost2 lost1)
  have lost6: "dirty_writes_lost w6 = dirty_writes_lost w" using D(4) lost5 by simp
  have st6: "db_state (w_db w6) =
      (if db_state (w_db w) = {DB_READ} then {DB_CACHED} else db_state (w_db w) - {DB_READ})"
    by (simp add: db6 db5 w3_def)
  have b6: "db_buf (w_db w6) = db_buf (w_db w2)" "db_data (w_db w6) = db_data (w_db w2)"
    by (simp_all add: db6 db5 w3_def)
  have fr2: "db_frame (w_db w2) = db_frame (w_db w)"
    by (subst db2) (simp add: db1 db_frame_def)
  have full6: "db_frame (w_db w6) = db_frame (w_db w)"
    using fr2 by (simp add: db6 db5 w3_def db_frame_def)
  have pbs: "dbuf_process_buf_sets 0 w6 = Some w6"
    using buf2 by (simp add: dbuf_process_buf_sets_def b6)
  have cont6: "map (dr_content w6) ?drs = map (dr_content w1) ?drs"
    using cont2 by (simp add: dr_content_def arc6)
  have pbs': "dbuf_process_buf_sets 0
      (dbuf_dispatch_override_zio (Some (length ?drs - Suc 0)) w5) = Some w6"
    using pbs by (simp add: w6_def)
  have "dbuf_read_complete buf False w = Some w6"
    using lvl ne rng
    by (simp add: dbuf_read_complete_def Let_def res stu zio[unfolded w4_def] pbs'
        del: add_event_simps)
  then show ?thesis
    using drs6 cont6 cont1 ev6 st6 lost6 buf2 b6 full6 by auto
qed




section \<open>Properties of a failed read\<close>

lemma dbuf_verify_records_txgs:
  "map dr_txg xs = map dr_txg ys \<Longrightarrow> dbuf_verify_records p xs = dbuf_verify_records p ys"
proof (induction p xs arbitrary: ys rule: dbuf_verify_records.induct)
  case (1 pending)
  then show ?case by simp
next
  case (2 pending dr)
  then show ?case by (cases ys) auto
next
  case (3 pending dr dr_next drs)
  then obtain y y' ys' where ys: "ys = y # y' # ys'" by (cases ys; cases "tl ys") auto
  have "dbuf_verify_records pending (dr_next # drs) = dbuf_verify_records pending (y' # ys')"
    using "3.prems" ys by (intro "3.IH") simp
  then show ?case using "3.prems" ys by simp
qed

lemma find_dr_txgs:
  "map dr_txg xs = map dr_txg ys \<Longrightarrow> find_dr xs t = find_dr ys t"
proof (induction xs arbitrary: ys)
  case Nil
  then show ?case by simp
next
  case (Cons x xs)
  then obtain y ys' where "ys = y # ys'" by (cases ys) auto
  then show ?case using Cons by auto
qed

lemma bzero_whole:
  "bzero (Some buf) (arc_buf_size w buf) w =
     Some (set_b_data buf (replicate (length (b_data (w_arc w buf))) 0) w)"
  by (simp add: bzero_def arc_buf_size_def)

lemma rele_and_unlock_held:
  assumes "dbuf_verify (w_db w)" and "db_holds (w_db w) > Suc 0" and "db_user (w_db w) = None"
  shows "\<exists>w'. dbuf_rele_and_unlock env w = Some w' \<and>
     w_db w' = (w_db w)\<lparr>db_holds := db_holds (w_db w) - 1\<rparr> \<and>
     (\<forall>a. b_data (w_arc w' a) = b_data (w_arc w a)) \<and>
     w_events w' = w_events w \<and> dirty_writes_lost w' = dirty_writes_lost w"
proof -
  have u: "(w_db w)\<lparr>db_holds := db_holds (w_db w) - Suc 0, db_user := None\<rparr> =
      (w_db w)\<lparr>db_holds := db_holds (w_db w) - Suc 0\<rparr>"
    using assms(3) by (metis dmu_buf_impl.surjective dmu_buf_impl.update_convs(6,13))
  show ?thesis
    using assms u
    by (cases "db_buf (w_db w)")
       (auto simp: dbuf_rele_and_unlock_def Let_def dbuf_evict_user_def dbuf_verify_user_def)
qed


lemma map_txg_resolved_records:
  "drs \<noteq> [] \<Longrightarrow>
   map dr_txg (butlast (map (\<lambda>dr. dr\<lparr>write_ranges := []\<rparr>) drs) @
      [(last drs)\<lparr>write_ranges := [], dr_override_zio := None\<rparr>]) = map dr_txg drs"
proof -
  assume ne: "drs \<noteq> []"
  have "map dr_txg (butlast (map (\<lambda>dr. dr\<lparr>write_ranges := []\<rparr>) drs) @
      [(last drs)\<lparr>write_ranges := [], dr_override_zio := None\<rparr>]) =
      map dr_txg (butlast drs) @ [dr_txg (last drs)]"
    by (simp add: map_butlast[symmetric])
  also have "\<dots> = map dr_txg (butlast drs @ [last drs])" by simp
  also have "\<dots> = map dr_txg drs" using ne by simp
  finally show ?thesis .
qed





section \<open>Properties of a free during a fill\<close>

lemma free_range_leaf_fill:
  assumes fill: "DB_FILL \<in> db_state (w_db w)"
    and lvl: "db_level (w_db w) = 0" and nb: "db_blkid (w_db w) \<noteq> DMU_BONUS_BLKID"
    and tx: "txg \<noteq> 0"
    and clean: "dbuf_get_dirty_record_for_txg (w_db w) txg = None"
    and ver: "dbuf_verify (w_db w)"
  shows "dbuf_free_range_leaf env txg w =
     Some (db_update (\<lambda>db. db\<lparr>db_freed_in_flight := True\<rparr>) w)"
proof -
  have und: "dbuf_undirty env txg w = Some (False, w)"
    using lvl nb tx clean by (simp add: dbuf_undirty_def)
  have st: "db_state (w_db w) \<noteq> {DB_UNCACHED}" "db_state (w_db w) \<noteq> {DB_NOFILL}"
    "db_state (w_db w) \<noteq> {DB_EVICTING}"
    using fill by auto
  have af: "dbuf_free_range_already_freed w = Some False"
    using st by (simp add: dbuf_free_range_already_freed_def)
  show ?thesis
    using nb ver fill
    by (simp add: dbuf_free_range_leaf_def und af dbuf_free_range_filler_will_free_def)
qed

lemma fill_done_freed:
  assumes fill: "DB_FILL \<in> db_state (w_db w)"
    and lvl: "db_level (w_db w) = 0" and nb: "db_blkid (w_db w) \<noteq> DMU_BONUS_BLKID"
    and ver: "dbuf_verify (w_db w)"
    and freed: "db_freed_in_flight (w_db w)"
    and drs: "db_dirty_records (w_db w) = dr # older"
    and tx: "dr_txg dr = txg" and pend: "db_data_pending (w_db w) \<noteq> Some txg"
    and front: "db_data (w_db w) = Some f" "db_buf (w_db w) \<noteq> None"
      "db_size (w_db w) \<le> length (b_data (w_arc w f))"
  shows "\<exists>w'. dbuf_fill_done txg w = Some w' \<and>
     b_data (w_arc w' f) =
       replicate (db_size (w_db w)) 0 @ drop (db_size (w_db w)) (b_data (w_arc w f)) \<and>
     db_dirty_records (w_db w') = dr\<lparr>write_ranges := [], dr_override_zio := None\<rparr> # older \<and>
     \<not> db_freed_in_flight (w_db w') \<and>
     db_state (w_db w') = {DB_CACHED} \<and>
     w_events w' = w_events w @
       (case dr_override_zio dr of None \<Rightarrow> [] | Some z \<Rightarrow> [Zio_nowait z])"
proof -
  have bz: "bzero (db_data (w_db w)) (int (db_size (w_db w))) w =
    Some (set_b_data f (replicate (db_size (w_db w)) 0 @ drop (db_size (w_db w)) (b_data (w_arc w f))) w)"
    using front by (simp add: bzero_def)
  show ?thesis
    using fill lvl nb ver freed drs tx pend front(2)
    by (cases "dr_override_zio dr")
       (auto simp: dbuf_fill_done_def bz dbuf_process_buf_sets_def dbuf_dispatch_override_zio_def
        dbuf_dirty_record_cleanup_ranges_def cleanup_ranges_loop_Nil dr_update_def db_update_def
        add_event_def set_b_data_def)
qed

text \<open>
  The claim C9 as it is written fails when the dbuf is dirty in the transaction group of
  the free.  In the example the filler holds the dbuf, which is dirty in the group 5;
  the body of the loop of \<^verbatim>\<open>dbuf_free_range\<close> in the group 5 first calls
  \<^verbatim>\<open>dbuf_undirty\<close>, which finds the dirty record and asserts that nobody but the
  dirty records holds the dbuf.  \<^verbatim>\<open>db_freed_in_flight\<close> is not set.
\<close>

theorem free_range_in_dirty_txg_does_not_reach_filler:
  "DB_FILL \<in> db_state (w_db ex_fill_world) \<and>
   map_option (db_freed_in_flight \<circ> w_db) (dbuf_free_range_leaf ex_env 5 ex_fill_world) = None"
  by (simp add: ex_fill_world_def dbuf_free_range_leaf_def dbuf_undirty_def
      dbuf_get_dirty_record_for_txg_def DMU_BONUS_BLKID_def)

text \<open>
  Claim C9, amended.  When \<^verbatim>\<open>dbuf_free_range\<close>, in a transaction group in which
  the dbuf is not dirty, covers the block of a leaf dbuf that has \<^verbatim>\<open>DB_FILL\<close> set,
  it sets \<^verbatim>\<open>db_freed_in_flight\<close> and leaves the dbuf as it is otherwise.  The
  \<^verbatim>\<open>dbuf_fill_done\<close> of the filler that follows, in the transaction group of the
  newest dirty record, fills the first \<^verbatim>\<open>db_size\<close> bytes of the frontend with
  zeros, empties the write ranges of that record, resets \<^verbatim>\<open>db_freed_in_flight\<close>,
  takes the dbuf to \<^verbatim>\<open>DB_CACHED\<close> and issues the deferred override zio of the
  record, where there is one.
\<close>

theorem free_range_during_fill:
  assumes "DB_FILL \<in> db_state (w_db w)"
    and "db_level (w_db w) = 0" and "db_blkid (w_db w) \<noteq> DMU_BONUS_BLKID"
    and "free_txg \<noteq> 0"
    and "dbuf_get_dirty_record_for_txg (w_db w) free_txg = None"
    and "dbuf_verify (w_db w)"
    and "db_dirty_records (w_db w) = dr # older"
    and "db_data_pending (w_db w) \<noteq> Some (dr_txg dr)"
    and "db_data (w_db w) = Some f" "db_buf (w_db w) \<noteq> None"
      "db_size (w_db w) \<le> length (b_data (w_arc w f))"
  shows "\<exists>w1 w2. dbuf_free_range_leaf env free_txg w = Some w1 \<and>
     w1 = db_update (\<lambda>db. db\<lparr>db_freed_in_flight := True\<rparr>) w \<and>
     dbuf_fill_done (dr_txg dr) w1 = Some w2 \<and>
     b_data (w_arc w2 f) =
       replicate (db_size (w_db w)) 0 @ drop (db_size (w_db w)) (b_data (w_arc w f)) \<and>
     db_dirty_records (w_db w2) = dr\<lparr>write_ranges := [], dr_override_zio := None\<rparr> # older \<and>
     \<not> db_freed_in_flight (w_db w2) \<and>
     db_state (w_db w2) = {DB_CACHED} \<and>
     w_events w2 = w_events w @
       (case dr_override_zio dr of None \<Rightarrow> [] | Some z \<Rightarrow> [Zio_nowait z])"
proof -
  let ?w1 = "db_update (\<lambda>db. db\<lparr>db_freed_in_flight := True\<rparr>) w"
  have fr: "dbuf_free_range_leaf env free_txg w = Some ?w1"
    using assms(1-6) by (rule free_range_leaf_fill)
  have ver: "dbuf_verify (w_db ?w1)"
    using assms(6) by (auto simp: dbuf_verify_def split: option.splits)
  have "\<exists>w'. dbuf_fill_done (dr_txg dr) ?w1 = Some w' \<and>
     b_data (w_arc w' f) =
       replicate (db_size (w_db ?w1)) 0 @ drop (db_size (w_db ?w1)) (b_data (w_arc ?w1 f)) \<and>
     db_dirty_records (w_db w') = dr\<lparr>write_ranges := [], dr_override_zio := None\<rparr> # older \<and>
     \<not> db_freed_in_flight (w_db w') \<and>
     db_state (w_db w') = {DB_CACHED} \<and>
     w_events w' = w_events ?w1 @
       (case dr_override_zio dr of None \<Rightarrow> [] | Some z \<Rightarrow> [Zio_nowait z])"
    using assms ver by (intro fill_done_freed) simp_all
  then show ?thesis
    using fr by simp
qed

text \<open>
  The theorem at the example, with the free in the transaction group 6: the frontend is
  zero, the write range [0, 4) is gone and the zio 9 is issued.
\<close>

theorem free_range_during_fill_witness:
  "\<exists>w1 w2. dbuf_free_range_leaf ex_env 6 ex_fill_world = Some w1 \<and>
     db_freed_in_flight (w_db w1) \<and>
     dbuf_fill_done 5 w1 = Some w2 \<and>
     b_data (w_arc w2 1) = [0, 0, 0, 0, 0, 0, 0, 0] \<and>
     map write_ranges (db_dirty_records (w_db w2)) = [[]] \<and>
     \<not> db_freed_in_flight (w_db w2) \<and>
     db_state (w_db w2) = {DB_CACHED} \<and>
     w_events w2 = [Zio_nowait 9]"
proof -
  let ?dr = "hd (db_dirty_records (w_db ex_fill_world))"
  have "\<exists>w1 w2. dbuf_free_range_leaf ex_env 6 ex_fill_world = Some w1 \<and>
     w1 = db_update (\<lambda>db. db\<lparr>db_freed_in_flight := True\<rparr>) ex_fill_world \<and>
     dbuf_fill_done (dr_txg ?dr) w1 = Some w2 \<and>
     b_data (w_arc w2 1) =
       replicate (db_size (w_db ex_fill_world)) 0 @
       drop (db_size (w_db ex_fill_world)) (b_data (w_arc ex_fill_world 1)) \<and>
     db_dirty_records (w_db w2) = ?dr\<lparr>write_ranges := [], dr_override_zio := None\<rparr> # [] \<and>
     \<not> db_freed_in_flight (w_db w2) \<and>
     db_state (w_db w2) = {DB_CACHED} \<and>
     w_events w2 = w_events ex_fill_world @
       (case dr_override_zio ?dr of None \<Rightarrow> [] | Some z \<Rightarrow> [Zio_nowait z])"
    by (rule free_range_during_fill[of ex_fill_world 6 ?dr "[]" 1 ex_env])
       (simp_all add: ex_fill_world_def dbuf_get_dirty_record_for_txg_def dbuf_verify_def
          BITMASK_SET_def DMU_BONUS_BLKID_def)
  then obtain w1 w2 where
    "dbuf_free_range_leaf ex_env 6 ex_fill_world = Some w1"
    "w1 = db_update (\<lambda>db. db\<lparr>db_freed_in_flight := True\<rparr>) ex_fill_world"
    "dbuf_fill_done (dr_txg ?dr) w1 = Some w2"
    "b_data (w_arc w2 1) =
       replicate (db_size (w_db ex_fill_world)) 0 @
       drop (db_size (w_db ex_fill_world)) (b_data (w_arc ex_fill_world 1))"
    "db_dirty_records (w_db w2) = ?dr\<lparr>write_ranges := [], dr_override_zio := None\<rparr> # []"
    "\<not> db_freed_in_flight (w_db w2)"
    "db_state (w_db w2) = {DB_CACHED}"
    "w_events w2 = w_events ex_fill_world @
       (case dr_override_zio ?dr of None \<Rightarrow> [] | Some z \<Rightarrow> [Zio_nowait z])"
    by blast
  then show ?thesis
    by (intro exI[of _ w1] exI[of _ w2])
       (simp add: ex_fill_world_def numeral_eq_Suc)
qed

section \<open>Properties of dirtying a leaf dbuf\<close>

lemma insert_pt_loop_newer:
  "drs = [] \<or> dr_txg (hd drs) \<le> txg \<Longrightarrow>
   insert_pt_loop drs txg i ip = (ip, if drs = [] then None else Some i)"
  by (cases drs) auto

lemma compute_state_newest:
  assumes nf: "DB_FILL \<notin> db_state (w_db w)"
    and tx: "txg \<noteq> 0" and holds: "db_holds (w_db w) \<noteq> 0"
    and newer: "db_dirty_records (w_db w) = [] \<or> dr_txg (hd (db_dirty_records (w_db w))) \<le> txg"
    and dds: "dds_tx dds = txg" "txg_dr dds = None"
  shows "dbuf_dirty_compute_state dds w =
     Some (if db_dirty_records (w_db w) \<noteq> [] \<and> dr_txg (hd (db_dirty_records (w_db w))) = txg
           then dds\<lparr>insert_pt := None, txg_dr := Some 0, txg_already_dirty := True\<rparr>
           else dds\<lparr>insert_pt := None, txg_already_dirty := False\<rparr>)"
  using nf tx holds newer dds
  by (cases "db_dirty_records (w_db w)")
     (auto simp: dbuf_dirty_compute_state_def dbuf_dirty_verify_def Let_def)

text \<open>
  Claim C5.  \<^verbatim>\<open>dbuf_dirty_leaf\<close> with the range [0, \<^verbatim>\<open>db_size\<close>) on a leaf dbuf
  in the state \<^verbatim>\<open>DB_UNCACHED\<close>, which has no buffer, returns with the dbuf in the
  state \<^verbatim>\<open>DB_FILL\<close>, without \<^verbatim>\<open>DB_PARTIAL\<close>, and with the dirty record of the
  transaction group at the head of the list, without a write range; no read is issued.
  The dbuf is held, belongs to an object other than the meta-dnode, is not dirty in a
  newer transaction group and has room for one more dirty record.
\<close>

theorem dirty_full_block_goes_to_fill:
  assumes st: "db_state (w_db w) = {DB_UNCACHED}"
    and lvl: "db_level (w_db w) = 0"
    and obj: "db_object (w_db w) \<noteq> DMU_META_DNODE_OBJECT"
    and nb: "db_blkid (w_db w) \<noteq> DMU_BONUS_BLKID"
    and tx: "txg \<noteq> 0" and holds: "db_holds (w_db w) \<noteq> 0"
    and sz: "db_size (w_db w) \<noteq> 0"
    and buf: "db_buf (w_db w) = None"
    and newer: "db_dirty_records (w_db w) = [] \<or> dr_txg (hd (db_dirty_records (w_db w))) \<le> txg"
    and cnt: "db_dirtycnt (w_db w) < TXG_CONCURRENT_STATES"
  shows "\<exists>w'. dbuf_dirty_leaf env txg 0 (int (db_size (w_db w))) w = Some (Some 0, w') \<and>
     db_state (w_db w') = {DB_FILL} \<and>
     dr_txg (hd (db_dirty_records (w_db w'))) = txg \<and>
     write_ranges (hd (db_dirty_records (w_db w'))) = [] \<and>
     w_events w' = w_events w"
proof -
  let ?dds = "\<lparr>dds_tx = txg, insert_pt = None, txg_dr = None, txg_already_dirty = False,
      fill_buf = None, dds_offset = 0, dds_size = int (db_size (w_db w))\<rparr>"
  have hf: "dbuf_dirty_handle_fault env ?dds w = Some w"
    using st lvl by (simp add: dbuf_dirty_handle_fault_def)
  have nf: "DB_FILL \<notin> db_state (w_db w)" using st by simp
  note cs = compute_state_newest[OF nf tx holds newer, of ?dds]
  show ?thesis
  proof (cases "db_dirty_records (w_db w) \<noteq> [] \<and> dr_txg (hd (db_dirty_records (w_db w))) = txg")
    case True
    then obtain dr older where drs: "db_dirty_records (w_db w) = dr # older" and t: "dr_txg dr = txg"
      by (cases "db_dirty_records (w_db w)") auto
    have le: "dbuf_dirty_leaf_enter env txg 0 (int (db_size (w_db w))) w =
       Some (?dds\<lparr>insert_pt := None, txg_dr := Some 0, txg_already_dirty := True\<rparr>, w)"
      using True cs by (simp add: dbuf_dirty_leaf_enter_def hf dbuf_dirty_enter_def Let_def)
    show ?thesis
      using st lvl obj nb buf drs t
      by (simp add: dbuf_dirty_leaf_def le dbuf_dirty_leaf_common_def dbuf_dirty_set_data_def
          dbuf_dirty_enter_def dbuf_alloc_arcbuf_def dbuf_set_data_def Let_def
          dbuf_dirty_record_update_leaf_def dbuf_dirty_record_add_range_def add_range_list_def
          cleanup_ranges_loop_Nil dbuf_dirty_exit_def dr_update_def db_update_def)
  next
    case False
    have le: "dbuf_dirty_leaf_enter env txg 0 (int (db_size (w_db w))) w =
       Some (?dds\<lparr>insert_pt := None, txg_already_dirty := False\<rparr>, w)"
      using False cs by (simp add: dbuf_dirty_leaf_enter_def hf dbuf_dirty_enter_def Let_def)
    have ne: "db_dirty_records (w_db w) = [] \<or> dr_txg (hd (db_dirty_records (w_db w))) \<noteq> txg"
      using False by auto
    show ?thesis
      using st lvl obj nb buf ne sz cnt holds
      by (simp add: dbuf_dirty_leaf_def le dbuf_dirty_leaf_common_def dbuf_dirty_set_data_def
          dbuf_dirty_enter_def dbuf_alloc_arcbuf_def dbuf_set_data_def Let_def
          dbuf_dirty_record_create_leaf_def dbuf_dirty_record_create_def
          dbuf_dirty_record_register_as_leaf_def dbuf_dirty_record_register_def dbuf_add_ref_def
          dbuf_dirty_record_update_leaf_def dbuf_dirty_record_add_range_def add_range_list_def
          cleanup_ranges_loop_Nil dbuf_dirty_exit_def dr_update_def db_update_def)
  qed
qed

text \<open>The theorem at the example, in the transaction group 5.\<close>

theorem dirty_full_block_goes_to_fill_witness:
  "\<exists>w'. dbuf_dirty_leaf ex_env 5 0 8 ex_uncached_world = Some (Some 0, w') \<and>
     db_state (w_db w') = {DB_FILL} \<and>
     dr_txg (hd (db_dirty_records (w_db w'))) = 5 \<and>
     write_ranges (hd (db_dirty_records (w_db w'))) = [] \<and>
     w_events w' = []"
  using dirty_full_block_goes_to_fill[of ex_uncached_world 5 ex_env]
  by (simp add: ex_uncached_world_def DMU_META_DNODE_OBJECT_def DMU_BONUS_BLKID_def
      TXG_CONCURRENT_STATES_def)

lemma transition_to_read_uncached:
  assumes st: "db_state (w_db w) = {DB_UNCACHED}"
    and lvl: "db_level (w_db w) = 0"
    and obj: "db_object (w_db w) \<noteq> DMU_META_DNODE_OBJECT"
    and nb: "db_blkid (w_db w) \<noteq> DMU_BONUS_BLKID"
    and holds: "db_holds (w_db w) \<noteq> 0"
    and drs: "db_dirty_records (w_db w) = []"
    and pend: "db_data_pending (w_db w) = None"
    and cnt: "db_dirtycnt (w_db w) = 0"
  shows "\<exists>w1. dbuf_transition_to_read env w = Some w1 \<and>
     db_dirty_records (w_db w1) = [] \<and>
     db_level (w_db w1) = 0 \<and> db_object (w_db w1) = db_object (w_db w) \<and>
     db_blkid (w_db w1) = db_blkid (w_db w) \<and> db_size (w_db w1) = db_size (w_db w) \<and>
     db_dirtycnt (w_db w1) = 0 \<and> db_data_pending (w_db w1) = None \<and>
     (if e_is_hole env \<or> e_arc_cached env \<noteq> None
      then db_state (w_db w1) = {DB_CACHED} \<and> w_events w1 = w_events w \<and>
           db_holds (w_db w1) = db_holds (w_db w) \<and> db_buf (w_db w1) = Some (w_next w)
      else db_state (w_db w1) = {DB_READ} \<and> w_events w1 = w_events w @ [Arc_read] \<and>
           db_holds (w_db w1) = db_holds (w_db w) + 1 \<and> db_buf (w_db w1) = db_buf (w_db w))"
proof (cases "e_is_hole env")
  case True
  then show ?thesis
    using st lvl nb holds drs cnt pend
    by (simp add: dbuf_transition_to_read_def dbuf_read_def dbuf_read_impl_def dbuf_read_bonus_def
        dbuf_read_hole_def dbuf_alloc_arcbuf_def bzero_def dbuf_read_complete_def
        dbuf_set_data_def dbuf_process_buf_sets_def Let_def)
next
  case False
  show ?thesis
  proof (cases "e_arc_cached env")
    case None
    then show ?thesis
      using False st lvl nb holds drs cnt pend
      by (simp add: dbuf_transition_to_read_def dbuf_read_def dbuf_read_impl_def dbuf_read_bonus_def
        dbuf_read_hole_def dbuf_add_ref_def arc_read_def Let_def)
  next
    case (Some d)
    then show ?thesis
      using False st lvl nb holds drs pend cnt
      by (simp add: dbuf_transition_to_read_def dbuf_read_def dbuf_read_impl_def dbuf_read_bonus_def
        dbuf_read_hole_def dbuf_add_ref_def arc_read_def Let_def dbuf_read_done_def
        dbuf_read_complete_def dbuf_set_data_def dbuf_process_buf_sets_def
        dbuf_rele_and_unlock_def dbuf_verify_def BITMASK_SET_def arc_buf_freeze_def)
  qed
qed


text \<open>
  Claim C6.  \<^verbatim>\<open>dbuf_dirty_leaf\<close> with a range [\<open>offset\<close>, \<open>offset + sz\<close>) that
  starts behind the start of the block and ends before its end, on a leaf dbuf in the
  state \<^verbatim>\<open>DB_UNCACHED\<close> without dirty records: \<^verbatim>\<open>dbuf_dirty_leaf_enter\<close> runs
  \<^verbatim>\<open>dbuf_transition_to_read\<close>, after which the dbuf still has no dirty record.
  The read is issued and the dbuf is in \<^verbatim>\<open>DB_READ\<close>, unless the block is a hole or
  the ARC has it, when the read is done at once and the dbuf is in \<^verbatim>\<open>DB_CACHED\<close>.
  Only then the dirty record is created: \<^verbatim>\<open>dbuf_dirty_leaf\<close> returns with one
  dirty record, which holds the write range when the read is in flight, and the dbuf is
  in \<^verbatim>\<open>DB_READ|DB_FILL\<close> then.
\<close>

theorem dirty_interior_range_reads_first:
  assumes st: "db_state (w_db w) = {DB_UNCACHED}"
    and lvl: "db_level (w_db w) = 0"
    and obj: "db_object (w_db w) \<noteq> DMU_META_DNODE_OBJECT"
    and nb: "db_blkid (w_db w) \<noteq> DMU_BONUS_BLKID"
    and tx: "txg \<noteq> 0"
    and holds: "db_holds (w_db w) \<noteq> 0"
    and drs: "db_dirty_records (w_db w) = []"
    and pend: "db_data_pending (w_db w) = None"
    and cnt: "db_dirtycnt (w_db w) = 0"
    and buf: "db_buf (w_db w) = None"
    and off: "0 < offset" "0 < sz" "offset + sz < int (db_size (w_db w))"
  shows "\<exists>dds w1 w'. dbuf_dirty_leaf_enter env txg offset sz w = Some (dds, w1) \<and>
     dbuf_transition_to_read env w = Some w1 \<and>
     db_dirty_records (w_db w1) = [] \<and>
     db_state (w_db w1) =
       (if e_is_hole env \<or> e_arc_cached env \<noteq> None then {DB_CACHED} else {DB_READ}) \<and>
     w_events w1 = w_events w @
       (if e_is_hole env \<or> e_arc_cached env \<noteq> None then [] else [Arc_read]) \<and>
     dbuf_dirty_leaf env txg offset sz w = Some (Some 0, w') \<and>
     map dr_txg (db_dirty_records (w_db w')) = [txg] \<and>
     map write_ranges (db_dirty_records (w_db w')) =
       [if e_is_hole env \<or> e_arc_cached env \<noteq> None then []
        else [\<lparr>range_start = offset, range_size = sz, range_end = offset + sz\<rparr>]] \<and>
     db_state (w_db w') =
       (if e_is_hole env \<or> e_arc_cached env \<noteq> None then {DB_CACHED} else {DB_READ, DB_FILL}) \<and>
     w_events w' = w_events w1"
proof -
  let ?sync = "e_is_hole env \<or> e_arc_cached env \<noteq> None"
  let ?dds = "\<lparr>dds_tx = txg, insert_pt = None, txg_dr = None, txg_already_dirty = False,
      fill_buf = None, dds_offset = offset, dds_size = sz\<rparr>"
  from transition_to_read_uncached[OF st lvl obj nb holds drs pend cnt, of env]
  obtain w1 where tr: "dbuf_transition_to_read env w = Some w1"
    and drs1: "db_dirty_records (w_db w1) = []"
    and lvl1: "db_level (w_db w1) = 0" and obj1: "db_object (w_db w1) = db_object (w_db w)"
    and nb1: "db_blkid (w_db w1) = db_blkid (w_db w)"
    and sz1: "db_size (w_db w1) = db_size (w_db w)"
    and cnt1: "db_dirtycnt (w_db w1) = 0"
    and rest: "if ?sync
      then db_state (w_db w1) = {DB_CACHED} \<and> w_events w1 = w_events w \<and>
           db_holds (w_db w1) = db_holds (w_db w) \<and> db_buf (w_db w1) = Some (w_next w)
      else db_state (w_db w1) = {DB_READ} \<and> w_events w1 = w_events w @ [Arc_read] \<and>
           db_holds (w_db w1) = db_holds (w_db w) + 1 \<and> db_buf (w_db w1) = db_buf (w_db w)"
    by blast
  have hf: "dbuf_dirty_handle_fault env ?dds w = Some w1"
    using st lvl off by (simp add: dbuf_dirty_handle_fault_def tr)
  have nf: "DB_FILL \<notin> db_state (w_db w1)"
    using rest by (auto split: if_splits)
  have holds1: "db_holds (w_db w1) \<noteq> 0"
    using rest holds by (auto split: if_splits)
  have cs: "dbuf_dirty_compute_state ?dds w1 = Some ?dds"
    using nf tx holds1 drs1
    by (simp add: dbuf_dirty_compute_state_def dbuf_dirty_verify_def Let_def)
  have le: "dbuf_dirty_leaf_enter env txg offset sz w = Some (?dds, w1)"
    by (simp add: dbuf_dirty_leaf_enter_def dbuf_dirty_enter_def Let_def hf cs)
  have szne: "db_size (w_db w) \<noteq> 0" using off by auto
  have "\<exists>w'. dbuf_dirty_leaf env txg offset sz w = Some (Some 0, w') \<and>
     map dr_txg (db_dirty_records (w_db w')) = [txg] \<and>
     map write_ranges (db_dirty_records (w_db w')) =
       [if ?sync then []
        else [\<lparr>range_start = offset, range_size = sz, range_end = offset + sz\<rparr>]] \<and>
     db_state (w_db w') = (if ?sync then {DB_CACHED} else {DB_READ, DB_FILL}) \<and>
     w_events w' = w_events w1"
  proof (cases ?sync)
    case True
    then have r: "db_state (w_db w1) = {DB_CACHED}" "db_holds (w_db w1) = db_holds (w_db w)"
      "db_buf (w_db w1) = Some (w_next w)"
      using rest by auto
    show ?thesis
      using True lvl obj nb r drs1 lvl1 nb1 sz1 cnt1 szne holds
      by (simp add: dbuf_dirty_leaf_def le dbuf_dirty_leaf_common_def Let_def
          dbuf_dirty_leaf_with_existing_frontend_def arc_release_def arc_buf_thaw_def
          dbuf_dirty_record_create_leaf_def dbuf_dirty_record_create_def
          dbuf_dirty_record_register_as_leaf_def dbuf_dirty_record_register_def dbuf_add_ref_def
          dbuf_dirty_record_update_leaf_def dbuf_dirty_exit_def TXG_CONCURRENT_STATES_def)
  next
    case False
    then have r: "db_state (w_db w1) = {DB_READ}" "db_holds (w_db w1) = db_holds (w_db w) + 1"
      "db_buf (w_db w1) = None"
      using rest buf by auto
    show ?thesis
      using False lvl obj nb r drs1 lvl1 nb1 sz1 cnt1 szne holds off
      by (simp add: dbuf_dirty_leaf_def le dbuf_dirty_leaf_common_def Let_def
          dbuf_dirty_set_data_def dbuf_alloc_arcbuf_def dbuf_set_data_def
          dbuf_dirty_record_create_leaf_def dbuf_dirty_record_create_def
          dbuf_dirty_record_register_as_leaf_def dbuf_dirty_record_register_def dbuf_add_ref_def
          dbuf_dirty_record_update_leaf_def dbuf_dirty_exit_def TXG_CONCURRENT_STATES_def
          dbuf_dirty_record_add_range_def add_range_list_def insert_commute)
  qed
  then show ?thesis
    using le tr drs1 rest by (auto split: if_splits)
qed

text \<open>
  The theorem at the example, with the range [2, 5) in the transaction group 5 and a
  block that is on disk only.
\<close>

theorem dirty_interior_range_reads_first_witness:
  "\<exists>dds w1 w'. dbuf_dirty_leaf_enter ex_env 5 2 3 ex_uncached_world = Some (dds, w1) \<and>
     dbuf_transition_to_read ex_env ex_uncached_world = Some w1 \<and>
     db_dirty_records (w_db w1) = [] \<and>
     db_state (w_db w1) = {DB_READ} \<and>
     w_events w1 = [Arc_read] \<and>
     dbuf_dirty_leaf ex_env 5 2 3 ex_uncached_world = Some (Some 0, w') \<and>
     map dr_txg (db_dirty_records (w_db w')) = [5] \<and>
     map write_ranges (db_dirty_records (w_db w')) =
       [[\<lparr>range_start = 2, range_size = 3, range_end = 5\<rparr>]] \<and>
     db_state (w_db w') = {DB_READ, DB_FILL} \<and>
     w_events w' = [Arc_read]"
proof -
  have "\<exists>dds w1 w'. dbuf_dirty_leaf_enter ex_env 5 2 3 ex_uncached_world = Some (dds, w1) \<and>
     dbuf_transition_to_read ex_env ex_uncached_world = Some w1 \<and>
     db_dirty_records (w_db w1) = [] \<and>
     db_state (w_db w1) =
       (if e_is_hole ex_env \<or> e_arc_cached ex_env \<noteq> None then {DB_CACHED} else {DB_READ}) \<and>
     w_events w1 = w_events ex_uncached_world @
       (if e_is_hole ex_env \<or> e_arc_cached ex_env \<noteq> None then [] else [Arc_read]) \<and>
     dbuf_dirty_leaf ex_env 5 2 3 ex_uncached_world = Some (Some 0, w') \<and>
     map dr_txg (db_dirty_records (w_db w')) = [5] \<and>
     map write_ranges (db_dirty_records (w_db w')) =
       [if e_is_hole ex_env \<or> e_arc_cached ex_env \<noteq> None then []
        else [\<lparr>range_start = 2, range_size = 3, range_end = 2 + 3\<rparr>]] \<and>
     db_state (w_db w') =
       (if e_is_hole ex_env \<or> e_arc_cached ex_env \<noteq> None then {DB_CACHED}
        else {DB_READ, DB_FILL}) \<and>
     w_events w' = w_events w1"
    by (rule dirty_interior_range_reads_first[of ex_uncached_world 5 2 3 ex_env])
       (simp_all add: ex_uncached_world_def DMU_META_DNODE_OBJECT_def DMU_BONUS_BLKID_def)
  then have "\<exists>dds w1 w'. dbuf_dirty_leaf_enter ex_env 5 2 3 ex_uncached_world = Some (dds, w1) \<and>
     dbuf_transition_to_read ex_env ex_uncached_world = Some w1 \<and>
     db_dirty_records (w_db w1) = [] \<and>
     db_state (w_db w1) = {DB_READ} \<and>
     w_events w1 = [Arc_read] \<and>
     dbuf_dirty_leaf ex_env 5 2 3 ex_uncached_world = Some (Some 0, w') \<and>
     map dr_txg (db_dirty_records (w_db w')) = [5] \<and>
     map write_ranges (db_dirty_records (w_db w')) =
       [[\<lparr>range_start = 2, range_size = 3, range_end = 5\<rparr>]] \<and>
     db_state (w_db w') = {DB_READ, DB_FILL} \<and>
     w_events w' = w_events w1"
    by (simp add: ex_env_def ex_uncached_world_def)
  then show ?thesis
    by metis
qed

end
